(* ===== verification/Prelude.thy ===== *)
theory Prelude
  imports Main "HOL-Library.Word" "HOL-Library.Monad_Syntax"
begin

unbundle bit_operations_syntax

text \<open>
  Shared vocabulary of the development: machine words, byte slices, the two
  failure conventions and the automation the component theories rely on.

  \<^item> A Go run-time panic is \<open>None\<close> of an \<open>option\<close>; \<open>'a go\<close> names that reading.
  \<^item> A Go \<open>error\<close> return is \<open>Inl\<close> of a sum.
  \<^item> A \<open>[]byte\<close> or a \<open>string\<close> of raw bytes is a list; the bounds of every slice
    expression are checked by \<open>slice\<close>.
\<close>

named_theorems go_defs \<open>definitions that unfold when an operation is executed symbolically\<close>
named_theorems wire_laws \<open>laws of header accessors\<close>
named_theorems step_inv \<open>preservation of an invariant by one step\<close>

type_synonym byte = "8 word"
type_synonym bytes = "8 word list"
type_synonym u16 = "16 word"
type_synonym u32 = "32 word"
type_synonym u64 = "64 word"
type_synonym 'a go = "'a option"

abbreviation panic :: "'a go" where "panic \<equiv> None"

section \<open>Integer conversions\<close>

text \<open>\<open>int32(x)\<close>, \<open>int64(x)\<close> and \<open>uint16(x)\<close> of an integer keep the low bits.\<close>

definition int32_of :: "int \<Rightarrow> int" where
  "int32_of x = sint (word_of_int x :: 32 word)"

definition int64_of :: "int \<Rightarrow> int" where
  "int64_of x = sint (word_of_int x :: 64 word)"

definition uint16_of :: "int \<Rightarrow> u16" where
  "uint16_of x = word_of_int x"

lemma int32_of_eq: "int32_of x = (x + 2 ^ 31) mod 2 ^ 32 - 2 ^ 31"
  by (simp add: int32_of_def int_word_sint)

lemma int32_of_id: "- (2 ^ 31) \<le> x \<Longrightarrow> x < 2 ^ 31 \<Longrightarrow> int32_of x = x"
  by (simp add: int32_of_eq)

lemma int64_of_eq: "int64_of x = (x + 2 ^ 63) mod 2 ^ 64 - 2 ^ 63"
  by (simp add: int64_of_def int_word_sint)

lemma int64_of_id: "- (2 ^ 63) \<le> x \<Longrightarrow> x < 2 ^ 63 \<Longrightarrow> int64_of x = x"
  by (simp add: int64_of_eq)

lemma unat_uint16_of_nat: "unat (uint16_of (int n)) = n mod 65536"
  by (simp add: uint16_of_def unat_of_nat take_bit_eq_mod flip: word_of_nat_eq_iff)

section \<open>Slices\<close>

text \<open>\<open>xs[lo:hi]\<close>; out of range it panics.\<close>

definition slice :: "nat \<Rightarrow> nat \<Rightarrow> 'a list \<Rightarrow> 'a list go" where
  "slice lo hi xs = (if lo \<le> hi \<and> hi \<le> length xs then Some (take (hi - lo) (drop lo xs)) else panic)"

text \<open>\<open>xs[i]\<close>; out of range it panics.\<close>

definition index_go :: "'a list \<Rightarrow> nat \<Rightarrow> 'a go" where
  "index_go xs i = (if i < length xs then Some (xs ! i) else panic)"

text \<open>\<open>copy(dst, src)\<close> overwrites as many elements as both hold.\<close>

definition copy_into :: "'a list \<Rightarrow> 'a list \<Rightarrow> 'a list" where
  "copy_into dst src = take (length dst) src @ drop (length src) dst"

lemma length_copy_into [simp]: "length (copy_into dst src) = length dst"
  by (simp add: copy_into_def)

lemma slice_Some_length: "slice lo hi xs = Some ys \<Longrightarrow> length ys = hi - lo"
  by (auto simp: slice_def split: if_splits)

lemma slice_full [simp]: "slice 0 (length xs) xs = Some xs"
  by (simp add: slice_def)

lemma slice_eq_Some:
  "slice lo hi xs = Some ys \<longleftrightarrow> lo \<le> hi \<and> hi \<le> length xs \<and> ys = take (hi - lo) (drop lo xs)"
  by (auto simp: slice_def)

section \<open>Big-endian and little-endian words\<close>

definition be32 :: "byte \<Rightarrow> byte \<Rightarrow> byte \<Rightarrow> byte \<Rightarrow> u32" where
  "be32 a b c d = push_bit 24 (ucast a) OR push_bit 16 (ucast b) OR push_bit 8 (ucast c) OR ucast d"

definition put_be32 :: "u32 \<Rightarrow> bytes" where
  "put_be32 v = [ucast (drop_bit 24 v), ucast (drop_bit 16 v), ucast (drop_bit 8 v), ucast v]"

definition put_le32 :: "u32 \<Rightarrow> bytes" where
  "put_le32 v = [ucast v, ucast (drop_bit 8 v), ucast (drop_bit 16 v), ucast (drop_bit 24 v)]"

definition put_be16 :: "u16 \<Rightarrow> bytes" where
  "put_be16 v = [ucast (drop_bit 8 v), ucast v]"

lemma not_bit_byte_high [simp]: "8 \<le> n \<Longrightarrow> \<not> bit (b :: byte) n"
  using bit_imp_le_length [of b n] by auto

lemma put_be32_be32: "put_be32 (be32 a b c d) = [a, b, c, d]"
  by (auto simp: put_be32_def be32_def intro!: bit_word_eqI
      simp: bit_simps dest: bit_imp_le_length)

lemma put_le32_be32: "put_le32 (be32 a b c d) = [d, c, b, a]"
  by (auto simp: put_le32_def be32_def intro!: bit_word_eqI
      simp: bit_simps dest: bit_imp_le_length)

definition be16 :: "byte \<Rightarrow> byte \<Rightarrow> u16" where
  "be16 a b = push_bit 8 (ucast a) OR ucast b"

lemma be16_put_be16: "be16 (ucast (drop_bit 8 x)) (ucast x) = (x :: u16)"
proof (rule bit_word_eqI)
  fix n assume "n < LENGTH(16)"
  then show "bit (be16 (ucast (drop_bit 8 x)) (ucast x)) n = bit x n"
    by (cases "n < 8") (auto simp: be16_def bit_simps not_less)
qed

lemma length_put_be16 [simp]: "length (put_be16 x) = 2"
  by (simp add: put_be16_def)

lemma put_be16_inj:
  assumes "put_be16 x = put_be16 y"
  shows "x = y"
proof -
  have "x = be16 (put_be16 x ! 0) (put_be16 x ! 1)" for x
    by (simp add: put_be16_def be16_put_be16)
  then show ?thesis using assms by metis
qed

end
