(* ===== verification/GoStrings.thy ===== *)
theory GoStrings
  imports Prelude
begin

text \<open>
  The part of Go's \<open>strings\<close>, \<open>strconv\<close> and \<open>encoding/hex\<close> packages that the
  program calls, on byte strings (a \<open>char\<close> is one byte).  \<open>Fields\<close> and
  \<open>EqualFold\<close> are the ASCII parts of the library functions: every string the
  program passes to them is ASCII text of \<open>/proc/net\<close> or hexadecimal output.
\<close>

lemmas char_eval = char_of_def bit_iff_odd \<comment> \<open>evaluates \<open>char_of\<close> on a numeral\<close>

section \<open>Searching and cutting\<close>

definition has_prefix :: "string \<Rightarrow> string \<Rightarrow> bool" where
  "has_prefix s p \<longleftrightarrow> take (length p) s = p"

definition has_suffix :: "string \<Rightarrow> string \<Rightarrow> bool" where
  "has_suffix s p \<longleftrightarrow> length p \<le> length s \<and> drop (length s - length p) s = p"

text \<open>\<open>strings.Index\<close> of a one-byte separator; \<open>None\<close> is the Go result -1.\<close>

fun index_byte :: "char \<Rightarrow> string \<Rightarrow> nat option" where
  "index_byte c [] = None"
| "index_byte c (x # xs) = (if x = c then Some 0 else map_option Suc (index_byte c xs))"

fun last_index_byte :: "char \<Rightarrow> string \<Rightarrow> nat option" where
  "last_index_byte c [] = None"
| "last_index_byte c (x # xs) =
     (case last_index_byte c xs of Some i \<Rightarrow> Some (Suc i)
      | None \<Rightarrow> if x = c then Some 0 else None)"

text \<open>\<open>strings.Cut\<close> at a one-byte separator.\<close>

definition cut_byte :: "char \<Rightarrow> string \<Rightarrow> string \<times> string \<times> bool" where
  "cut_byte c s = (case index_byte c s of None \<Rightarrow> (s, [], False)
     | Some i \<Rightarrow> (take i s, drop (Suc i) s, True))"

text \<open>\<open>strings.Split\<close> at a one-byte separator.\<close>

fun split_byte :: "char \<Rightarrow> string \<Rightarrow> string list" where
  "split_byte c [] = [[]]"
| "split_byte c (x # xs) =
     (if x = c then [] # split_byte c xs
      else case split_byte c xs of [] \<Rightarrow> [[x]] | w # ws \<Rightarrow> (x # w) # ws)"

lemma has_prefix_append [simp]: "has_prefix (p @ s) p"
  by (simp add: has_prefix_def)

text \<open>\<open>strings.Contains\<close>.\<close>

fun contains :: "string \<Rightarrow> string \<Rightarrow> bool" where
  "contains [] p \<longleftrightarrow> p = []"
| "contains (c # cs) p \<longleftrightarrow> has_prefix (c # cs) p \<or> contains cs p"

lemma has_prefix_iff: "has_prefix s p \<longleftrightarrow> (\<exists>b. s = p @ b)"
  unfolding has_prefix_def by (metis append_take_drop_id append_eq_conv_conj)

lemma contains_iff: "contains s p \<longleftrightarrow> (\<exists>a b. s = a @ p @ b)"
proof (induction s)
  case (Cons c s)
  then show ?case by (auto simp: has_prefix_iff Cons_eq_append_conv)
qed auto

lemma index_byte_None: "index_byte c s = None \<longleftrightarrow> c \<notin> set s"
  by (induction s) auto

lemma index_byte_append: "c \<notin> set a \<Longrightarrow> index_byte c (a @ c # b) = Some (length a)"
  by (induction a) auto

lemma cut_byte_append: "c \<notin> set a \<Longrightarrow> cut_byte c (a @ c # b) = (a, b, True)"
  by (simp add: cut_byte_def index_byte_append)

lemma cut_byte_none: "c \<notin> set s \<Longrightarrow> cut_byte c s = (s, [], False)"
  by (simp add: cut_byte_def index_byte_None [THEN iffD2])

lemma last_index_byte_None: "last_index_byte c s = None \<longleftrightarrow> c \<notin> set s"
  by (induction s) (auto split: option.splits)

lemma last_index_byte_append:
  "c \<notin> set b \<Longrightarrow> last_index_byte c (a @ c # b) = Some (length a)"
  by (induction a) (auto simp: last_index_byte_None [THEN iffD2])

section \<open>White-space fields\<close>

definition is_space :: "char \<Rightarrow> bool" where
  "is_space c \<longleftrightarrow> c \<in> {CHR '' '', CHR 0x09, CHR 0x0A, CHR 0x0B, CHR 0x0C, CHR 0x0D}"

text \<open>\<open>strings.Fields\<close>: the scan keeps the bytes of the current field in \<open>cur\<close>.\<close>

fun fields_from :: "string \<Rightarrow> string \<Rightarrow> string list" where
  "fields_from cur [] = (if cur = [] then [] else [cur])"
| "fields_from cur (c # cs) =
     (if is_space c then (if cur = [] then fields_from [] cs else cur # fields_from [] cs)
      else fields_from (cur @ [c]) cs)"

definition fields_of :: "string \<Rightarrow> string list" where
  "fields_of s = fields_from [] s"

definition word_like :: "string \<Rightarrow> bool" where
  "word_like w \<longleftrightarrow> w \<noteq> [] \<and> (\<forall>c \<in> set w. \<not> is_space c)"

lemma fields_from_word:
  "\<forall>c \<in> set w. \<not> is_space c \<Longrightarrow> fields_from cur (w @ s) = fields_from (cur @ w) s"
  by (induction w arbitrary: cur) auto

text \<open>Words joined by single spaces, with optional leading spaces, are cut back into the words.\<close>

fun join_spaces :: "string list \<Rightarrow> string" where
  "join_spaces [] = []"
| "join_spaces [w] = w"
| "join_spaces (w # ws) = w @ CHR '' '' # join_spaces ws"

lemma fields_from_join:
  "\<forall>w \<in> set ws. word_like w \<Longrightarrow> fields_from [] (join_spaces ws) = ws"
proof (induction ws rule: join_spaces.induct)
  case (2 w)
  then show ?case
    using fields_from_word [of w "[]" "[]"] by (simp add: word_like_def)
next
  case (3 w v vs)
  then show ?case
    by (simp add: fields_from_word word_like_def is_space_def)
qed simp

lemma fields_from_skip: "is_space c \<Longrightarrow> fields_from [] (c # s) = fields_from [] s"
  by simp

section \<open>Decimal numbers\<close>

definition is_digit :: "char \<Rightarrow> bool" where
  "is_digit c \<longleftrightarrow> 48 \<le> (of_char c :: nat) \<and> (of_char c :: nat) \<le> 57"

definition digit_val :: "char \<Rightarrow> nat" where
  "digit_val c = of_char c - 48"

definition digit_chr :: "nat \<Rightarrow> char" where
  "digit_chr n = char_of (48 + n)"

definition dec_val :: "string \<Rightarrow> nat" where
  "dec_val s = foldl (\<lambda>n c. 10 * n + digit_val c) 0 s"

datatype num_error = ErrSyntax | ErrRange

text \<open>
  \<open>strconv.Atoi\<close> and \<open>strconv.ParseUint(s, 10, 64)\<close> return a value \<^emph>\<open>and\<close> an
  error; the value that accompanies \<open>ErrRange\<close> is the clamped bound, the one
  that accompanies \<open>ErrSyntax\<close> is 0.
\<close>

definition atoi :: "string \<Rightarrow> int \<times> num_error option" where
  "atoi s =
     (let neg = has_prefix s ''-'';
          ds = (if neg \<or> has_prefix s ''+'' then tl s else s)
      in if ds = [] \<or> \<not> list_all is_digit ds then (0, Some ErrSyntax)
         else let v = (if neg then - int (dec_val ds) else int (dec_val ds))
         in if v < - (2 ^ 63) then (- (2 ^ 63), Some ErrRange)
            else if 2 ^ 63 \<le> v then (2 ^ 63 - 1, Some ErrRange)
            else (v, None))"

definition parse_uint64 :: "string \<Rightarrow> nat \<times> num_error option" where
  "parse_uint64 s =
     (if s = [] \<or> \<not> list_all is_digit s then (0, Some ErrSyntax)
      else if 2 ^ 64 \<le> dec_val s then (2 ^ 64 - 1, Some ErrRange)
      else (dec_val s, None))"

text \<open>\<open>strconv.Itoa\<close>.\<close>

fun itoa_nat :: "nat \<Rightarrow> string" where
  "itoa_nat n = (if n < 10 then [digit_chr n] else itoa_nat (n div 10) @ [digit_chr (n mod 10)])"

declare itoa_nat.simps [simp del]

definition itoa :: "int \<Rightarrow> string" where
  "itoa i = (if i < 0 then CHR ''-'' # itoa_nat (nat (- i)) else itoa_nat (nat i))"

lemma of_digit_chr: "n < 10 \<Longrightarrow> (of_char (digit_chr n) :: nat) = 48 + n"
  by (simp add: digit_chr_def)

lemma digit_chr_is_digit: "n < 10 \<Longrightarrow> is_digit (digit_chr n)"
  by (simp add: is_digit_def of_digit_chr)

lemma digit_val_chr: "n < 10 \<Longrightarrow> digit_val (digit_chr n) = n"
  by (simp add: digit_val_def of_digit_chr)

lemma dec_val_snoc: "dec_val (s @ [c]) = 10 * dec_val s + digit_val c"
  by (simp add: dec_val_def)

lemma itoa_nat_nonempty: "itoa_nat n \<noteq> []"
  by (subst itoa_nat.simps) simp

lemma itoa_nat_digits: "list_all is_digit (itoa_nat n)"
proof (induction n rule: itoa_nat.induct)
  case (1 n)
  then show ?case
    by (subst itoa_nat.simps) (simp add: digit_chr_is_digit)
qed

lemma dec_val_itoa_nat: "dec_val (itoa_nat n) = n"
proof (induction n rule: itoa_nat.induct)
  case (1 n)
  show ?case
  proof (cases "n < 10")
    case True
    then show ?thesis
      by (subst itoa_nat.simps) (simp add: dec_val_def digit_val_chr)
  next
    case False
    then show ?thesis
      using "1.IH" by (subst itoa_nat.simps) (simp add: dec_val_snoc digit_val_chr)
  qed
qed

lemma digit_not_sign: "is_digit c \<Longrightarrow> c \<noteq> CHR ''-'' \<and> c \<noteq> CHR ''+'' \<and> c \<noteq> CHR '':'' \<and> c \<noteq> CHR '']'' \<and> c \<noteq> CHR ''[''"
  by (auto simp: is_digit_def)

lemma digit_not_space: "is_digit c \<Longrightarrow> \<not> is_space c"
  by (auto simp: is_digit_def is_space_def)

lemma itoa_nat_no_sign: "\<not> has_prefix (itoa_nat n) ''-''" "\<not> has_prefix (itoa_nat n) ''+''"
proof -
  obtain c cs where "itoa_nat n = c # cs"
    using itoa_nat_nonempty by (cases "itoa_nat n") auto
  moreover have "is_digit c"
    using itoa_nat_digits [of n] calculation by simp
  ultimately show "\<not> has_prefix (itoa_nat n) ''-''" "\<not> has_prefix (itoa_nat n) ''+''"
    using digit_not_sign by (auto simp: has_prefix_def)
qed

text \<open>Parsing what \<open>Itoa\<close> printed gives the number back.\<close>

lemma atoi_itoa: "- (2 ^ 63) \<le> i \<Longrightarrow> i < 2 ^ 63 \<Longrightarrow> atoi (itoa i) = (i, None)"
  by (cases "i < 0")
     (simp_all add: itoa_def atoi_def Let_def itoa_nat_no_sign itoa_nat_nonempty itoa_nat_digits
        dec_val_itoa_nat has_prefix_def [of "_ # _"])

lemma parse_uint64_itoa: "n < 2 ^ 64 \<Longrightarrow> parse_uint64 (itoa_nat n) = (n, None)"
  by (simp add: parse_uint64_def itoa_nat_nonempty itoa_nat_digits dec_val_itoa_nat)

section \<open>Hosts and ports\<close>

text \<open>\<open>net.JoinHostPort\<close> and \<open>net.SplitHostPort\<close>, whose errors the program never tells apart.\<close>

definition join_host_port :: "string \<Rightarrow> string \<Rightarrow> string" where
  "join_host_port host port =
     (if CHR '':'' \<in> set host then CHR ''['' # host @ '']:'' @ port else host @ '':'' @ port)"

definition split_host_port :: "string \<Rightarrow> (string \<times> string) option" where
  "split_host_port hp =
     (case last_index_byte CHR '':'' hp of
        None \<Rightarrow> None
      | Some i \<Rightarrow>
          if has_prefix hp ''['' then
            (case index_byte CHR '']'' hp of
               None \<Rightarrow> None
             | Some e \<Rightarrow>
                 if Suc e \<noteq> i then None
                 else if CHR ''['' \<in> set (drop 1 hp) \<or> CHR '']'' \<in> set (drop (Suc e) hp) then None
                 else Some (take (e - 1) (drop 1 hp), drop (Suc i) hp))
          else if CHR '':'' \<in> set (take i hp) \<or> CHR ''['' \<in> set hp \<or> CHR '']'' \<in> set hp then None
          else Some (take i hp, drop (Suc i) hp))"

lemma itoa_no_colon: "CHR '':'' \<notin> set (itoa i)"
proof -
  have *: "CHR '':'' \<notin> set (itoa_nat n)" for n
    using itoa_nat_digits [of n] by (auto simp: list_all_iff is_digit_def char_eval)
  show ?thesis
    using * by (auto simp: itoa_def)
qed

section \<open>Hexadecimal text and case folding\<close>

definition hex_digits :: string where
  "hex_digits = ''0123456789abcdef''"

definition hex_byte :: "byte \<Rightarrow> string" where
  "hex_byte b = [hex_digits ! (unat b div 16), hex_digits ! (unat b mod 16)]"

text \<open>\<open>hex.EncodeToString\<close>.\<close>

definition hex_encode :: "bytes \<Rightarrow> string" where
  "hex_encode bs = concat (map hex_byte bs)"

definition lower :: "char \<Rightarrow> char" where
  "lower c = (if 65 \<le> (of_char c :: nat) \<and> (of_char c :: nat) \<le> 90 then char_of (of_char c + 32 :: nat) else c)"

text \<open>\<open>strings.EqualFold\<close>, on ASCII.\<close>

definition equal_fold :: "string \<Rightarrow> string \<Rightarrow> bool" where
  "equal_fold s t \<longleftrightarrow> map lower s = map lower t"

definition to_lower :: "string \<Rightarrow> string" where
  "to_lower s = map lower s"

lemma length_hex_encode [simp]: "length (hex_encode bs) = 2 * length bs"
  by (induction bs) (auto simp: hex_encode_def hex_byte_def)

lemma hex_digit_inj: "i < 16 \<Longrightarrow> j < 16 \<Longrightarrow> hex_digits ! i = hex_digits ! j \<Longrightarrow> i = j"
  by (rule nth_eq_iff_index_eq [THEN iffD1, of hex_digits]) (simp_all add: hex_digits_def)

lemma hex_byte_inj: "hex_byte a = hex_byte b \<Longrightarrow> a = b"
proof -
  assume "hex_byte a = hex_byte b"
  moreover have "unat a < 256" "unat b < 256"
    using unsigned_less [of a] unsigned_less [of b] by simp_all
  ultimately have "unat a div 16 = unat b div 16" "unat a mod 16 = unat b mod 16"
    by (auto simp: hex_byte_def intro: hex_digit_inj)
  then have "unat a = unat b"
    by (metis div_mult_mod_eq)
  then show "a = b"
    by (simp add: word_unat_eq_iff)
qed

lemma hex_encode_inj: "hex_encode as = hex_encode bs \<Longrightarrow> as = bs"
proof (induction as arbitrary: bs)
  case Nil
  then show ?case by (cases bs) (auto simp: hex_encode_def hex_byte_def)
next
  case (Cons a as)
  then obtain b bs' where bs: "bs = b # bs'"
    by (cases bs) (auto simp: hex_encode_def hex_byte_def)
  with Cons.prems have "hex_byte a = hex_byte b \<and> hex_encode as = hex_encode bs'"
    by (auto simp: hex_encode_def hex_byte_def)
  with Cons.IH bs hex_byte_inj show ?case by blast
qed

lemma hex_digit_lower: "i < 16 \<Longrightarrow> lower (hex_digits ! i) = hex_digits ! i"
proof -
  have "\<forall>c \<in> set hex_digits. lower c = c"
    by (simp add: hex_digits_def lower_def)
  moreover assume "i < 16"
  then have "hex_digits ! i \<in> set hex_digits"
    by (intro nth_mem) (simp add: hex_digits_def)
  ultimately show ?thesis by blast
qed

lemma lower_hex_encode: "map lower (hex_encode bs) = hex_encode bs"
proof (induction bs)
  case (Cons b bs)
  have "unat b < 256" using unsigned_less [of b] by simp
  with Cons show ?case
    by (simp add: hex_encode_def hex_byte_def hex_digit_lower)
qed (simp add: hex_encode_def)

end
