(* ===== verification/Net.thy ===== *)
theory Net
  imports Prelude
begin

text \<open>
  Network end points as the program sees them: \<open>net.Destination\<close> of v2ray-core is
  its three fields, and an address is what its interface answers (family, raw IP,
  domain, text).  \<open>IP()\<close> and \<open>Domain()\<close> are partial: on an address of the other
  kind they panic, so their answers are of type \<open>go\<close>.
\<close>

datatype network = Network_Unknown | Network_TCP | Network_UDP | Network_UNIX
datatype family = FamilyIPv4 | FamilyIPv6 | FamilyDomain

record address =
  addr_family :: family
  addr_ip :: "bytes go"
  addr_domain :: "string go"
  addr_string :: string

record destination =
  dst_address :: address
  dst_port :: u16
  dst_network :: network

text \<open>The constants of \<open>comm/ipv6.go\<close> and \<open>comm/tun.go\<close>.\<close>

definition IPv6Disable :: int where "IPv6Disable = 0"
definition IPv6Enable :: int where "IPv6Enable = 1"
definition IPv6Prefer :: int where "IPv6Prefer = 2"
definition IPv6Only :: int where "IPv6Only = 3"
definition TunImplementationGVisor :: int where "TunImplementationGVisor = 0"
definition TunImplementationSystem :: int where "TunImplementationSystem = 1"

lemmas comm_consts = IPv6Disable_def IPv6Enable_def IPv6Prefer_def IPv6Only_def
  TunImplementationGVisor_def TunImplementationSystem_def

end
