(* ===== verification/Procfs.thy ===== *)
theory Procfs
  imports GoStrings Net
begin

text \<open>
  \<open>procfs.go\<close>: the owner of a socket is looked up in the kernel's socket tables
  \<open>/proc/net/tcp[6]\<close> and \<open>/proc/net/udp[6]\<close>.  The column positions are read from the
  header of \<open>/proc/net/tcp\<close> once (\<open>init_columns\<close>); a query formats the address the
  way the kernel prints it and returns the uid of the first row that carries it.
\<close>

section \<open>State and start-up\<close>

datatype byte_order = BigEndian | LittleEndian

text \<open>The package variables \<open>netIndexOfLocal\<close> and \<open>netIndexOfUid\<close>, both -1 at first.\<close>

record procfs_cols =
  netIndexOfLocal :: int
  netIndexOfUid :: int

definition cols_unset :: procfs_cols where
  "cols_unset = \<lparr>netIndexOfLocal = -1, netIndexOfUid = -1\<rparr>"

record header_flags =
  txQueue :: bool
  rxQueue :: bool
  tr_seen :: bool
  tmWhen :: bool

text \<open>
  The last \<open>init\<close>: the order is read off the first byte in memory of
  \<open>0x01020304\<close>.
\<close>

definition native_endian :: "byte \<Rightarrow> byte_order" where
  "native_endian first_byte = (if first_byte = 0x01 then BigEndian else LittleEndian)"

text \<open>One iteration of the column loop: the offset is computed from the flags first.\<close>

definition scan_column :: "int \<Rightarrow> string \<Rightarrow> header_flags \<times> procfs_cols \<Rightarrow> header_flags \<times> procfs_cols" where
  "scan_column idx col st =
     (let (f, g) = st;
          offset = (0::int);
          offset = (if txQueue f \<and> rxQueue f then offset - 1 else offset);
          offset = (if tr_seen f \<and> tmWhen f then offset - 1 else offset)
      in if col = ''tx_queue'' then (f\<lparr>txQueue := True\<rparr>, g)
         else if col = ''rx_queue'' then (f\<lparr>rxQueue := True\<rparr>, g)
         else if col = ''tr'' then (f\<lparr>tr_seen := True\<rparr>, g)
         else if col = ''tm->when'' then (f\<lparr>tmWhen := True\<rparr>, g)
         else if col = ''local_address'' then (f, g\<lparr>netIndexOfLocal := idx + offset\<rparr>)
         else if col = ''uid'' then (f, g\<lparr>netIndexOfUid := idx + offset\<rparr>)
         else (f, g))"

fun scan_columns :: "int \<Rightarrow> string list \<Rightarrow> header_flags \<times> procfs_cols \<Rightarrow> procfs_cols" where
  "scan_columns idx [] st = snd st"
| "scan_columns idx (col # cols) st = scan_columns (idx + 1) cols (scan_column idx col st)"

definition no_flags :: header_flags where
  "no_flags = \<lparr>txQueue = False, rxQueue = False, tr_seen = False, tmWhen = False\<rparr>"

section \<open>Reading lines\<close>

text \<open>
  \<open>bufio.Reader.ReadLine\<close> with the default buffer of 4096 bytes: a longer line comes
  back in pieces (its \<open>isPrefix\<close> result, which the program drops), a carriage return
  that would be split from its line feed is put back, and \<open>None\<close> is \<open>io.EOF\<close>.
\<close>

definition strip_cr :: "string \<Rightarrow> string" where
  "strip_cr s = (if s \<noteq> [] \<and> last s = CHR 0x0D then butlast s else s)"

definition read_line :: "string \<Rightarrow> (string \<times> string) option" where
  "read_line s =
     (if s = [] then None
      else case index_byte CHR 0x0A (take 4096 s) of
        Some i \<Rightarrow> Some (strip_cr (take i s), drop (Suc i) s)
      | None \<Rightarrow>
          if 4096 \<le> length s
          then (if s ! 4095 = CHR 0x0D then Some (take 4095 s, drop 4095 s)
                else Some (take 4096 s, drop 4096 s))
          else Some (s, []))"

lemma read_line_shorter: "read_line s = Some (l, r) \<Longrightarrow> length r < length s"
  by (auto simp: read_line_def split: if_splits option.splits)

text \<open>The first \<open>init\<close>: no file or an empty file leaves the positions unset.\<close>

definition init_columns :: "(string \<rightharpoonup> string) \<Rightarrow> procfs_cols" where
  "init_columns fs =
     (case fs ''/proc/net/tcp'' of
        None \<Rightarrow> cols_unset
      | Some content \<Rightarrow>
          (case read_line content of
             None \<Rightarrow> cols_unset
           | Some (header, _) \<Rightarrow> scan_columns 0 (fields_of header) (no_flags, cols_unset)))"

section \<open>The query\<close>

text \<open>
  \<open>nativeEndianIP\<close>: a trailing group of fewer than four bytes makes
  \<open>binary.BigEndian.Uint32\<close> panic.
\<close>

fun nativeEndianIP :: "byte_order \<Rightarrow> bytes \<Rightarrow> bytes go" where
  "nativeEndianIP ord [] = Some []"
| "nativeEndianIP ord (a # b # c # d # rest) =
     do { let value = be32 a b c d;
          tail \<leftarrow> nativeEndianIP ord rest;
          Some ((case ord of BigEndian \<Rightarrow> put_be32 value | LittleEndian \<Rightarrow> put_le32 value) @ tail) }"
| "nativeEndianIP ord _ = panic"

text \<open>The row loop of \<open>querySocketUidFromProcFs\<close>, on what is left of the file.\<close>

function query_loop :: "procfs_cols \<Rightarrow> string \<Rightarrow> string \<Rightarrow> int" where
  "query_loop g local content =
     (case read_line content of
        None \<Rightarrow> -1
      | Some (row, rest) \<Rightarrow>
          (let fields = fields_of row in
           if int (length fields) \<le> netIndexOfLocal g \<or> int (length fields) \<le> netIndexOfUid g
           then query_loop g local rest
           else if equal_fold local (fields ! nat (netIndexOfLocal g))
           then (case atoi (fields ! nat (netIndexOfUid g)) of
                   (uid, None) \<Rightarrow> int32_of uid
                 | (_, Some _) \<Rightarrow> -1)
           else query_loop g local rest))"
  by pat_completeness auto
termination
  by (relation "measure (\<lambda>(g, local, content). length content)") (auto dest: read_line_shorter)

declare query_loop.simps [simp del]

definition proc_path :: "destination \<Rightarrow> string" where
  "proc_path source =
     ''/proc/net/'' @ (if dst_network source = Network_TCP then ''tcp'' else ''udp'')
       @ (if addr_family (dst_address source) = FamilyIPv6 then ''6'' else [])"

definition querySocketUidFromProcFs ::
    "byte_order \<Rightarrow> procfs_cols \<Rightarrow> (string \<rightharpoonup> string) \<Rightarrow> destination \<Rightarrow> int go" where
  "querySocketUidFromProcFs ord g fs source =
     (if netIndexOfLocal g < 0 \<or> netIndexOfUid g < 0 then Some (-1)
      else do {
        sIP \<leftarrow> addr_ip (dst_address source);
        if sIP = [] then Some (-1)
        else do {
          nip \<leftarrow> nativeEndianIP ord sIP;
          let local = hex_encode nip @ '':'' @ hex_encode (put_be16 (dst_port source));
          case fs (proc_path source) of
            None \<Rightarrow> Some (-1)
          | Some content \<Rightarrow> Some (query_loop g local content)
        }
      })"

section \<open>Column positions\<close>

text \<open>
  The kernel prints the two queue columns as one field of a row and the two timer
  columns as another.  \<open>scan_state\<close> is the column loop with its flags;
  \<open>scan_inv\<close> ties it to the fields \<open>R\<close> a row has so far.
\<close>

fun scan_state :: "int \<Rightarrow> string list \<Rightarrow> header_flags \<times> procfs_cols \<Rightarrow> header_flags \<times> procfs_cols" where
  "scan_state idx [] st = st"
| "scan_state idx (c # cs) st = scan_state (idx + 1) cs (scan_column idx c st)"

lemma scan_columns_state: "scan_columns idx cs st = snd (scan_state idx cs st)"
  by (induction cs arbitrary: idx st) auto

lemma scan_state_append:
  "scan_state idx (xs @ ys) st = scan_state (idx + int (length xs)) ys (scan_state idx xs st)"
  by (induction xs arbitrary: idx st) (auto simp: algebra_simps)

definition plain_columns :: "string list \<Rightarrow> bool" where
  "plain_columns xs \<longleftrightarrow> set xs \<inter> {''tx_queue'', ''rx_queue'', ''tr'', ''tm->when''} = {}"

definition points_at :: "int \<Rightarrow> string \<Rightarrow> string list \<Rightarrow> bool" where
  "points_at i name R \<longleftrightarrow>
     (if name \<in> set R then 0 \<le> i \<and> nat i < length R \<and> R ! nat i = name else i = -1)"

definition flags_offset :: "header_flags \<Rightarrow> int" where
  "flags_offset f = (if txQueue f \<and> rxQueue f then -1 else 0) + (if tr_seen f \<and> tmWhen f then -1 else 0)"

definition scan_inv :: "int \<Rightarrow> header_flags \<times> procfs_cols \<Rightarrow> string list \<Rightarrow> bool" where
  "scan_inv idx st R \<longleftrightarrow> idx + flags_offset (fst st) = int (length R) \<and>
     points_at (netIndexOfLocal (snd st)) ''local_address'' R \<and>
     points_at (netIndexOfUid (snd st)) ''uid'' R"

lemma points_at_other: "name \<noteq> c \<Longrightarrow> points_at i name R \<Longrightarrow> points_at i name (R @ [c])"
  by (auto simp: points_at_def nth_append)

lemma points_at_new: "points_at (int (length R)) name (R @ [name])"
  by (simp add: points_at_def)

lemma scan_column_plain:
  assumes "plain_columns [c]"
  shows "scan_column idx c (f, g) =
     (f, if c = ''local_address'' then g\<lparr>netIndexOfLocal := idx + flags_offset f\<rparr>
         else if c = ''uid'' then g\<lparr>netIndexOfUid := idx + flags_offset f\<rparr> else g)"
proof -
  have "c \<noteq> ''tx_queue''" "c \<noteq> ''rx_queue''" "c \<noteq> ''tr''" "c \<noteq> ''tm->when''"
    using assms by (auto simp: plain_columns_def)
  then show ?thesis
    by (simp add: scan_column_def Let_def flags_offset_def del: list.inject)
qed

lemma scan_inv_column:
  assumes "scan_inv idx (f, g) R" and "plain_columns [c]"
  shows "scan_inv (idx + 1) (scan_column idx c (f, g)) (R @ [c])"
    and "fst (scan_column idx c (f, g)) = f"
proof -
  have pos: "idx + flags_offset f = int (length R)"
    and l: "points_at (netIndexOfLocal g) ''local_address'' R"
    and u: "points_at (netIndexOfUid g) ''uid'' R"
    using assms(1) by (simp_all add: scan_inv_def)
  consider "c = ''local_address''" | "c = ''uid''" | "c \<noteq> ''local_address''" "c \<noteq> ''uid''"
    by blast
  then show "scan_inv (idx + 1) (scan_column idx c (f, g)) (R @ [c])"
  proof cases
    case 1
    have "points_at (netIndexOfUid g) ''uid'' (R @ [c])"
      using points_at_other [OF _ u] 1 by simp
    with 1 pos points_at_new [of R c] show ?thesis
      using scan_column_plain [OF assms(2), of idx f g] by (simp add: scan_inv_def)
  next
    case 2
    have "points_at (netIndexOfLocal g) ''local_address'' (R @ [c])"
      using points_at_other [OF _ l] 2 by simp
    with 2 pos points_at_new [of R c] show ?thesis
      using scan_column_plain [OF assms(2), of idx f g] by (simp add: scan_inv_def)
  next
    case 3
    then have "points_at (netIndexOfLocal g) ''local_address'' (R @ [c])"
      and "points_at (netIndexOfUid g) ''uid'' (R @ [c])"
      using points_at_other [OF _ l, of c] points_at_other [OF _ u, of c] by (metis, metis)
    with 3 pos show ?thesis
      by (simp add: scan_column_plain [OF assms(2)] scan_inv_def del: list.inject)
  qed
  show "fst (scan_column idx c (f, g)) = f"
    by (simp add: scan_column_plain [OF assms(2)])
qed

lemma scan_inv_plain:
  "scan_inv idx (f, g) R \<Longrightarrow> plain_columns xs \<Longrightarrow>
   \<exists>g'. scan_state idx xs (f, g) = (f, g') \<and> scan_inv (idx + int (length xs)) (f, g') (R @ xs)"
proof (induction xs arbitrary: idx g R)
  case (Cons x xs)
  have x: "plain_columns [x]" and xs: "plain_columns xs"
    using Cons.prems(2) by (auto simp: plain_columns_def)
  obtain g1 where g1: "scan_column idx x (f, g) = (f, g1)"
    using scan_inv_column(2) [OF Cons.prems(1) x] by (metis prod.collapse)
  have "scan_inv (idx + 1) (f, g1) (R @ [x])"
    using scan_inv_column(1) [OF Cons.prems(1) x] g1 by simp
  from Cons.IH [OF this xs] g1 show ?case
    by (auto simp: algebra_simps)
qed simp

lemma scan_inv_pair:
  assumes "scan_inv idx (f, g) R" "flags_offset f' = flags_offset f - 1" "c \<noteq> ''local_address''" "c \<noteq> ''uid''"
  shows "scan_inv (idx + 2) (f', g) (R @ [c])"
  using assms points_at_other [OF assms(3) [symmetric]] points_at_other [OF assms(4) [symmetric]]
  by (simp add: scan_inv_def)

lemma scan_queues:
  "scan_state idx [''tx_queue'', ''rx_queue''] (f, g) = (f\<lparr>txQueue := True, rxQueue := True\<rparr>, g)"
  by (simp add: scan_column_def Let_def)

lemma scan_timers:
  "scan_state idx [''tr'', ''tm->when''] (f, g) = (f\<lparr>tr_seen := True, tmWhen := True\<rparr>, g)"
  by (simp add: scan_column_def Let_def)

lemma flags_offset_steps:
  "flags_offset (no_flags\<lparr>txQueue := True, rxQueue := True\<rparr>) = flags_offset no_flags - 1"
  "flags_offset (no_flags\<lparr>txQueue := True, rxQueue := True\<rparr>\<lparr>tr_seen := True, tmWhen := True\<rparr>)
     = flags_offset (no_flags\<lparr>txQueue := True, rxQueue := True\<rparr>) - 1"
  by (simp_all add: flags_offset_def no_flags_def)

lemma scan_columns_inv:
  assumes "plain_columns A" "plain_columns B" "plain_columns C"
  shows "\<exists>idx f. scan_inv idx
     (f, scan_columns 0 (A @ [''tx_queue'', ''rx_queue''] @ B @ [''tr'', ''tm->when''] @ C) (no_flags, cols_unset))
     (A @ [''tx_queue:rx_queue''] @ B @ [''tr:tm->when''] @ C)"
proof -
  let ?f2 = "no_flags\<lparr>txQueue := True, rxQueue := True\<rparr>"
  let ?f4 = "?f2\<lparr>tr_seen := True, tmWhen := True\<rparr>"
  define i1 i2 i3 i4 where "i1 = int (length A)" and "i2 = i1 + 2"
    and "i3 = i2 + int (length B)" and "i4 = i3 + 2"
  have "scan_inv 0 (no_flags, cols_unset) []"
    by (simp add: scan_inv_def flags_offset_def no_flags_def cols_unset_def points_at_def)
  from scan_inv_plain [OF this assms(1)] obtain g1 where
    1: "scan_state 0 A (no_flags, cols_unset) = (no_flags, g1)" and q1: "scan_inv i1 (no_flags, g1) A"
    by (auto simp: i1_def)
  have "scan_inv i2 (?f2, g1) (A @ [''tx_queue:rx_queue''])"
    unfolding i2_def by (rule scan_inv_pair [OF q1]) (simp_all only: flags_offset_steps, simp_all)
  from scan_inv_plain [OF this assms(2)] obtain g3 where
    3: "scan_state i2 B (?f2, g1) = (?f2, g3)"
    and q3: "scan_inv i3 (?f2, g3) ((A @ [''tx_queue:rx_queue'']) @ B)"
    by (auto simp: i3_def)
  have "scan_inv i4 (?f4, g3) (((A @ [''tx_queue:rx_queue'']) @ B) @ [''tr:tm->when''])"
    unfolding i4_def by (rule scan_inv_pair [OF q3]) (simp_all only: flags_offset_steps, simp_all)
  from scan_inv_plain [OF this assms(3)] obtain g5 where
    5: "scan_state i4 C (?f4, g3) = (?f4, g5)"
    and i5: "scan_inv (i4 + int (length C)) (?f4, g5)
      ((((A @ [''tx_queue:rx_queue'']) @ B) @ [''tr:tm->when'']) @ C)"
    by auto
  have "scan_state 0 (A @ [''tx_queue'', ''rx_queue''] @ B @ [''tr'', ''tm->when''] @ C) (no_flags, cols_unset)
      = scan_state i4 C (scan_state i3 [''tr'', ''tm->when'']
          (scan_state i2 B (scan_state i1 [''tx_queue'', ''rx_queue''] (scan_state 0 A (no_flags, cols_unset)))))"
    unfolding scan_state_append [of 0 A] scan_state_append [of _ "[''tx_queue'', ''rx_queue'']"]
      scan_state_append [of _ B] scan_state_append [of _ "[''tr'', ''tm->when'']"]
    by (simp only: i1_def i2_def i3_def i4_def list.size) simp
  also have "\<dots> = (?f4, g5)"
    by (simp only: 1 scan_queues 3 scan_timers 5)
  finally show ?thesis
    using i5 by (auto simp only: scan_columns_state snd_conv append_assoc)
qed

section \<open>What the kernel prints\<close>

text \<open>
  A row of a socket table, field by field.  The local address is printed as the
  32-bit words of the address in native order, in upper-case hexadecimal, a colon and
  the port; the uid is decimal.
\<close>

record sock_entry =
  se_slot :: string
  se_ip :: bytes
  se_port :: u16
  se_middle :: "string list"
  se_uid :: nat
  se_rest :: "string list"

fun kernel_words :: "byte_order \<Rightarrow> bytes \<Rightarrow> bytes" where
  "kernel_words ord (a # b # c # d # rest) =
     (if ord = BigEndian then [a, b, c, d] else [d, c, b, a]) @ kernel_words ord rest"
| "kernel_words ord bs = []"

definition upper :: "char \<Rightarrow> char" where
  "upper c = (if 97 \<le> (of_char c :: nat) \<and> (of_char c :: nat) \<le> 122 then char_of (of_char c - 32 :: nat) else c)"

definition kernel_local :: "byte_order \<Rightarrow> bytes \<Rightarrow> u16 \<Rightarrow> string" where
  "kernel_local ord ip port =
     map upper (hex_encode (kernel_words ord ip) @ '':'' @ hex_encode (put_be16 port))"

definition kernel_fields :: "byte_order \<Rightarrow> sock_entry \<Rightarrow> string list" where
  "kernel_fields ord e =
     [se_slot e, kernel_local ord (se_ip e) (se_port e)] @ se_middle e @ [itoa_nat (se_uid e)] @ se_rest e"

definition kernel_row :: "byte_order \<Rightarrow> sock_entry \<Rightarrow> string" where
  "kernel_row ord e = join_spaces (kernel_fields ord e)"

definition kernel_header :: string where
  "kernel_header = ''  sl  local_address rem_address   st tx_queue rx_queue tr tm->when retrnsmt   uid  timeout inode''"

fun kernel_table :: "byte_order \<Rightarrow> sock_entry list \<Rightarrow> string" where
  "kernel_table ord [] = []"
| "kernel_table ord (e # es) = kernel_row ord e @ CHR 0x0A # kernel_table ord es"

text \<open>A row of the shape the kernel prints: five fields between address and uid.\<close>

definition good_entry :: "byte_order \<Rightarrow> nat \<Rightarrow> sock_entry \<Rightarrow> bool" where
  "good_entry ord n e \<longleftrightarrow> length (se_ip e) = n \<and> length (se_middle e) = 5 \<and> se_uid e < 2 ^ 31 \<and>
     list_all word_like (se_slot e # se_middle e @ se_rest e) \<and> length (kernel_row ord e) < 4096"

lemma dvd4_Suc: "4 dvd Suc (Suc (Suc (Suc n))) \<longleftrightarrow> 4 dvd n"
  by presburger

lemma nativeEndianIP_kernel:
  "4 dvd length ip \<Longrightarrow> nativeEndianIP ord ip = Some (kernel_words ord ip)"
proof (induction ord ip rule: nativeEndianIP.induct)
  case (2 ord a b c d rest)
  then show ?case
    by (cases ord) (simp_all add: put_be32_be32 put_le32_be32 dvd4_Suc)
qed (auto dest: dvd_imp_le)

lemma nativeEndianIP_panics: "nativeEndianIP ord ip = panic \<longleftrightarrow> \<not> 4 dvd length ip"
proof (induction ord ip rule: nativeEndianIP.induct)
  case (2 ord a b c d rest)
  then show ?case
    by (cases "nativeEndianIP ord rest") (simp_all add: dvd4_Suc Let_def)
qed (auto dest: dvd_imp_le)

lemma length_kernel_words: "4 dvd length ip \<Longrightarrow> length (kernel_words ord ip) = length ip"
  by (induction ord ip rule: kernel_words.induct) (auto simp: dvd4_Suc dest: dvd_imp_le)

lemma kernel_words_inj:
  "4 dvd length ip \<Longrightarrow> length ip = length jp \<Longrightarrow> kernel_words ord ip = kernel_words ord jp \<Longrightarrow> ip = jp"
proof (induction ord ip arbitrary: jp rule: kernel_words.induct)
  case (1 ord a b c d rest)
  then obtain a' b' c' d' rest' where "jp = a' # b' # c' # d' # rest'"
    by (auto simp: length_Suc_conv Suc_length_conv)
  with 1 show ?case by (auto simp: dvd4_Suc split: if_splits)
qed (auto dest: dvd_imp_le)

lemma hex_colon_chars:
  "list_all (\<lambda>c. lower (upper c) = c \<and> \<not> is_space (upper c)) (hex_digits @ '':'')"
  by (simp add: hex_digits_def lower_def upper_def is_space_def char_eval)

lemma hex_colon_char:
  assumes "c \<in> set hex_digits \<union> {CHR '':''}"
  shows "lower (upper c) = c \<and> \<not> is_space (upper c)"
proof -
  have "\<forall>c \<in> set (hex_digits @ '':''). lower (upper c) = c \<and> \<not> is_space (upper c)"
    using hex_colon_chars unfolding list_all_iff .
  moreover have "c \<in> set (hex_digits @ '':'')"
    using assms by simp
  ultimately show ?thesis by (rule bspec)
qed

lemma set_hex_encode: "set (hex_encode bs) \<subseteq> set hex_digits"
proof (induction bs)
  case (Cons b bs)
  have "unat b < 256" using unsigned_less [of b] by simp
  then have "unat b div 16 < length hex_digits" "unat b mod 16 < length hex_digits"
    by (simp_all add: hex_digits_def)
  with Cons show ?case
    by (simp add: hex_encode_def hex_byte_def)
qed (simp add: hex_encode_def)

lemma lower_upper_local:
  "map lower (map upper (hex_encode as @ '':'' @ hex_encode bs)) = hex_encode as @ '':'' @ hex_encode bs"
proof -
  have "lower (upper c) = c" if "c \<in> set (hex_encode as @ '':'' @ hex_encode bs)" for c
    using that set_hex_encode [of as] set_hex_encode [of bs] hex_colon_char [of c] by auto
  then show ?thesis
    by (simp only: map_map o_def) (rule map_idI)
qed

lemma equal_fold_local:
  assumes "4 dvd length ip" "length ip' = length ip"
  shows "equal_fold (hex_encode (kernel_words ord ip) @ '':'' @ hex_encode (put_be16 port))
      (kernel_local ord ip' port') \<longleftrightarrow> ip' = ip \<and> port' = port"
proof -
  have "map lower (hex_encode (kernel_words ord ip) @ '':'' @ hex_encode (put_be16 port))
      = hex_encode (kernel_words ord ip) @ '':'' @ hex_encode (put_be16 port)"
    by (simp add: lower_hex_encode lower_def)
  moreover have "length (kernel_words ord ip') = length (kernel_words ord ip)"
    using assms by (simp add: length_kernel_words)
  ultimately have "equal_fold (hex_encode (kernel_words ord ip) @ '':'' @ hex_encode (put_be16 port))
      (kernel_local ord ip' port') \<longleftrightarrow>
      hex_encode (kernel_words ord ip) = hex_encode (kernel_words ord ip') \<and>
      hex_encode (put_be16 port) = hex_encode (put_be16 port')"
    unfolding equal_fold_def kernel_local_def lower_upper_local by simp
  also have "\<dots> \<longleftrightarrow> ip' = ip \<and> port' = port"
    using kernel_words_inj [of ip ip' ord] assms hex_encode_inj put_be16_inj by metis
  finally show ?thesis .
qed

lemma kernel_local_word: "word_like (kernel_local ord ip port)"
proof -
  have "\<forall>c \<in> set (hex_encode (kernel_words ord ip) @ '':'' @ hex_encode (put_be16 port)). \<not> is_space (upper c)"
    using set_hex_encode [of "kernel_words ord ip"] set_hex_encode [of "put_be16 port"] hex_colon_char
    by auto
  then show ?thesis
    by (auto simp: word_like_def kernel_local_def)
qed

lemma word_like_itoa: "word_like (itoa_nat n)"
  using itoa_nat_digits [of n] itoa_nat_nonempty [of n] digit_not_space
  by (auto simp: word_like_def list_all_iff)

lemma kernel_fields_words: "good_entry ord n e \<Longrightarrow> \<forall>w \<in> set (kernel_fields ord e). word_like w"
  by (auto simp: good_entry_def kernel_fields_def kernel_local_word word_like_itoa list_all_iff)

lemma join_spaces_chars: "\<forall>w \<in> set ws. word_like w \<Longrightarrow> c \<in> set (join_spaces ws) \<Longrightarrow> is_space c \<Longrightarrow> c = CHR '' ''"
  by (induction ws rule: join_spaces.induct) (auto simp: word_like_def)

lemma read_line_row:
  assumes "\<forall>c \<in> set row. is_space c \<longrightarrow> c = CHR '' ''" "length row < 4096"
  shows "read_line (row @ CHR 0x0A # rest) = Some (row, rest)"
proof -
  have nl: "CHR 0x0A \<notin> set row" and cr: "CHR 0x0D \<notin> set row"
    using assms(1) by (auto simp: is_space_def)
  obtain k where k: "4096 - length row = Suc k"
    using assms(2) by (cases "4096 - length row") auto
  have "index_byte CHR 0x0A (take 4096 (row @ CHR 0x0A # rest)) = Some (length row)"
    using index_byte_append [OF nl] k assms(2) by simp
  moreover have "strip_cr row = row"
    using cr by (auto simp: strip_cr_def) (metis last_in_set)
  ultimately show ?thesis
    by (simp add: read_line_def)
qed

lemma read_line_kernel_row:
  "good_entry ord n e \<Longrightarrow> read_line (kernel_row ord e @ CHR 0x0A # rest) = Some (kernel_row ord e, rest)"
  using join_spaces_chars [OF kernel_fields_words]
  by (intro read_line_row) (auto simp: kernel_row_def good_entry_def)

lemma fields_kernel_row: "good_entry ord n e \<Longrightarrow> fields_of (kernel_row ord e) = kernel_fields ord e"
  using fields_from_join [OF kernel_fields_words] by (simp add: fields_of_def kernel_row_def)

definition kernel_cols :: procfs_cols where
  "kernel_cols = \<lparr>netIndexOfLocal = 1, netIndexOfUid = 7\<rparr>"

lemma kernel_fields_nth:
  assumes "good_entry ord n e"
  shows "kernel_fields ord e ! 1 = kernel_local ord (se_ip e) (se_port e)"
    and "kernel_fields ord e ! 7 = itoa_nat (se_uid e)" and "7 < length (kernel_fields ord e)"
  using assms by (auto simp: kernel_fields_def good_entry_def nth_append nth_Cons')

lemma query_loop_table:
  assumes "list_all (good_entry ord (length ip)) es" "4 dvd length ip"
  shows "query_loop kernel_cols (hex_encode (kernel_words ord ip) @ '':'' @ hex_encode (put_be16 port)) (kernel_table ord es)
     = (case find (\<lambda>e. se_ip e = ip \<and> se_port e = port) es of None \<Rightarrow> -1 | Some e \<Rightarrow> int (se_uid e))"
  using assms(1)
proof (induction es)
  case Nil
  show ?case by (simp add: query_loop.simps read_line_def)
next
  case (Cons e es)
  then have e: "good_entry ord (length ip) e" by simp
  have len: "length (se_ip e) = length ip" using e by (simp add: good_entry_def)
  have uid: "atoi (itoa_nat (se_uid e)) = (int (se_uid e), None)" "int32_of (int (se_uid e)) = int (se_uid e)"
    using e atoi_itoa [of "int (se_uid e)"] int32_of_id [of "int (se_uid e)"]
    by (simp_all add: itoa_def good_entry_def)
  show ?case
    using Cons.IH Cons.prems kernel_fields_nth [OF e] equal_fold_local [OF assms(2) len] uid
    by (subst query_loop.simps)
       (simp add: read_line_kernel_row [OF e] fields_kernel_row [OF e] kernel_cols_def Let_def)
qed

lemma fields_kernel_header:
  "fields_of kernel_header = [''sl'', ''local_address'', ''rem_address'', ''st'', ''tx_queue'', ''rx_queue'',
     ''tr'', ''tm->when'', ''retrnsmt'', ''uid'', ''timeout'', ''inode'']"
  by (simp add: fields_of_def kernel_header_def is_space_def)

lemma read_line_kernel_header:
  "read_line (kernel_header @ CHR 0x0A # rest) = Some (kernel_header, rest)"
  by (rule read_line_row) (simp_all add: kernel_header_def is_space_def)

lemma init_columns_kernel:
  "fs ''/proc/net/tcp'' = Some (kernel_header @ CHR 0x0A # rest) \<Longrightarrow> init_columns fs = kernel_cols"
  by (simp add: init_columns_def read_line_kernel_header fields_kernel_header scan_column_def Let_def
      no_flags_def cols_unset_def kernel_cols_def)

lemma header_no_match:
  assumes "bs \<noteq> []"
  shows "\<not> equal_fold (hex_encode bs @ rest) ''local_address''"
proof -
  obtain b bs' where "bs = b # bs'" using assms by (cases bs) auto
  then obtain c cs where c: "hex_encode bs = c # cs" "c \<in> set hex_digits"
    using set_hex_encode [of bs] by (auto simp: hex_encode_def hex_byte_def)
  have "\<forall>c \<in> set hex_digits. lower c \<noteq> lower CHR ''l''"
    by (simp add: hex_digits_def lower_def)
  with c show ?thesis by (simp add: equal_fold_def)
qed

lemma query_loop_header:
  "bs \<noteq> [] \<Longrightarrow> query_loop kernel_cols (hex_encode bs @ r) (kernel_header @ CHR 0x0A # rest)
     = query_loop kernel_cols (hex_encode bs @ r) rest"
  using header_no_match [of bs r]
  by (subst query_loop.simps)
     (simp add: read_line_kernel_header fields_kernel_header kernel_cols_def Let_def)

section \<open>Properties\<close>

text \<open>
  C40.  The start-up loop finds the columns of a \<^emph>\<open>row\<close>, not of the header: for every
  header in which the two queue columns and the two timer columns stand side by side,
  the recorded positions are those of \<open>local_address\<close> and \<open>uid\<close> in the row layout,
  where each of the two pairs is one field; a column that is missing stays at -1.
\<close>

theorem scan_columns_row_positions:
  assumes "plain_columns A" "plain_columns B" "plain_columns C"
    and "R = A @ [''tx_queue:rx_queue''] @ B @ [''tr:tm->when''] @ C"
    and "g = scan_columns 0 (A @ [''tx_queue'', ''rx_queue''] @ B @ [''tr'', ''tm->when''] @ C) (no_flags, cols_unset)"
  shows "points_at (netIndexOfLocal g) ''local_address'' R \<and> points_at (netIndexOfUid g) ''uid'' R"
  using scan_columns_inv [OF assms(1-3)] assms(4,5) by (auto simp: scan_inv_def)

theorem scan_columns_row_positions_witness:
  "points_at (netIndexOfLocal (scan_columns 0 ([''sl'', ''local_address''] @ [''tx_queue'', ''rx_queue''] @ []
      @ [''tr'', ''tm->when''] @ [''retrnsmt'', ''uid'']) (no_flags, cols_unset))) ''local_address''
     ([''sl'', ''local_address''] @ [''tx_queue:rx_queue''] @ [] @ [''tr:tm->when''] @ [''retrnsmt'', ''uid''])"
  by (rule scan_columns_row_positions [THEN conjunct1, OF _ _ _ refl refl]) (simp_all add: plain_columns_def)



text \<open>
  The only panics of a query are the address without an IP and the IP whose
  length is not a multiple of four; in particular an IPv4 or IPv6 source never
  panics, whatever the tables hold.
\<close>

theorem querySocketUid_panics_iff:
  "querySocketUidFromProcFs ord g fs source = panic \<longleftrightarrow>
     0 \<le> netIndexOfLocal g \<and> 0 \<le> netIndexOfUid g \<and>
     (case addr_ip (dst_address source) of None \<Rightarrow> True | Some ip \<Rightarrow> \<not> 4 dvd length ip)"
proof (cases "addr_ip (dst_address source)")
  case (Some ip)
  then show ?thesis
    using nativeEndianIP_panics [of ord ip]
    by (cases "nativeEndianIP ord ip") (auto simp: querySocketUidFromProcFs_def Let_def split: option.splits)
qed (simp add: querySocketUidFromProcFs_def not_less)

end
