(* ===== verification/Stun.thy ===== *)
theory Stun
  imports GoStrings
begin

text \<open>
  \<open>stun/stun.go\<close> and \<open>stun/socks.go\<close>: NAT behaviour discovery (RFC 5780).  The
  decision procedures \<open>mappingTests\<close> and \<open>filteringTests\<close> run against a network that is
  an arbitrary function of the requests sent so far, so every pattern of answers,
  time-outs and errors is covered.  STUN messages belong to the pion library; the code
  sees of a message only what its attribute getters answer, as text.
\<close>

section \<open>Constants, errors, messages\<close>

datatype nat_behaviour =
    NoResult | EndpointIndependentNoNAT | EndpointIndependent | AddressDependent | AddressAndPortDependent

text \<open>The \<open>iota\<close> numbering, which \<open>StunResult\<close> hands to the application.\<close>

fun behaviour_code :: "nat_behaviour \<Rightarrow> int" where
  "behaviour_code NoResult = 0"
| "behaviour_code EndpointIndependentNoNAT = 1"
| "behaviour_code EndpointIndependent = 2"
| "behaviour_code AddressDependent = 3"
| "behaviour_code AddressAndPortDependent = 4"

datatype stun_error = ErrWrite | ErrResponseMessage | ErrTimedOut | ErrNoOtherAddress | ErrResolve | ErrConnect

text \<open>A UDP end point; \<open>addr_text\<close> is its \<open>String()\<close>, \<open>net.JoinHostPort\<close>.\<close>

record udp_addr =
  ua_host :: string
  ua_port :: int

definition addr_text :: "udp_addr \<Rightarrow> string" where
  "addr_text a = join_host_port (ua_host a) (itoa (ua_port a))"

text \<open>The attribute getters; \<open>None\<close> is a getter that returned an error.\<close>

record 'm stun_ops =
  get_xor_mapped :: "'m \<Rightarrow> string option"
  get_other_address :: "'m \<Rightarrow> string option"
  get_response_origin :: "'m \<Rightarrow> string option"
  get_mapped :: "'m \<Rightarrow> string option"
  get_software :: "'m \<Rightarrow> string option"

record parsed =
  xorAddr :: "string option"
  otherAddr :: "string option"
  respOrigin :: "string option"
  mappedAddr :: "string option"
  software :: "string option"

definition parse :: "'m stun_ops \<Rightarrow> 'm \<Rightarrow> parsed" where
  "parse S msg = \<lparr>xorAddr = get_xor_mapped S msg, otherAddr = get_other_address S msg,
     respOrigin = get_response_origin S msg, mappedAddr = get_mapped S msg, software = get_software S msg\<rparr>"

text \<open>A binding request with its CHANGE-REQUEST flags: change IP, change port.\<close>

record request =
  change_ip :: bool
  change_port :: bool

definition binding_request :: request where
  "binding_request = \<lparr>change_ip = False, change_port = False\<rparr>"

text \<open>The attribute value \<open>00 00 00 06\<close>, \<open>00 00 00 02\<close>.\<close>

definition add_change_request :: "bytes \<Rightarrow> request \<Rightarrow> request" where
  "add_change_request v r = (if length v = 4 then \<lparr>change_ip = bit (v ! 3) 2, change_port = bit (v ! 3) 1\<rparr> else r)"

section \<open>One request and its answer\<close>

record 'm stunServerConn =
  LocalAddr :: string
  RemoteAddr :: udp_addr
  OtherAddr :: "udp_addr option"

text \<open>
  What happens to a request: the write fails, the message channel is closed, a message
  arrives from an address, or five seconds pass.
\<close>

datatype 'm outcome = WriteFails | ChannelClosed | Answer 'm string | NoAnswer

type_synonym history = "(request \<times> udp_addr) list"
type_synonym 'm network = "history \<Rightarrow> 'm outcome"

definition roundTrip :: "'m network \<Rightarrow> history \<Rightarrow> request \<Rightarrow> udp_addr \<Rightarrow> (stun_error + 'm \<times> string) \<times> history" where
  "roundTrip net h req addr =
     (let h' = h @ [(req, addr)]
      in (case net h' of
            WriteFails \<Rightarrow> Inl ErrWrite
          | ChannelClosed \<Rightarrow> Inl ErrResponseMessage
          | Answer msg from \<Rightarrow> Inr (msg, from)
          | NoAnswer \<Rightarrow> Inl ErrTimedOut, h'))"

section \<open>The mapping tests\<close>

text \<open>
  \<open>String()\<close> of a nil attribute pointer panics.  \<open>resolve network text\<close> is
  \<open>net.ResolveUDPAddr\<close>.
\<close>

definition mappingTest3 :: "'m stun_ops \<Rightarrow> 'm network \<Rightarrow> udp_addr \<Rightarrow> string option \<Rightarrow> history
    \<Rightarrow> (nat_behaviour \<times> stun_error option) go" where
  "mappingTest3 S net other xor_before h =
     (case fst (roundTrip net h binding_request other) of
        Inl e \<Rightarrow> if e = ErrTimedOut then Some (AddressAndPortDependent, None) else Some (NoResult, Some e)
      | Inr (msg, _) \<Rightarrow> do {
          x3 \<leftarrow> xorAddr (parse S msg);
          x \<leftarrow> xor_before;
          Some (if x3 = x then AddressDependent else AddressAndPortDependent, None)
        })"

definition mappingTests :: "'m stun_ops \<Rightarrow> (string \<Rightarrow> string \<Rightarrow> udp_addr option) \<Rightarrow> 'm network \<Rightarrow> 'm stunServerConn
    \<Rightarrow> (nat_behaviour \<times> stun_error option) go" where
  "mappingTests S resolve net conn =
     (let (resp, h1) = roundTrip net [] binding_request (RemoteAddr conn)
      in case resp of
        Inl e \<Rightarrow> Some (NoResult, Some e)
      | Inr (msg, _) \<Rightarrow>
          (let resps = parse S msg
           in case (xorAddr resps, otherAddr resps) of
             (Some x1, Some o1) \<Rightarrow>
               (case resolve ''udp4'' o1 of
                  None \<Rightarrow> Some (NoResult, Some ErrResolve)
                | Some addr \<Rightarrow>
                    if x1 = LocalAddr conn then Some (EndpointIndependentNoNAT, None)
                    else let oaddr = addr\<lparr>ua_port := ua_port (RemoteAddr conn)\<rparr>;
                             (resp2, h2) = roundTrip net h1 binding_request oaddr
                    in (case resp2 of
                          Inl e \<Rightarrow> if e \<noteq> ErrTimedOut then Some (NoResult, Some e)
                                   else mappingTest3 S net addr (Some x1) h2
                        | Inr (msg2, _) \<Rightarrow> do {
                            let resps2 = parse S msg2;
                            origin \<leftarrow> respOrigin resps2;
                            if origin \<noteq> addr_text oaddr then Some (AddressAndPortDependent, None)
                            else do {
                              x2 \<leftarrow> xorAddr resps2;
                              if x2 = x1 then Some (EndpointIndependent, None)
                              else mappingTest3 S net addr (Some x2) h2
                            }
                          }))
           | _ \<Rightarrow> Some (NoResult, Some ErrNoOtherAddress)))"

section \<open>The filtering tests\<close>

definition filteringTests :: "'m stun_ops \<Rightarrow> (string \<Rightarrow> string \<Rightarrow> udp_addr option) \<Rightarrow> 'm network \<Rightarrow> 'm stunServerConn
    \<Rightarrow> nat_behaviour \<times> stun_error option" where
  "filteringTests S resolve net conn =
     (let (resp, h1) = roundTrip net [] binding_request (RemoteAddr conn)
      in case resp of
        Inl e \<Rightarrow> (NoResult, Some e)
      | Inr (msg, _) \<Rightarrow>
          (let resps = parse S msg
           in case (xorAddr resps, otherAddr resps) of
             (Some _, Some o1) \<Rightarrow>
               (case resolve ''udp'' o1 of
                  None \<Rightarrow> (NoResult, Some ErrResolve)
                | Some addr \<Rightarrow>
                    let req2 = add_change_request [0, 0, 0, 6] binding_request;
                        (resp2, h2) = roundTrip net h1 req2 (RemoteAddr conn);
                        test3 = (let req3 = add_change_request [0, 0, 0, 2] binding_request;
                                     (resp3, _) = roundTrip net h2 req3 (RemoteAddr conn)
                                 in case resp3 of
                                      Inr (_, from) \<Rightarrow>
                                        if from \<noteq> addr_text (RemoteAddr conn) then (AddressDependent, None)
                                        else (AddressAndPortDependent, None)
                                    | Inl e \<Rightarrow> if e \<noteq> ErrTimedOut then (NoResult, Some e)
                                               else (AddressAndPortDependent, None))
                    in (case resp2 of
                          Inr (_, from) \<Rightarrow>
                            if from \<noteq> addr_text (RemoteAddr conn) then (EndpointIndependent, None) else test3
                        | Inl e \<Rightarrow> if e \<noteq> ErrTimedOut then (NoResult, Some e) else test3))
           | _ \<Rightarrow> (NoResult, Some ErrNoOtherAddress)))"

section \<open>Connecting and the whole test\<close>

text \<open>
  \<open>connect\<close>: resolve the server, try a SOCKS UDP association on the local port and fall
  back to a socket of its own.  A failed handshake is only logged: the association is
  still tried on the address the failed handshake gave.
\<close>

record ('t, 'h, 'u) dial_ops =
  dl_resolve :: "string \<Rightarrow> udp_addr option"
  dl_tcp :: "string \<Rightarrow> 't option"
  dl_handshake :: "'t \<Rightarrow> string \<Rightarrow> 'h"
  dl_udp :: "'h \<Rightarrow> 'u option"
  dl_listen :: "'u option"
  dl_local :: "'u \<Rightarrow> string"

definition connect :: "('t, 'h, 'u) dial_ops \<Rightarrow> string \<Rightarrow> int \<Rightarrow> stun_error + bool \<times> 'm stunServerConn" where
  "connect D addrStr socksPort =
     (case dl_resolve D addrStr of
        None \<Rightarrow> Inl ErrConnect
      | Some addr \<Rightarrow>
          let viaSocks = (case dl_tcp D (''127.0.0.1:'' @ itoa socksPort) of
                            None \<Rightarrow> None
                          | Some socksConn \<Rightarrow> dl_udp D (dl_handshake D socksConn addrStr))
          in (case viaSocks of
                Some u \<Rightarrow> Inr (True, \<lparr>LocalAddr = dl_local D u, RemoteAddr = addr, OtherAddr = None\<rparr>)
              | None \<Rightarrow> (case dl_listen D of
                    None \<Rightarrow> Inl ErrConnect
                  | Some u \<Rightarrow> Inr (False, \<lparr>LocalAddr = dl_local D u, RemoteAddr = addr, OtherAddr = None\<rparr>))))"

text \<open>
  The body of \<open>Test\<close>, with its named results: a second connection is made only while no error is
  set, so a failed mapping test skips the filtering test.  \<open>conn1\<close> and \<open>conn2\<close> are the
  two results of \<open>connect\<close>, \<open>map_test\<close> and \<open>filter_test\<close> the tests on a connection.
\<close>

definition run_test :: "(stun_error + 'c) \<Rightarrow> (stun_error + 'c) \<Rightarrow>
    ('c \<Rightarrow> (nat_behaviour \<times> stun_error option) go) \<Rightarrow> ('c \<Rightarrow> nat_behaviour \<times> stun_error option) \<Rightarrow>
    (nat_behaviour \<times> nat_behaviour \<times> stun_error option) go" where
  "run_test conn1 conn2 map_test filter_test =
     (case conn1 of
        Inl e \<Rightarrow> Some (NoResult, NoResult, Some e)
      | Inr c \<Rightarrow> do {
          (natMapping, err) \<leftarrow> map_test c;
          (case err of
             Some e \<Rightarrow> Some (natMapping, NoResult, Some e)
           | None \<Rightarrow> (case conn2 of
               Inl e \<Rightarrow> Some (natMapping, NoResult, Some e)
             | Inr c' \<Rightarrow> (let (natFiltering, err) = filter_test c' in Some (natMapping, natFiltering, err))))
        })"

text \<open>\<open>Test\<close>: an empty server name stands for a default server; each test has a connection of its own.\<close>

definition server_name :: "string \<Rightarrow> string" where
  "server_name addrStr = (if addrStr = [] then ''stun.syncthing.net:3478'' else addrStr)"

definition Test :: "'m stun_ops \<Rightarrow> (string \<Rightarrow> string \<Rightarrow> udp_addr option) \<Rightarrow>
    ('t, 'h, 'u) dial_ops \<Rightarrow> ('t, 'h, 'u) dial_ops \<Rightarrow> 'm network \<Rightarrow> 'm network \<Rightarrow> string \<Rightarrow> int \<Rightarrow>
    (nat_behaviour \<times> nat_behaviour \<times> stun_error option) go" where
  "Test S resolve D1 D2 net1 net2 addrStr socksPort =
     run_test (connect D1 (server_name addrStr) socksPort) (connect D2 (server_name addrStr) socksPort)
       (\<lambda>(_, c). mappingTests S resolve net1 c) (\<lambda>(_, c). filteringTests S resolve net2 c)"

text \<open>\<open>StunTest\<close> of \<open>core.go\<close>: an error hides both results.\<close>

definition StunTest :: "(nat_behaviour \<times> nat_behaviour \<times> stun_error option) \<Rightarrow> stun_error + int \<times> int" where
  "StunTest r = (case r of
      (m, f, Some e) \<Rightarrow> Inl e
    | (m, f, None) \<Rightarrow> Inr (int32_of (behaviour_code m), int32_of (behaviour_code f)))"

section \<open>The reader goroutine\<close>

text \<open>
  \<open>listen\<close>: one datagram per iteration is read into \<open>b\<close>, at most \<open>len(b)\<close> bytes of it;
  \<open>b = b[:n]\<close> then shrinks the buffer for all later iterations.  The result is the raw
  messages delivered and whether the channel was closed.
\<close>

fun listen_loop :: "(bytes \<Rightarrow> bool) \<Rightarrow> nat \<Rightarrow> bytes option list \<Rightarrow> bytes list \<times> bool" where
  "listen_loop decodes len [] = ([], False)"
| "listen_loop decodes len (None # ds) = ([], True)"
| "listen_loop decodes len (Some d # ds) =
     (let n = min (length d) len; raw = take n d
      in if decodes raw then (let (ms, closed) = listen_loop decodes n ds in (raw # ms, closed))
         else ([], True))"

text \<open>
  \<open>socksPacketConn.ReadFrom\<close>: \<open>received\<close> bytes overwrite the front of the caller's buffer;
  the decoder is then given the \<^emph>\<open>whole\<close> buffer, and its payload is copied to the front.
  \<open>decode\<close> is \<open>socks5.DecodeUDPPacket\<close> followed by \<open>UDPAddr\<close>.
\<close>

datatype socks_error = ErrRead | ErrDecode | ErrAddr

definition socks_ReadFrom :: "(bytes \<Rightarrow> (udp_addr option \<times> bytes) option) \<Rightarrow> bytes \<Rightarrow> bytes option
    \<Rightarrow> (socks_error + nat \<times> udp_addr) \<times> bytes" where
  "socks_ReadFrom decode b received =
     (case received of
        None \<Rightarrow> (Inl ErrRead, b)
      | Some d \<Rightarrow>
          (let b1 = copy_into b d
           in case decode b1 of
                None \<Rightarrow> (Inl ErrDecode, b1)
              | Some (None, _) \<Rightarrow> (Inl ErrAddr, b1)
              | Some (Some addr, payload) \<Rightarrow> (Inr (length payload, addr), copy_into b1 payload)))"

definition socks_WriteTo :: "(udp_addr \<Rightarrow> bytes \<Rightarrow> bytes option) \<Rightarrow> bytes \<Rightarrow> udp_addr \<Rightarrow> bytes option" where
  "socks_WriteTo encode b addr = encode addr b"

end
