(* ===== verification/StunNat.thy ===== *)
theory StunNat
  imports Stun
begin

text \<open>
  What the tests of \<open>Stun\<close> establish.  A NAT is described the way RFC 4787 does: by the
  function that maps a destination to the external end point the destination sees, and
  by the rule that admits inbound packets.  The theorems say that the verdict of the code
  is the class of the NAT, and what the code does on answers that lack attributes, on
  lost packets and in the reader goroutine.
\<close>

section \<open>Texts of end points\<close>

lemma itoa_nat_inject: "itoa_nat m = itoa_nat n \<longleftrightarrow> m = n"
  by (metis dec_val_itoa_nat)

lemma itoa_inject: "itoa i = itoa j \<longleftrightarrow> i = j"
proof -
  have *: "itoa_nat n \<noteq> CHR ''-'' # cs" for n cs
    using itoa_nat_no_sign(1) [of n] by (auto simp: has_prefix_def)
  show ?thesis
    by (auto simp: itoa_def itoa_nat_inject * * [symmetric])
qed

lemma append_Cons_first_unique:
  "zs @ c # r = zs' @ c # r' \<Longrightarrow> c \<notin> set zs \<Longrightarrow> c \<notin> set zs' \<Longrightarrow> zs = zs' \<and> r = r'"
proof (induction zs arbitrary: zs')
  case Nil
  then show ?case by (cases zs') auto
next
  case (Cons a zs)
  then show ?case by (cases zs') auto
qed

lemma append_Cons_last_unique:
  assumes "xs @ c # ys = xs' @ c # ys'" "c \<notin> set ys" "c \<notin> set ys'"
  shows "xs = xs' \<and> ys = ys'"
proof -
  have "rev ys @ c # rev xs = rev ys' @ c # rev xs'"
    using arg_cong [OF assms(1), of rev] by simp
  from append_Cons_first_unique [OF this] show ?thesis
    using assms(2,3) by simp
qed

lemma addr_text_inject: "addr_text a = addr_text b \<longleftrightarrow> ua_host a = ua_host b \<and> ua_port a = ua_port b"
proof
  define t :: "string \<Rightarrow> string" where "t = (\<lambda>h. if CHR '':'' \<in> set h then CHR ''['' # h @ '']'' else h)"
  have shape: "addr_text x = t (ua_host x) @ CHR '':'' # itoa (ua_port x)" for x
    by (simp add: addr_text_def join_host_port_def t_def)
  assume "addr_text a = addr_text b"
  then have eq: "t (ua_host a) = t (ua_host b) \<and> itoa (ua_port a) = itoa (ua_port b)"
    unfolding shape by (rule append_Cons_last_unique) (simp_all add: itoa_no_colon)
  have colon: "CHR '':'' \<in> set (t h) \<longleftrightarrow> CHR '':'' \<in> set h" for h
    by (simp add: t_def)
  have "ua_host a = ua_host b"
    using eq colon [of "ua_host a"] colon [of "ua_host b"]
    by (auto simp: t_def split: if_splits)
  with eq show "ua_host a = ua_host b \<and> ua_port a = ua_port b"
    by (simp add: itoa_inject)
qed (simp add: addr_text_def)

section \<open>The server\<close>

text \<open>
  A server that implements RFC 5780: its answers carry the address the request came from,
  the address it was sent to, and the server's other address.
\<close>

locale stun_server =
  fixes S :: "'m stun_ops" and reply :: "string \<Rightarrow> string \<Rightarrow> string \<Rightarrow> 'm"
  assumes xor_reply: "get_xor_mapped S (reply mapped origin other) = Some mapped"
    and origin_reply: "get_response_origin S (reply mapped origin other) = Some origin"
    and other_reply: "get_other_address S (reply mapped origin other) = Some other"
begin

lemma parse_reply:
  "xorAddr (parse S (reply mapped origin other)) = Some mapped"
  "respOrigin (parse S (reply mapped origin other)) = Some origin"
  "otherAddr (parse S (reply mapped origin other)) = Some other"
  by (simp_all add: parse_def xor_reply origin_reply other_reply)

end

text \<open>Messages as the record of their five attributes.\<close>

definition message_ops :: "parsed stun_ops" where
  "message_ops = \<lparr>get_xor_mapped = xorAddr, get_other_address = otherAddr, get_response_origin = respOrigin,
     get_mapped = mappedAddr, get_software = software\<rparr>"

definition rfc5780_reply :: "string \<Rightarrow> string \<Rightarrow> string \<Rightarrow> parsed" where
  "rfc5780_reply mapped origin other = \<lparr>xorAddr = Some mapped, otherAddr = Some other, respOrigin = Some origin,
     mappedAddr = Some mapped, software = None\<rparr>"

interpretation rfc5780: stun_server message_ops rfc5780_reply
  by unfold_locales (simp_all add: message_ops_def rfc5780_reply_def)

section \<open>Mapping\<close>

text \<open>The classes of RFC 4787, section 4.1, for a mapping \<open>m\<close> of destinations to external end points.\<close>

fun nat_maps :: "nat_behaviour \<Rightarrow> string \<Rightarrow> (udp_addr \<Rightarrow> string) \<Rightarrow> bool" where
  "nat_maps NoResult local m = False"
| "nat_maps EndpointIndependentNoNAT local m = (\<forall>d. m d = local)"
| "nat_maps EndpointIndependent local m = (\<exists>x. x \<noteq> local \<and> (\<forall>d. m d = x))"
| "nat_maps AddressDependent local m =
     ((\<forall>d. m d \<noteq> local) \<and> (\<forall>d d'. m d = m d' \<longleftrightarrow> ua_host d = ua_host d'))"
| "nat_maps AddressAndPortDependent local m =
     ((\<forall>d. m d \<noteq> local) \<and> (\<forall>d d'. m d = m d' \<longleftrightarrow> ua_host d = ua_host d' \<and> ua_port d = ua_port d'))"

text \<open>Every request reaches the server through \<open>m\<close>; the answers to the requests in \<open>lost\<close> do not return.\<close>

definition mapped_net :: "(string \<Rightarrow> string \<Rightarrow> string \<Rightarrow> 'm) \<Rightarrow> (udp_addr \<Rightarrow> string) \<Rightarrow> udp_addr \<Rightarrow> (nat \<Rightarrow> bool) \<Rightarrow> 'm network" where
  "mapped_net reply m other lost h =
     (let d = snd (last h) in
      if lost (length h) then NoAnswer
      else Answer (reply (m d) (addr_text d) (addr_text other)) (addr_text d))"

lemma roundTrip_mapped_net:
  "roundTrip (mapped_net reply m other lost) h req d =
     (if lost (Suc (length h)) then Inl ErrTimedOut
      else Inr (reply (m d) (addr_text d) (addr_text other), addr_text d), h @ [(req, d)])"
  by (simp add: roundTrip_def mapped_net_def)

context stun_server
begin

text \<open>The code's decision as a function of what the mapping shows for the three destinations.\<close>

lemma mappingTests_verdict:
  assumes "\<not> lost 1" and "resolve ''udp4'' (addr_text other) = Some other"
  shows "mappingTests S resolve (mapped_net reply m other lost) conn =
    Some (let d1 = RemoteAddr conn; d2 = other\<lparr>ua_port := ua_port (RemoteAddr conn)\<rparr> in
          if m d1 = LocalAddr conn then EndpointIndependentNoNAT
          else if \<not> lost 2 \<and> m d2 = m d1 then EndpointIndependent
          else if \<not> lost 3 \<and> m other = (if lost 2 then m d1 else m d2) then AddressDependent
          else AddressAndPortDependent, None)"
  using assms(1,2)
  by (simp add: mappingTests_def mappingTest3_def roundTrip_mapped_net parse_reply Let_def
      numeral_2_eq_2 numeral_3_eq_3)

lemma mapping_class:
  assumes "nat_maps b (LocalAddr conn) m"
    and "ua_host other \<noteq> ua_host (RemoteAddr conn)" and "ua_port other \<noteq> ua_port (RemoteAddr conn)"
    and "resolve ''udp4'' (addr_text other) = Some other" and "\<not> lost 1"
  shows "\<exists>r. mappingTests S resolve (mapped_net reply m other lost) conn = Some (r, None) \<and>
    behaviour_code b \<le> behaviour_code r \<and> (\<not> lost 2 \<and> \<not> lost 3 \<longrightarrow> r = b)"
  unfolding mappingTests_verdict [of lost resolve other m conn, OF assms(5,4)]
  using assms(1-3) by (cases b) (auto simp: Let_def)

end

text \<open>
  C14.  The mapping test identifies the NAT: against an RFC 5780 server whose other address
  differs in host and port, with no lost packet, the verdict is the class of the NAT's
  mapping.  When answers after the first are lost, the verdict is the same class or a
  more restrictive one, never a more permissive one.
\<close>

theorem mapping_test_identifies_nat:
  assumes "stun_server S reply" and "nat_maps b (LocalAddr conn) m"
    and "ua_host other \<noteq> ua_host (RemoteAddr conn)" and "ua_port other \<noteq> ua_port (RemoteAddr conn)"
    and "resolve ''udp4'' (addr_text other) = Some other" and "\<not> lost 1"
  shows "\<exists>r. mappingTests S resolve (mapped_net reply m other lost) conn = Some (r, None) \<and>
    behaviour_code b \<le> behaviour_code r \<and> (\<not> lost 2 \<and> \<not> lost 3 \<longrightarrow> r = b)"
  using assms by (rule stun_server.mapping_class)

theorem mapping_test_identifies_nat_witness:
  "mappingTests message_ops (\<lambda>_ _. Some \<lparr>ua_host = ''192.0.2.2'', ua_port = 3479\<rparr>)
       (mapped_net rfc5780_reply (\<lambda>d. CHR ''x'' # ua_host d) \<lparr>ua_host = ''192.0.2.2'', ua_port = 3479\<rparr> (\<lambda>_. False))
       \<lparr>LocalAddr = ''10.0.0.2:5000'', RemoteAddr = \<lparr>ua_host = ''192.0.2.1'', ua_port = 3478\<rparr>, OtherAddr = None\<rparr>
     = Some (AddressDependent, None)"
  using mapping_test_identifies_nat [OF rfc5780.stun_server_axioms,
      of AddressDependent
        "\<lparr>LocalAddr = ''10.0.0.2:5000'', RemoteAddr = \<lparr>ua_host = ''192.0.2.1'', ua_port = 3478\<rparr>, OtherAddr = None\<rparr>"
        "\<lambda>d. CHR ''x'' # ua_host d" "\<lparr>ua_host = ''192.0.2.2'', ua_port = 3479\<rparr>"
        "\<lambda>_ _. Some \<lparr>ua_host = ''192.0.2.2'', ua_port = 3479\<rparr>" "\<lambda>_. False"]
  by auto


section \<open>Filtering\<close>

text \<open>
  The classes of RFC 4787, section 5: which sources may send to a client that has contacted
  the end points in \<open>dests\<close>.  The server sends the answer from its other host and port as
  the CHANGE-REQUEST flags ask.
\<close>

fun nat_passes :: "nat_behaviour \<Rightarrow> udp_addr set \<Rightarrow> udp_addr \<Rightarrow> bool" where
  "nat_passes AddressDependent dests src = (\<exists>d\<in>dests. ua_host d = ua_host src)"
| "nat_passes AddressAndPortDependent dests src = (\<exists>d\<in>dests. ua_host d = ua_host src \<and> ua_port d = ua_port src)"
| "nat_passes _ dests src = True"

definition answer_source :: "udp_addr \<Rightarrow> request \<Rightarrow> udp_addr \<Rightarrow> udp_addr" where
  "answer_source other r d = \<lparr>ua_host = (if change_ip r then ua_host other else ua_host d),
     ua_port = (if change_port r then ua_port other else ua_port d)\<rparr>"

definition filtered_net :: "(string \<Rightarrow> string \<Rightarrow> string \<Rightarrow> 'm) \<Rightarrow> nat_behaviour \<Rightarrow> udp_addr \<Rightarrow> string \<Rightarrow> 'm network" where
  "filtered_net reply b other mapped h =
     (let (r, d) = last h; src = answer_source other r d in
      if nat_passes b (snd ` set h) src
      then Answer (reply mapped (addr_text src) (addr_text other)) (addr_text src) else NoAnswer)"

lemma roundTrip_filtered_net:
  "roundTrip (filtered_net reply b other mapped) h req d =
     (if nat_passes b (insert d (snd ` set h)) (answer_source other req d)
      then Inr (reply mapped (addr_text (answer_source other req d)) (addr_text other),
                addr_text (answer_source other req d))
      else Inl ErrTimedOut, h @ [(req, d)])"
  by (simp add: roundTrip_def filtered_net_def Let_def)

lemma change_requests:
  "add_change_request [0, 0, 0, 6] r = \<lparr>change_ip = True, change_port = True\<rparr>"
  "add_change_request [0, 0, 0, 2] r = \<lparr>change_ip = False, change_port = True\<rparr>"
  by (simp_all add: add_change_request_def bit_iff_odd)

context stun_server
begin

lemma filtering_class:
  assumes "b = EndpointIndependent \<or> b = AddressDependent \<or> b = AddressAndPortDependent"
    and "ua_host other \<noteq> ua_host (RemoteAddr conn)" and "ua_port other \<noteq> ua_port (RemoteAddr conn)"
    and "resolve ''udp'' (addr_text other) = Some other"
  shows "filteringTests S resolve (filtered_net reply b other mapped) conn = (b, None)"
  using assms
  by (auto simp: filteringTests_def roundTrip_filtered_net parse_reply Let_def
      change_requests answer_source_def addr_text_inject binding_request_def)

end

text \<open>
  C36.  The filtering test identifies the NAT: against an RFC 5780 server that answers from
  its other address as asked, behind a NAT of a filtering class, the verdict is that class.
\<close>

theorem filtering_test_identifies_nat:
  assumes "stun_server S reply"
    and "b = EndpointIndependent \<or> b = AddressDependent \<or> b = AddressAndPortDependent"
    and "ua_host other \<noteq> ua_host (RemoteAddr conn)" and "ua_port other \<noteq> ua_port (RemoteAddr conn)"
    and "resolve ''udp'' (addr_text other) = Some other"
  shows "filteringTests S resolve (filtered_net reply b other mapped) conn = (b, None)"
  using assms by (rule stun_server.filtering_class)

theorem filtering_test_identifies_nat_witness:
  "filteringTests message_ops (\<lambda>_ _. Some \<lparr>ua_host = ''192.0.2.2'', ua_port = 3479\<rparr>)
     (filtered_net rfc5780_reply AddressDependent \<lparr>ua_host = ''192.0.2.2'', ua_port = 3479\<rparr> ''198.51.100.7:6000'')
     \<lparr>LocalAddr = ''10.0.0.2:5000'', RemoteAddr = \<lparr>ua_host = ''192.0.2.1'', ua_port = 3478\<rparr>, OtherAddr = None\<rparr>
   = (AddressDependent, None)"
  by (rule filtering_test_identifies_nat [OF rfc5780.stun_server_axioms]) simp_all


section \<open>The whole test\<close>

text \<open>
  The whole test: when both connections come up to the same server and no packet is
  lost, \<open>StunTest\<close> reports the codes of the NAT's mapping and filtering classes.
\<close>

theorem stun_test_reports_classes:
  assumes "stun_server S reply"
    and "connect D1 (server_name addrStr) socksPort = Inr (v1, conn1)"
    and "connect D2 (server_name addrStr) socksPort = Inr (v2, conn2)"
    and "RemoteAddr conn2 = RemoteAddr conn1"
    and "nat_maps bm (LocalAddr conn1) m"
    and "bf = EndpointIndependent \<or> bf = AddressDependent \<or> bf = AddressAndPortDependent"
    and "ua_host other \<noteq> ua_host (RemoteAddr conn1)" and "ua_port other \<noteq> ua_port (RemoteAddr conn1)"
    and "resolve ''udp4'' (addr_text other) = Some other" and "resolve ''udp'' (addr_text other) = Some other"
  shows "map_option StunTest (Test S resolve D1 D2 (mapped_net reply m other (\<lambda>_. False))
           (filtered_net reply bf other mapped) addrStr socksPort)
         = Some (Inr (behaviour_code bm, behaviour_code bf))"
proof -
  have "mappingTests S resolve (mapped_net reply m other (\<lambda>_. False)) conn1 = Some (bm, None)"
    using stun_server.mapping_class [OF assms(1,5,7,8), of resolve "\<lambda>_. False"] assms(9) by auto
  moreover have "filteringTests S resolve (filtered_net reply bf other mapped) conn2 = (bf, None)"
    using stun_server.filtering_class [OF assms(1,6), of other conn2 resolve] assms(4,7,8,10) by simp
  moreover have "int32_of (behaviour_code b) = behaviour_code b" for b
    by (cases b) (simp_all add: int32_of_eq)
  ultimately show ?thesis
    using assms(2,3) by (simp add: Test_def run_test_def StunTest_def)
qed

text \<open>A host on which the SOCKS port is closed and the server name resolves.\<close>

definition plain_host :: "(unit, unit, string) dial_ops" where
  "plain_host = \<lparr>dl_resolve = (\<lambda>_. Some \<lparr>ua_host = ''192.0.2.1'', ua_port = 3478\<rparr>), dl_tcp = (\<lambda>_. None),
     dl_handshake = (\<lambda>_ _. ()), dl_udp = (\<lambda>_. None), dl_listen = Some ''10.0.0.2:5000'', dl_local = id\<rparr>"

theorem stun_test_reports_classes_witness:
  "map_option StunTest (Test message_ops (\<lambda>_ _. Some \<lparr>ua_host = ''192.0.2.2'', ua_port = 3479\<rparr>) plain_host plain_host
     (mapped_net rfc5780_reply (\<lambda>d. CHR ''x'' # ua_host d) \<lparr>ua_host = ''192.0.2.2'', ua_port = 3479\<rparr> (\<lambda>_. False))
     (filtered_net rfc5780_reply EndpointIndependent \<lparr>ua_host = ''192.0.2.2'', ua_port = 3479\<rparr> ''x'') [] 2080)
   = Some (Inr (3, 2))"
proof -
  define conn :: "parsed stunServerConn" where
    "conn = \<lparr>LocalAddr = ''10.0.0.2:5000'', RemoteAddr = \<lparr>ua_host = ''192.0.2.1'', ua_port = 3478\<rparr>, OtherAddr = None\<rparr>"
  have "connect plain_host (server_name []) 2080 = Inr (False, conn)"
    by (simp add: connect_def plain_host_def conn_def)
  from stun_test_reports_classes [OF rfc5780.stun_server_axioms this this refl,
      of AddressDependent "\<lambda>d. CHR ''x'' # ua_host d" EndpointIndependent
         "\<lparr>ua_host = ''192.0.2.2'', ua_port = 3479\<rparr>" "\<lambda>_ _. Some \<lparr>ua_host = ''192.0.2.2'', ua_port = 3479\<rparr>" "''x''"]
  show ?thesis
    by (simp add: conn_def)
qed

section \<open>Missing attributes\<close>

text \<open>
  Once the first two answers of the mapping test are in, the client crashes exactly
  when the second answer has no RESPONSE-ORIGIN, or has the right one but no
  XOR-MAPPED-ADDRESS, or the third test is reached and its answer has no
  XOR-MAPPED-ADDRESS: \<open>parse\<close> leaves nil in those fields and the code calls \<open>String()\<close> on it.
\<close>

theorem mapping_test_crashes_iff:
  assumes "net [(binding_request, RemoteAddr conn)] = Answer msg1 from1"
    and "get_xor_mapped S msg1 = Some x1" and "x1 \<noteq> LocalAddr conn"
    and "get_other_address S msg1 = Some o1" and "resolve ''udp4'' o1 = Some other"
    and "oaddr = other\<lparr>ua_port := ua_port (RemoteAddr conn)\<rparr>"
    and "net [(binding_request, RemoteAddr conn), (binding_request, oaddr)] = Answer msg2 from2"
  shows "mappingTests S resolve net conn = None \<longleftrightarrow>
    get_response_origin S msg2 = None \<or>
    get_response_origin S msg2 = Some (addr_text oaddr) \<and>
      (get_xor_mapped S msg2 = None \<or>
       get_xor_mapped S msg2 \<noteq> Some x1 \<and>
         (\<exists>msg3 from3. net [(binding_request, RemoteAddr conn), (binding_request, oaddr), (binding_request, other)]
            = Answer msg3 from3 \<and> get_xor_mapped S msg3 = None))"
  using assms
  by (auto simp: mappingTests_def mappingTest3_def roundTrip_def parse_def Let_def bind_eq_None_conv
      split: outcome.splits if_splits)

text \<open>A server of RFC 3489 age: an other address but no RESPONSE-ORIGIN.\<close>

theorem mapping_test_crashes_iff_witness:
  "mappingTests message_ops (\<lambda>_ _. Some \<lparr>ua_host = ''192.0.2.2'', ua_port = 3479\<rparr>)
     (\<lambda>h. Answer \<lparr>xorAddr = Some ''198.51.100.7:6000'', otherAddr = Some ''192.0.2.2:3479'', respOrigin = None,
              mappedAddr = None, software = None\<rparr> ''192.0.2.1:3478'')
     \<lparr>LocalAddr = ''10.0.0.2:5000'', RemoteAddr = \<lparr>ua_host = ''192.0.2.1'', ua_port = 3478\<rparr>, OtherAddr = None\<rparr>
   = None"
  by (subst mapping_test_crashes_iff [OF refl _ _ _ _ refl refl, where ?x1.0 = "''198.51.100.7:6000''"]) (simp_all add: message_ops_def)

section \<open>The reader goroutine\<close>

lemma takeWhile_map_Suc:
  "map f [0..<Suc n] = f 0 # map (\<lambda>k. f (Suc k)) [0..<n]"
  by (simp add: map_upt_Suc del: upt_Suc)

lemma Min_insert_insert:
  "finite A \<Longrightarrow> Min (insert a (insert b A)) = Min (insert (min a b) A)"
  by (cases "A = {}") (simp_all add: min.assoc)

text \<open>The \<open>k\<close>-th datagram as the reader sees it, with a buffer of \<open>len\<close> bytes at the start.\<close>

definition seen :: "nat \<Rightarrow> bytes list \<Rightarrow> nat \<Rightarrow> bytes" where
  "seen len ds k = take (Min (insert len (length ` set (take (Suc k) ds)))) (ds ! k)"

text \<open>
  The reader delivers the datagrams in order up to the first that does not decode, but
  each one cut to the shortest length received so far: \<open>b = b[:n]\<close> shrinks the buffer of all
  later reads.  The channel is closed exactly when a datagram did not decode.
\<close>

theorem listen_truncates:
  "listen_loop decodes len (map Some ds) =
    (let ms = takeWhile decodes (map (seen len ds) [0..<length ds]) in (ms, length ms < length ds))"
proof (induction ds arbitrary: len)
  case Nil
  then show ?case by simp
next
  case (Cons d ds)
  have first: "seen len (d # ds) 0 = take (min (length d) len) d"
    by (simp add: seen_def min.commute)
  have "seen len (d # ds) (Suc k) = seen (min (length d) len) ds k" for k
    by (simp add: seen_def Min_insert_insert min.commute del: Min_insert)
  with first show ?case
    using Cons.IH [of "min (length d) len"]
    by (simp add: takeWhile_map_Suc Let_def del: upt_Suc)
qed

section \<open>The SOCKS socket\<close>

text \<open>
  The length the SOCKS socket reports does not depend on the datagram: behind a header
  of \<open>k\<close> bytes it is the caller's buffer size less \<open>k\<close>, so a short datagram is followed by
  the zero or stale bytes of the buffer.
\<close>

theorem socks_length_is_buffer_length:
  assumes "k \<le> length d" and "length d \<le> length b"
    and "decode (copy_into b d) = Some (Some addr, drop k (copy_into b d))"
  shows "fst (socks_ReadFrom decode b (Some d)) = Inr (length b - k, addr) \<and>
    take (length d - k) (snd (socks_ReadFrom decode b (Some d))) = drop k d"
  using assms by (simp add: socks_ReadFrom_def Let_def copy_into_def)

theorem socks_length_is_buffer_length_witness:
  "fst (socks_ReadFrom (\<lambda>p. Some (Some \<lparr>ua_host = ''192.0.2.1'', ua_port = 3478\<rparr>, drop 10 p))
     (replicate 100 0) (Some (replicate 10 1 @ [7, 8]))) = Inr (90, \<lparr>ua_host = ''192.0.2.1'', ua_port = 3478\<rparr>)"
  using socks_length_is_buffer_length [of 10 "replicate 10 1 @ [7, 8]" "replicate 100 0"
      "\<lambda>p. Some (Some \<lparr>ua_host = ''192.0.2.1'', ua_port = 3478\<rparr>, drop 10 p)"]
  by simp

end
