(* ===== verification/TunAttr.thy ===== *)
theory TunAttr
  imports Procfs
begin

text \<open>
  \<open>tun.go\<close> and \<open>uid.go\<close>, the part of \<open>NewTun2ray\<close>, \<open>NewConnection\<close>, \<open>NewPacket\<close> and
  \<open>NewPingPacket\<close> that computes: which application a flow belongs to, how it is tagged and
  sniffed, whether it is counted, and the loop that relays answers.  The shared session
  tables are \<open>TunTable\<close>, the counters \<open>AppStats\<close>.
\<close>

section \<open>Construction\<close>

datatype device = GVisorDevice | NatDevice | NoDevice

text \<open>\<open>Protector\<close> is an application callback, named here by what the code does with it.\<close>

datatype protector = ConfigProtector | NoopProtector
datatype ping_control = PingBindUpstream | PingProtect protector

record tun_config =
  cfg_protect :: bool
  cfg_router :: string
  cfg_bind_upstream :: bool
  cfg_implementation :: int
  cfg_sniffing :: bool
  cfg_override :: bool
  cfg_debug :: bool
  cfg_dump_uid :: bool
  cfg_traffic_stats :: bool
  cfg_pcap :: bool

record tun2ray =
  dev :: device
  router :: string
  sniffing :: bool
  overrideDestination :: bool
  debug :: bool
  dumps_uid :: bool
  trafficStats :: bool
  pingViaDefault :: bool

text \<open>What the operations around the construction answer: directory, file, the two devices.\<close>

record tun_env =
  env_mkdir :: bool
  env_create :: bool
  env_gvisor :: bool
  env_nat :: bool
  env_default_wireguard :: bool

datatype tun_error = ErrPcapDir | ErrPcapFile | ErrDevice

definition new_device :: "tun_env \<Rightarrow> tun_config \<Rightarrow> tun_error + device" where
  "new_device E cfg =
     (if cfg_implementation cfg = TunImplementationGVisor then
        if cfg_pcap cfg \<and> \<not> env_mkdir E then Inl ErrPcapDir
        else if cfg_pcap cfg \<and> \<not> env_create E then Inl ErrPcapFile
        else if env_gvisor E then Inr GVisorDevice else Inl ErrDevice
      else if cfg_implementation cfg = TunImplementationSystem then
        if env_nat E then Inr NatDevice else Inl ErrDevice
      else Inr NoDevice)"

definition NewTun2ray :: "tun_env \<Rightarrow> tun_config \<Rightarrow> tun_error + tun2ray \<times> protector \<times> ping_control" where
  "NewTun2ray E cfg =
     (case new_device E cfg of
        Inl e \<Rightarrow> Inl e
      | Inr d \<Rightarrow>
          let p = (if cfg_protect cfg then ConfigProtector else NoopProtector)
          in Inr (\<lparr>dev = d, router = cfg_router cfg, sniffing = cfg_sniffing cfg,
                   overrideDestination = cfg_override cfg, debug = cfg_debug cfg,
                   dumps_uid = cfg_dump_uid cfg, trafficStats = cfg_traffic_stats cfg,
                   pingViaDefault = env_default_wireguard E\<rparr>,
                  p, if cfg_bind_upstream cfg then PingBindUpstream else PingProtect p))"

section \<open>Whose traffic it is\<close>

text \<open>
  \<open>dumpUid\<close> asks \<open>/proc\<close> or the application; \<open>ip_text\<close> is \<open>net.IP.String()\<close>.  The outer
  option is a panic, the sum an error.
\<close>

definition dumpUid :: "bool \<Rightarrow> (destination \<Rightarrow> int go) \<Rightarrow> (bytes \<Rightarrow> string) \<Rightarrow>
    (int \<Rightarrow> string \<Rightarrow> int \<Rightarrow> string \<Rightarrow> int \<Rightarrow> unit + int) \<Rightarrow> destination \<Rightarrow> destination \<Rightarrow> (unit + int) go" where
  "dumpUid useProcfs from_proc ip_text dumper source dest =
     (if useProcfs then map_option Inr (from_proc source)
      else do {
        srcIp \<leftarrow> addr_ip (dst_address source);
        destIp \<leftarrow> addr_ip (dst_address dest);
        Some (dumper (if dst_network dest = Network_TCP then 6 else 17)
          (ip_text srcIp) (uint (dst_port source)) (ip_text destIp) (uint (dst_port dest)))
      })"

text \<open>
  The owner \<open>NewConnection\<close> works with: the uid it accounts and tags (\<open>0\<close> when the lookup
  fails) and whether the process itself is the owner.
\<close>

definition connection_owner :: "int \<Rightarrow> unit + int \<Rightarrow> u16 \<times> bool" where
  "connection_owner getuid r =
     (case r of
        Inl _ \<Rightarrow> (0, False)
      | Inr u \<Rightarrow>
          let uid = uint16_of u
          in (if uid < 10000 then 1000 else uid, 0 < uid \<and> uint uid = getuid))"

text \<open>
  The owner \<open>NewPacket\<close> works with: uids above 19999 count as the system's, and with
  logging on a uid without application information does too.
\<close>

definition packet_owner :: "bool \<Rightarrow> (int \<Rightarrow> bool) \<Rightarrow> int \<Rightarrow> unit + int \<Rightarrow> u16 \<times> bool" where
  "packet_owner dbg has_info getuid r =
     (case r of
        Inl _ \<Rightarrow> (0, False)
      | Inr u \<Rightarrow>
          let uid = uint16_of (if u > 19999 then 1000 else u);
              self = (0 < uid \<and> uint uid = getuid);
              uid' = (if dbg \<and> \<not> self \<and> uid \<ge> 1000 \<and> \<not> has_info (uint uid) then 1000 else uid)
          in (if uid' < 10000 then 1000 else uid', self))"

section \<open>The request handed to the core\<close>

record flow_request =
  inbound_source :: destination
  inbound_tag :: string
  inbound_uid :: int
  sniff_route_only :: "(bool \<times> string list) option"
  counted_as :: "u16 option"

definition flow_request_of :: "tun2ray \<Rightarrow> string list \<Rightarrow> u16 \<times> bool \<Rightarrow> destination \<Rightarrow> destination \<Rightarrow> flow_request" where
  "flow_request_of t protocols own source dest =
     (let isDns = (addr_string (dst_address dest) = router t);
          (uid, self) = (if dumps_uid t \<or> trafficStats t then own else (0, False))
      in \<lparr>inbound_source = source,
          inbound_tag = (if isDns then ''dns-in'' else ''tun''),
          inbound_uid = uint uid,
          sniff_route_only = (if \<not> isDns \<and> sniffing t then Some (\<not> overrideDestination t, protocols) else None),
          counted_as = (if trafficStats t \<and> \<not> self \<and> \<not> isDns then Some uid else None)\<rparr>)"

definition NewConnection_request :: "tun2ray \<Rightarrow> int \<Rightarrow> unit + int \<Rightarrow> destination \<Rightarrow> destination \<Rightarrow> flow_request" where
  "NewConnection_request t getuid r = flow_request_of t [''http'', ''tls''] (connection_owner getuid r)"

definition NewPacket_request :: "tun2ray \<Rightarrow> (int \<Rightarrow> bool) \<Rightarrow> int \<Rightarrow> unit + int \<Rightarrow> destination \<Rightarrow> destination \<Rightarrow> flow_request" where
  "NewPacket_request t has_info getuid r = flow_request_of t [''quic''] (packet_owner (debug t) has_info getuid r)"

text \<open>
  \<open>NewPingPacket\<close>: the key joins both addresses, and the outbound is the one the route
  names, the default one when it is WireGuard, or none (the call returns false).
  \<open>route\<close> is the tag \<open>PickRoute\<close> answers, \<open>None\<close> its error.
\<close>

definition ping_key :: "destination \<Rightarrow> destination \<Rightarrow> string" where
  "ping_key source dest = addr_string (dst_address source) @ ''-'' @ addr_string (dst_address dest)"

datatype ping_outbound = PingTag string | PingDefault

definition ping_outbound :: "tun2ray \<Rightarrow> string option \<Rightarrow> (string \<Rightarrow> bool) \<Rightarrow> ping_outbound option" where
  "ping_outbound t route has_handler =
     (case route of
        Some tag \<Rightarrow> if has_handler tag then Some (PingTag tag) else None
      | None \<Rightarrow> if pingViaDefault t then Some PingDefault else None)"

section \<open>The relay loop\<close>

text \<open>
  The read loop of \<open>NewPacket\<close>: each read is an error or a payload with its source, paired
  with whether writing it back succeeds.  The result is what is written back.
\<close>

fun relay :: "bool \<Rightarrow> ((bytes \<times> 'a option) option \<times> bool) list \<Rightarrow> (bytes \<times> 'a option) list" where
  "relay isDns [] = []"
| "relay isDns ((None, _) # rs) = []"
| "relay isDns ((Some (p, a), ok) # rs) =
     (p, if isDns then None else a) # (if ok then relay isDns rs else [])"

section \<open>Properties\<close>

lemma uint_uint16_of: "uint (uint16_of u) = u mod 65536"
  by (simp add: uint16_of_def uint_word_of_int)

lemma u16_less_iff: "(a :: u16) < b \<longleftrightarrow> uint a < uint b"
  by (simp add: word_less_def)

lemma uint_connection_owner:
  "uint (fst (connection_owner getuid (Inr u))) = (if u mod 65536 < 10000 then 1000 else u mod 65536)"
  by (simp add: connection_owner_def Let_def u16_less_iff uint_uint16_of)

lemma uint_packet_owner:
  "uint (fst (packet_owner False has_info getuid (Inr u))) =
     (if u > 19999 \<or> u mod 65536 < 10000 then 1000 else u mod 65536)"
  by (simp add: packet_owner_def Let_def u16_less_iff uint_uint16_of)


lemma uint_eq_iff: "(a :: u16) = b \<longleftrightarrow> uint a = uint b"
  by (simp add: word_uint_eq_iff)


lemma connection_self: "snd (connection_owner getuid (Inr u)) \<longleftrightarrow> 0 < u mod 65536 \<and> u mod 65536 = getuid"
  by (simp add: connection_owner_def Let_def u16_less_iff uint_uint16_of)

lemma packet_self:
  "snd (packet_owner dbg has_info getuid (Inr u)) \<longleftrightarrow>
     (let v = (if u > 19999 then 1000 else u mod 65536) in 0 < v \<and> v = getuid)"
  by (simp add: packet_owner_def Let_def u16_less_iff uint_uint16_of)

text \<open>
  The traffic of the process itself is left out of the statistics exactly when its uid
  fits what the code compares: 1 to 65535 for TCP, 1 to 19999 for UDP.  Under a secondary
  user the process counts its own traffic.
\<close>

theorem own_traffic_uncounted_iff:
  assumes "trafficStats t" and "addr_string (dst_address dest) \<noteq> router t"
  shows "(counted_as (NewConnection_request t u (Inr u) source dest) = None \<longleftrightarrow> 0 < u \<and> u < 65536) \<and>
    (counted_as (NewPacket_request t has_info u (Inr u) source dest) = None \<longleftrightarrow> 0 < u \<and> u \<le> 19999)"
proof -
  have "snd (connection_owner u (Inr u)) \<longleftrightarrow> 0 < u \<and> u < 65536"
    using pos_mod_bound [of 65536 u] unfolding connection_self by auto
  moreover have "snd (packet_owner (debug t) has_info u (Inr u)) \<longleftrightarrow> 0 < u \<and> u \<le> 19999"
    using pos_mod_bound [of 65536 u] unfolding packet_self by (auto simp: Let_def)
  ultimately show ?thesis
    using assms
    by (auto simp: NewConnection_request_def NewPacket_request_def flow_request_of_def Let_def case_prod_beta)
qed

definition sample_tun :: tun2ray where
  "sample_tun = \<lparr>dev = NatDevice, router = ''172.19.0.2'', sniffing = True, overrideDestination = False, debug = False,
     dumps_uid = False, trafficStats = True, pingViaDefault = False\<rparr>"

definition sample_dest :: destination where
  "sample_dest = \<lparr>dst_address = \<lparr>addr_family = FamilyIPv4, addr_ip = Some [93, 184, 216, 34], addr_domain = None,
     addr_string = ''93.184.216.34''\<rparr>, dst_port = 443, dst_network = Network_TCP\<rparr>"

theorem own_traffic_uncounted_iff_witness:
  "counted_as (NewConnection_request sample_tun 1010123 (Inr 1010123) sample_dest sample_dest) \<noteq> None \<and>
   counted_as (NewPacket_request sample_tun (\<lambda>_. True) 10123 (Inr 10123) sample_dest sample_dest) = None"
  using own_traffic_uncounted_iff [of sample_tun sample_dest 1010123]
    own_traffic_uncounted_iff [of sample_tun sample_dest 10123 _ "\<lambda>_. True"]
  by (simp add: sample_tun_def sample_dest_def)

text \<open>
  A flow whose owner the socket table does not know is not left unowned: the \<open>-1\<close> of
  the lookup becomes uid 65535, for the routing tag as for the statistics.
\<close>

theorem unknown_owner_is_65535:
  assumes "addr_ip (dst_address source) = Some ip" and "length ip = 4" and "fs (proc_path source) = None"
    and "trafficStats t" and "addr_string (dst_address dest) \<noteq> router t" and "getuid \<noteq> 65535"
  shows "\<exists>r. dumpUid True (querySocketUidFromProcFs ord g fs) ip_text dumper source dest = Some r \<and>
    counted_as (NewConnection_request t getuid r source dest) = Some 65535 \<and>
    inbound_uid (NewConnection_request t getuid r source dest) = 65535"
proof -
  have "querySocketUidFromProcFs ord g fs source = Some (- 1)"
    using assms(1-3) nativeEndianIP_kernel [of ip ord] by (auto simp: querySocketUidFromProcFs_def)
  moreover have "connection_owner getuid (Inr (- 1)) = (65535, False)"
    using assms(6) uint_connection_owner [of getuid "- 1"] connection_self [of getuid "- 1"]
    by (auto simp: prod_eq_iff uint_eq_iff)
  ultimately show ?thesis
    using assms(4,5) by (simp add: dumpUid_def NewConnection_request_def flow_request_of_def Let_def)
qed

theorem unknown_owner_is_65535_witness:
  "\<exists>r. dumpUid True (querySocketUidFromProcFs LittleEndian \<lparr>netIndexOfLocal = 1, netIndexOfUid = 7\<rparr> Map.empty)
      (\<lambda>_. []) (\<lambda>_ _ _ _ _. Inl ()) sample_dest sample_dest = Some r \<and>
    counted_as (NewConnection_request sample_tun 10050 r sample_dest sample_dest) = Some 65535 \<and>
    inbound_uid (NewConnection_request sample_tun 10050 r sample_dest sample_dest) = 65535"
  by (rule unknown_owner_is_65535 [where ip = "[93, 184, 216, 34]"]) (simp_all add: sample_tun_def sample_dest_def)

text \<open>
  The relay writes back exactly the answers read before the first read error, up to and
  including the first one whose write fails; for the DNS server their source is left out.
\<close>

theorem relay_writes_answers:
  "relay isDns rs =
    (let got = takeWhile (\<lambda>r. fst r \<noteq> None) rs;
         out = map (\<lambda>r. map_prod id (\<lambda>a. if isDns then None else a) (the (fst r))) got
     in take (Suc (length (takeWhile snd got))) out)"
proof (induction isDns rs rule: relay.induct)
  case (3 isDns p a ok rs)
  then show ?case by (auto simp: Let_def)
qed (simp_all add: Let_def)

end
