(* ===== verification/TunTable.thy ===== *)
theory TunTable
  imports Prelude
begin

text \<open>
  The UDP and ping session tables of \<open>tun.go\<close>: \<open>NewPacket\<close> and \<open>NewPingPacket\<close> run once per
  inbound packet, each call in a goroutine of its own, and share \<open>udpTable\<close>, \<open>lockTable\<close> and
  the condition variables stored in \<open>lockTable\<close>.  A thread is a program counter with the
  locals that outlive a statement; every access to shared state is one step.  What the
  scheduler, the network and the peer decide is a \<open>choice\<close>, so a schedule is a list of pairs
  of a thread and a choice, and \<open>run\<close> computes the state it leads to.

  The per-application accounting between the dial and the store is \<open>AppStats\<close>.
\<close>

section \<open>Threads\<close>

text \<open>What follows a write: return from the call, unlock \<open>cond.L\<close>, or the end of \<open>go sendTo()\<close>.\<close>

datatype after = ThenReturn | ThenUnlock nat | ThenEnd

text \<open>The statement a thread executes next; \<open>c\<close> is its condition variable, \<open>n\<close> its connection.\<close>

datatype pc =
    LoadTable                    \<comment> \<open>\<open>sendTo()\<close>: \<open>udpTable.Load\<close>\<close>
  | WriteTo nat after            \<comment> \<open>\<open>sendTo()\<close>: \<open>conn.writeTo\<close>, \<open>conn.Close\<close> when it fails\<close>
  | LockEntry                    \<comment> \<open>\<open>lockTable.LoadOrStore\<close>\<close>
  | EnterWait nat                \<comment> \<open>\<open>cond.L.Lock()\<close>, \<open>cond.Wait()\<close> up to the point where it sleeps\<close>
  | Waiting nat                  \<comment> \<open>asleep in \<open>cond.Wait()\<close>\<close>
  | Woken nat                    \<comment> \<open>notified, to take \<open>cond.L\<close> again\<close>
  | SendHolding nat              \<comment> \<open>\<open>sendTo()\<close> of a waiter\<close>
  | UnlockL nat                  \<comment> \<open>\<open>cond.L.Unlock()\<close>\<close>
  | RunCloser                    \<comment> \<open>\<open>comm.CloseIgnore(closer)\<close> before an early return\<close>
  | Dial nat                     \<comment> \<open>\<open>dialUDP\<close>; for a ping \<open>PickRoute\<close> and \<open>handleUDP\<close>\<close>
  | StoreTable nat nat           \<comment> \<open>\<open>udpTable.Store\<close>\<close>
  | Spawn nat nat                \<comment> \<open>\<open>go sendTo()\<close>; for a ping also the reader\<close>
  | DeleteLock nat "nat option"  \<comment> \<open>\<open>lockTable.Delete\<close>\<close>
  | Broadcast nat "nat option"   \<comment> \<open>\<open>cond.Broadcast()\<close>\<close>
  | Relay nat                    \<comment> \<open>\<open>readFrom\<close> and \<open>writeBack\<close>\<close>
  | CloseAfter                   \<comment> \<open>\<open>comm.CloseIgnore(closer)\<close> after the relay loop\<close>
  | DeleteTable                  \<comment> \<open>\<open>udpTable.Delete\<close>\<close>
  | GoSend                       \<comment> \<open>\<open>go sendTo()\<close>: \<open>udpTable.Load\<close>\<close>
  | Returned
  | DialFailed nat               \<comment> \<open>the return after a failed \<open>dialUDP\<close>\<close>

record thread =
  key :: string
  ping :: bool
  pc :: pc
  sent :: "nat option"
  closer_runs :: nat

record state =
  udpTable :: "string \<rightharpoonup> nat"
  lockTable :: "string \<rightharpoonup> nat"
  held :: "nat \<rightharpoonup> nat"
  closedConns :: "nat list"
  threads :: "nat \<rightharpoonup> thread"
  next_id :: nat

definition init :: state where
  "init = \<lparr>udpTable = Map.empty, lockTable = Map.empty, held = Map.empty, closedConns = [],
     threads = Map.empty, next_id = 0\<rparr>"

text \<open>What a step is told from outside: whether the operation succeeds.\<close>

datatype choice = Ok | Fail

section \<open>One step of a thread\<close>

definition goto :: "nat \<Rightarrow> thread \<Rightarrow> pc \<Rightarrow> state \<Rightarrow> state" where
  "goto t th p s = s\<lparr>threads := (threads s)(t \<mapsto> th\<lparr>pc := p\<rparr>)\<rparr>"

definition wake_all :: "nat \<Rightarrow> (nat \<rightharpoonup> thread) \<Rightarrow> (nat \<rightharpoonup> thread)" where
  "wake_all c T t = map_option (\<lambda>th. if pc th = Waiting c then th\<lparr>pc := Woken c\<rparr> else th) (T t)"

definition after_pc :: "after \<Rightarrow> pc" where
  "after_pc a = (case a of ThenReturn \<Rightarrow> RunCloser | ThenUnlock c \<Rightarrow> UnlockL c | ThenEnd \<Rightarrow> Returned)"

text \<open>A goroutine started by a call: it works on the same key, as thread \<open>next_id\<close>.\<close>

definition spawn :: "thread \<Rightarrow> pc \<Rightarrow> state \<Rightarrow> state" where
  "spawn th p s = s\<lparr>threads := (threads s)(next_id s \<mapsto>
     \<lparr>key = key th, ping = ping th, pc = p, sent = None, closer_runs = 0\<rparr>), next_id := Suc (next_id s)\<rparr>"

text \<open>
  The part both functions start with: \<open>sendTo\<close>, \<open>LoadOrStore\<close>, waiting; and the goroutine
  \<open>go sendTo()\<close>.
\<close>

definition find_session :: "choice \<Rightarrow> nat \<Rightarrow> thread \<Rightarrow> state \<Rightarrow> state option" where
  "find_session ch t th s = (case pc th of
     LoadTable \<Rightarrow>
       Some (goto t th (case udpTable s (key th) of Some n \<Rightarrow> WriteTo n ThenReturn | None \<Rightarrow> LockEntry) s)
   | WriteTo n a \<Rightarrow>
       Some (if ch = Ok \<and> n \<notin> set (closedConns s)
             then goto t (th\<lparr>sent := Some n\<rparr>) (after_pc a) s
             else goto t th (after_pc a) (s\<lparr>closedConns := n # closedConns s\<rparr>))
   | LockEntry \<Rightarrow>
       Some (case lockTable s (key th) of
               Some c \<Rightarrow> goto t th (EnterWait c) s
             | None \<Rightarrow> goto t th (Dial (next_id s))
                 (s\<lparr>lockTable := (lockTable s)(key th \<mapsto> next_id s), next_id := Suc (next_id s)\<rparr>))
   | EnterWait c \<Rightarrow> if held s c = None then Some (goto t th (Waiting c) s) else None
   | Woken c \<Rightarrow> if held s c = None then Some (goto t th (SendHolding c) (s\<lparr>held := (held s)(c \<mapsto> t)\<rparr>)) else None
   | SendHolding c \<Rightarrow>
       Some (goto t th (case udpTable s (key th) of Some n \<Rightarrow> WriteTo n (ThenUnlock c) | None \<Rightarrow> UnlockL c) s)
   | UnlockL c \<Rightarrow> Some (goto t th RunCloser (s\<lparr>held := (held s)(c := None)\<rparr>))
   | RunCloser \<Rightarrow> Some (goto t (th\<lparr>closer_runs := Suc (closer_runs th)\<rparr>) Returned s)
   | GoSend \<Rightarrow>
       Some (goto t th (case udpTable s (key th) of Some n \<Rightarrow> WriteTo n ThenEnd | None \<Rightarrow> Returned) s)
   | _ \<Rightarrow> None)"

text \<open>
  The rest of \<open>NewPacket\<close> for the goroutine that sets the session up.  After a failed
  \<open>dialUDP\<close> it returns at once; otherwise it stores the session, lets the waiters go and
  relays the answers.
\<close>

definition NewPacket_setup :: "choice \<Rightarrow> nat \<Rightarrow> thread \<Rightarrow> state \<Rightarrow> state option" where
  "NewPacket_setup ch t th s = (case pc th of
     Dial c \<Rightarrow>
       Some (if ch = Ok then goto t th (StoreTable c (next_id s)) (s\<lparr>next_id := Suc (next_id s)\<rparr>)
             else goto t th (DialFailed c) s)
   | StoreTable c n \<Rightarrow> Some (goto t th (Spawn c n) (s\<lparr>udpTable := (udpTable s)(key th \<mapsto> n)\<rparr>))
   | Spawn c n \<Rightarrow> Some (spawn th GoSend (goto t th (DeleteLock c (Some n)) s))
   | DeleteLock c m \<Rightarrow> Some (goto t th (Broadcast c m) (s\<lparr>lockTable := (lockTable s)(key th := None)\<rparr>))
   | Broadcast c m \<Rightarrow>
       Some (goto t th (case m of Some n \<Rightarrow> Relay n | None \<Rightarrow> Returned) (s\<lparr>threads := wake_all c (threads s)\<rparr>))
   | Relay n \<Rightarrow> Some (goto t th (if ch = Ok then Relay n else CloseAfter) s)
   | CloseAfter \<Rightarrow> Some (goto t (th\<lparr>closer_runs := Suc (closer_runs th)\<rparr>) DeleteTable s)
   | DeleteTable \<Rightarrow> Some (goto t th Returned (s\<lparr>udpTable := (udpTable s)(key th := None)\<rparr>))
   | _ \<Rightarrow> None)"

text \<open>
  The rest of \<open>NewPingPacket\<close>: \<open>ch\<close> is whether there is an outbound (\<open>handleUDP\<close> itself
  does not fail).  The lock entry is deleted and the broadcast made by a deferred function
  on every return, and the answers are relayed by a goroutine of its own.
\<close>

definition NewPingPacket_setup :: "choice \<Rightarrow> nat \<Rightarrow> thread \<Rightarrow> state \<Rightarrow> state option" where
  "NewPingPacket_setup ch t th s = (case pc th of
     Dial c \<Rightarrow>
       Some (if ch = Ok then goto t th (StoreTable c (next_id s)) (s\<lparr>next_id := Suc (next_id s)\<rparr>)
             else goto t th (DeleteLock c None) s)
   | StoreTable c n \<Rightarrow> Some (goto t th (Spawn c n) (s\<lparr>udpTable := (udpTable s)(key th \<mapsto> n)\<rparr>))
   | Spawn c n \<Rightarrow> Some (spawn th (Relay n) (spawn th GoSend (goto t th (DeleteLock c None) s)))
   | DeleteLock c m \<Rightarrow> Some (goto t th (Broadcast c m) (s\<lparr>lockTable := (lockTable s)(key th := None)\<rparr>))
   | Broadcast c m \<Rightarrow>
       Some (goto t th (case m of Some n \<Rightarrow> Relay n | None \<Rightarrow> Returned) (s\<lparr>threads := wake_all c (threads s)\<rparr>))
   | Relay n \<Rightarrow> Some (goto t th (if ch = Ok then Relay n else CloseAfter) s)
   | CloseAfter \<Rightarrow> Some (goto t (th\<lparr>closer_runs := Suc (closer_runs th)\<rparr>) DeleteTable s)
   | DeleteTable \<Rightarrow> Some (goto t th Returned (s\<lparr>udpTable := (udpTable s)(key th := None)\<rparr>))
   | _ \<Rightarrow> None)"

fun in_setup :: "pc \<Rightarrow> bool" where
  "in_setup (Dial c) = True"
| "in_setup (StoreTable c n) = True"
| "in_setup (Spawn c n) = True"
| "in_setup (DeleteLock c m) = True"
| "in_setup (Broadcast c m) = True"
| "in_setup (Relay n) = True"
| "in_setup CloseAfter = True"
| "in_setup DeleteTable = True"
| "in_setup _ = False"

definition exec :: "choice \<Rightarrow> nat \<Rightarrow> thread \<Rightarrow> state \<Rightarrow> state option" where
  "exec ch t th s =
     (if in_setup (pc th)
      then if ping th then NewPingPacket_setup ch t th s else NewPacket_setup ch t th s
      else find_session ch t th s)"

lemmas exec_unfold = exec_def find_session_def NewPacket_setup_def NewPingPacket_setup_def

text \<open>
  A schedule: a packet arrives (a thread starts), a thread steps, or the time-out or the
  peer closes a connection.
\<close>

datatype event = Packet string | PingPacket string | Step nat choice | ConnClosed nat

definition fire :: "event \<Rightarrow> state \<Rightarrow> state option" where
  "fire e s = (case e of
     Packet k \<Rightarrow> Some (s\<lparr>threads := (threads s)(next_id s \<mapsto>
        \<lparr>key = k, ping = False, pc = LoadTable, sent = None, closer_runs = 0\<rparr>), next_id := Suc (next_id s)\<rparr>)
   | PingPacket k \<Rightarrow> Some (s\<lparr>threads := (threads s)(next_id s \<mapsto>
        \<lparr>key = k, ping = True, pc = LoadTable, sent = None, closer_runs = 0\<rparr>), next_id := Suc (next_id s)\<rparr>)
   | Step t ch \<Rightarrow> (case threads s t of None \<Rightarrow> None | Some th \<Rightarrow> exec ch t th s)
   | ConnClosed n \<Rightarrow> Some (s\<lparr>closedConns := n # closedConns s\<rparr>))"

fun run :: "event list \<Rightarrow> state \<Rightarrow> state option" where
  "run [] s = Some s"
| "run (e # es) s = (case fire e s of None \<Rightarrow> None | Some s' \<Rightarrow> run es s')"

inductive reachable :: "state \<Rightarrow> bool" where
  start: "reachable init"
| step: "reachable s \<Longrightarrow> fire e s = Some s' \<Longrightarrow> reachable s'"

lemma reachable_run: "run es s = Some s' \<Longrightarrow> reachable s \<Longrightarrow> reachable s'"
  by (induction es arbitrary: s) (auto split: option.splits intro: reachable.step)

end
