(* ===== verification/TunLock.thy ===== *)
theory TunLock
  imports TunTable
begin

text \<open>
  The lock protocol of the session tables.  \<open>proto\<close> is its abstract specification: condition
  variables are created fresh, entered in the lock table by the thread that sets a session
  up, taken out by that thread and forgotten after the broadcast.  Every step of the
  program is a step of the protocol or leaves it alone; from that follow the mutual
  exclusion of set-ups and, in the last sections, the executions in which packets hang.
\<close>

section \<open>The protocol and the simulation\<close>

record proto =
  own :: "nat \<rightharpoonup> nat"
  busy :: "nat \<rightharpoonup> string \<times> nat"
  lock :: "string \<rightharpoonup> nat"
  fresh :: nat

inductive proto_step :: "proto \<Rightarrow> proto \<Rightarrow> bool" where
  stutter: "fresh p \<le> n \<Longrightarrow> proto_step p (p\<lparr>fresh := n\<rparr>)"
| acquire: "lock p k = None \<Longrightarrow> own p t = None \<Longrightarrow> busy p t = None \<Longrightarrow>
    proto_step p (p\<lparr>own := (own p)(t \<mapsto> fresh p), busy := (busy p)(t \<mapsto> (k, fresh p)),
      lock := (lock p)(k \<mapsto> fresh p), fresh := Suc (fresh p)\<rparr>)"
| release: "busy p t = Some (k, c) \<Longrightarrow>
    proto_step p (p\<lparr>busy := (busy p)(t := None), lock := (lock p)(k := None)\<rparr>)"
| forget: "busy p t = None \<Longrightarrow> proto_step p (p\<lparr>own := (own p)(t := None)\<rparr>)"

definition proto_inv :: "proto \<Rightarrow> bool" where
  "proto_inv p \<longleftrightarrow>
     (\<forall>t c. own p t = Some c \<longrightarrow> c < fresh p) \<and>
     (\<forall>t t' c. own p t = Some c \<and> own p t' = Some c \<longrightarrow> t = t') \<and>
     (\<forall>t k c. busy p t = Some (k, c) \<longrightarrow> own p t = Some c \<and> lock p k = Some c) \<and>
     (\<forall>k c. lock p k = Some c \<longrightarrow> (\<exists>t. busy p t = Some (k, c)))"

lemma proto_step_inv [step_inv]: "proto_step p q \<Longrightarrow> proto_inv p \<Longrightarrow> proto_inv q"
proof (induction rule: proto_step.induct)
  case (stutter p n)
  then show ?case by (fastforce simp: proto_inv_def)
next
  case (acquire p k t)
  then have fresh_unused: "own p t' \<noteq> Some (fresh p)" for t'
    by (auto simp: proto_inv_def)
  have setup_k: "busy p t' \<noteq> Some (k, c)" for t' c
    using acquire by (auto simp: proto_inv_def)
  show ?case
    using acquire.prems acquire.hyps fresh_unused setup_k unfolding proto_inv_def
    by (auto simp: less_Suc_eq) (metis option.distinct(1))
next
  case (release p t k c)
  then have lock: "lock p k = Some c" "own p t = Some c"
    by (auto simp: proto_inv_def)
  have other: "t' = t" if "busy p t' = Some (k, c')" for t' c'
    using release.prems that lock by (fastforce simp: proto_inv_def)
  have unique: "k' = k \<and> c' = c" if "busy p t = Some (k', c')" for k' c'
    using that release.hyps by simp
  show ?case
    using release.prems other unique unfolding proto_inv_def
    by simp (metis option.inject prod.inject)
next
  case (forget p t)
  then show ?case unfolding proto_inv_def
    by auto
qed

fun owner_of :: "pc \<Rightarrow> nat option" where
  "owner_of (Dial c) = Some c"
| "owner_of (StoreTable c n) = Some c"
| "owner_of (Spawn c n) = Some c"
| "owner_of (DeleteLock c m) = Some c"
| "owner_of (Broadcast c m) = Some c"
| "owner_of (DialFailed c) = Some c"
| "owner_of _ = None"

definition setup_of :: "thread \<Rightarrow> (string \<times> nat) option" where
  "setup_of th = (case pc th of Broadcast c m \<Rightarrow> None | p \<Rightarrow> map_option (Pair (key th)) (owner_of p))"

definition proto_of :: "state \<Rightarrow> proto" where
  "proto_of s = \<lparr>own = (\<lambda>t. Option.bind (threads s t) (\<lambda>th. owner_of (pc th))),
     busy = (\<lambda>t. Option.bind (threads s t) setup_of), lock = lockTable s, fresh = next_id s\<rparr>"

definition thread_ids :: "state \<Rightarrow> bool" where
  "thread_ids s \<longleftrightarrow> (\<forall>t. next_id s \<le> t \<longrightarrow> threads s t = None)"

lemma setup_of_simps [simp]:
  "pc th = Broadcast c m \<Longrightarrow> setup_of th = None"
  "owner_of (pc th) = None \<Longrightarrow> setup_of th = None"
  by (cases "pc th"; simp add: setup_of_def)+


lemma stutterI:
  assumes "own q = own p" "busy q = busy p" "lock q = lock p" "fresh p \<le> fresh q"
  shows "proto_step p q"
proof -
  have "q = p\<lparr>fresh := fresh q\<rparr>"
    using assms(1-3) by simp
  then show ?thesis
    using proto_step.stutter [OF assms(4)] by simp
qed

lemma own_proto_of [simp]: "own (proto_of s) t = Option.bind (threads s t) (\<lambda>th. owner_of (pc th))"
  and busy_proto_of [simp]: "busy (proto_of s) t = Option.bind (threads s t) setup_of"
  and lock_proto_of [simp]: "lock (proto_of s) = lockTable s"
  and fresh_proto_of [simp]: "fresh (proto_of s) = next_id s"
  by (simp_all add: proto_of_def)

lemma own_goto: "own (proto_of (goto t th p s)) = (own (proto_of s))(t := owner_of p)"
  and busy_goto: "busy (proto_of (goto t th p s)) = (busy (proto_of s))(t := setup_of (th\<lparr>pc := p\<rparr>))"
  and lock_goto: "lock (proto_of (goto t th p s)) = lockTable s"
  and fresh_goto: "fresh (proto_of (goto t th p s)) = next_id s"
  by (auto simp: goto_def)

lemma setup_of_wake [simp]: "setup_of (th\<lparr>pc := Woken c\<rparr>) = None"
  by (simp add: setup_of_def)

lemma wake_all_views [simp]:
  "Option.bind (wake_all c T t) (\<lambda>th. owner_of (pc th)) = Option.bind (T t) (\<lambda>th. owner_of (pc th))"
  "Option.bind (wake_all c T t) setup_of = Option.bind (T t) setup_of"
  by (cases "T t"; simp add: wake_all_def)+

lemma spawn_views:
  assumes "owner_of p = None" "thread_ids s"
  shows "own (proto_of (spawn th p s)) = own (proto_of s)" "busy (proto_of (spawn th p s)) = busy (proto_of s)"
  using assms by (auto simp: spawn_def thread_ids_def fun_eq_iff)

lemma thread_ids_goto: "thread_ids s \<Longrightarrow> t < next_id s \<Longrightarrow> thread_ids (goto t th p s)"
  by (auto simp: thread_ids_def goto_def)

lemma exec_thread_ids:
  assumes "exec ch t th s = Some s'" "threads s t = Some th" "thread_ids s"
  shows "thread_ids s'"
proof -
  have "t < next_id s"
    using assms(2,3) by (metis linorder_not_le option.distinct(1) thread_ids_def)
  then show ?thesis
    using assms
    by (cases "pc th")
      (auto simp: exec_unfold goto_def spawn_def thread_ids_def wake_all_def split: if_splits option.splits)
qed


lemma acquireI:
  assumes "lock p k = None" "own p t = None" "busy p t = None" "own q = (own p)(t \<mapsto> fresh p)"
    "busy q = (busy p)(t \<mapsto> (k, fresh p))" "lock q = (lock p)(k \<mapsto> fresh p)" "fresh q = Suc (fresh p)"
  shows "proto_step p q"
proof -
  have "q = p\<lparr>own := (own p)(t \<mapsto> fresh p), busy := (busy p)(t \<mapsto> (k, fresh p)),
      lock := (lock p)(k \<mapsto> fresh p), fresh := Suc (fresh p)\<rparr>"
    using assms(4-7) by simp
  then show ?thesis
    using proto_step.acquire [OF assms(1-3)] by simp
qed

lemma releaseI:
  assumes "busy p t = Some (k, c)" "own q = own p" "busy q = (busy p)(t := None)"
    "lock q = (lock p)(k := None)" "fresh q = fresh p"
  shows "proto_step p q"
proof -
  have "q = p\<lparr>busy := (busy p)(t := None), lock := (lock p)(k := None)\<rparr>"
    using assms(2-5) by simp
  then show ?thesis
    using proto_step.release [OF assms(1)] by simp
qed

lemma forgetI:
  assumes "busy p t = None" "own q = (own p)(t := None)" "busy q = busy p" "lock q = lock p" "fresh q = fresh p"
  shows "proto_step p q"
proof -
  have "q = p\<lparr>own := (own p)(t := None)\<rparr>"
    using assms(2-5) by simp
  then show ?thesis
    using proto_step.forget [OF assms(1)] by simp
qed

lemma thread_ids_spawn: "thread_ids s \<Longrightarrow> thread_ids (spawn th p s)"
  by (auto simp: thread_ids_def spawn_def)

lemma lock_spawn [simp]: "lockTable (spawn th p s) = lockTable s"
  and next_id_spawn [simp]: "next_id (spawn th p s) = Suc (next_id s)"
  and lock_goto' [simp]: "lockTable (goto t th p s) = lockTable s"
  and next_id_goto [simp]: "next_id (goto t th p s) = next_id s"
  by (simp_all add: spawn_def goto_def)

text \<open>Every step of the program is a step of the protocol.\<close>

lemma exec_simulates:
  assumes ex: "exec ch t th s = Some s'" and th: "threads s t = Some th" and ids: "thread_ids s"
  shows "proto_step (proto_of s) (proto_of s')"
proof -
  have less: "t < next_id s"
    using th ids by (metis linorder_not_le option.distinct(1) thread_ids_def)
  note views = own_goto busy_goto lock_goto fresh_goto
  have views_t: "own (proto_of s) t = owner_of (pc th)" "busy (proto_of s) t = setup_of th"
    using th by simp_all
  show ?thesis
  proof (cases "pc th")
    case LockEntry
    show ?thesis
    proof (cases "lockTable s (key th)")
      case None
      then show ?thesis
        using ex th LockEntry
        by (intro acquireI [of _ "key th" t]) (auto simp: exec_unfold goto_def setup_of_def fun_eq_iff)
    next
      case (Some c)
      then show ?thesis
        using ex th LockEntry by (auto simp: exec_unfold setup_of_def fun_eq_iff goto_def intro!: stutterI)
    qed
  next
    case (DeleteLock c m)
    then show ?thesis
      using ex th
      by (intro releaseI [of _ t "key th" c]) (auto simp: exec_unfold goto_def setup_of_def fun_eq_iff split: if_splits)
  next
    case (Broadcast c m)
    then show ?thesis
      using ex th
      by (intro forgetI [of _ t])
        (auto simp: exec_unfold goto_def fun_eq_iff split: option.splits if_splits)
  next
    case (Spawn c n)
    have "threads s (next_id s) = None" "threads s (Suc (next_id s)) = None"
      using ids by (simp_all add: thread_ids_def)
    then show ?thesis
      using ex th less Spawn
      by (auto simp: exec_unfold goto_def spawn_def setup_of_def fun_eq_iff split: if_splits intro!: stutterI)
  next
    case (Dial c)
    then show ?thesis using ex th by (auto simp: exec_unfold setup_of_def fun_eq_iff goto_def split: if_splits intro!: stutterI)
  next
    case (StoreTable c n)
    then show ?thesis using ex th by (auto simp: exec_unfold setup_of_def fun_eq_iff goto_def split: if_splits intro!: stutterI)
  qed (use ex th in \<open>auto simp: exec_unfold setup_of_def fun_eq_iff goto_def after_pc_def split: if_splits option.splits after.splits intro!: stutterI\<close>)
qed


lemma fire_simulates:
  assumes "fire e s = Some s'" "thread_ids s"
  shows "proto_step (proto_of s) (proto_of s') \<and> thread_ids s'"
proof (cases e)
  case (Step t ch)
  then show ?thesis
    using assms exec_simulates exec_thread_ids by (auto simp: fire_def split: option.splits)
next
  case (Packet k)
  then show ?thesis
    using assms by (auto simp: fire_def thread_ids_def fun_eq_iff intro!: stutterI)
next
  case (PingPacket k)
  then show ?thesis
    using assms by (auto simp: fire_def thread_ids_def fun_eq_iff intro!: stutterI)
next
  case (ConnClosed n)
  then show ?thesis
    using assms by (auto simp: fire_def thread_ids_def fun_eq_iff intro!: stutterI)
qed

definition lock_ok :: "state \<Rightarrow> bool" where
  "lock_ok s \<longleftrightarrow> thread_ids s \<and> proto_inv (proto_of s)"

lemma fire_lock_ok [step_inv]: "fire e s = Some s' \<Longrightarrow> lock_ok s \<Longrightarrow> lock_ok s'"
  using fire_simulates [of e s s'] proto_step_inv [of "proto_of s" "proto_of s'"] by (auto simp: lock_ok_def)

lemma run_lock_ok [step_inv]: "run es s = Some s' \<Longrightarrow> lock_ok s \<Longrightarrow> lock_ok s'"
  by (induction es arbitrary: s) (auto split: option.splits dest: fire_lock_ok)

lemma reachable_lock_ok: "reachable s \<Longrightarrow> lock_ok s"
proof (induction rule: reachable.induct)
  case start
  show ?case by (simp add: lock_ok_def thread_ids_def proto_inv_def init_def)
next
  case (step s e s')
  then show ?case using fire_lock_ok by blast
qed

lemma lock_ok_unique_owner:
  "lock_ok s \<Longrightarrow> threads s t = Some th \<Longrightarrow> threads s t' = Some th' \<Longrightarrow>
   owner_of (pc th) = Some c \<Longrightarrow> owner_of (pc th') = Some c \<Longrightarrow> t = t'"
  unfolding lock_ok_def proto_inv_def
  by (metis bind.bind_lunit own_proto_of)

lemma lock_ok_setup:
  "lock_ok s \<Longrightarrow> threads s t = Some th \<Longrightarrow> setup_of th = Some (k, c) \<Longrightarrow> lockTable s k = Some c \<and> owner_of (pc th) = Some c"
  unfolding lock_ok_def proto_inv_def
  by (metis bind.bind_lunit own_proto_of busy_proto_of lock_proto_of)

lemma lock_ok_entry:
  assumes "lock_ok s" "lockTable s k = Some c"
  shows "\<exists>t th. threads s t = Some th \<and> setup_of th = Some (k, c)"
proof -
  obtain t where "busy (proto_of s) t = Some (k, c)"
    using assms unfolding lock_ok_def proto_inv_def by (metis lock_proto_of)
  then show ?thesis by (cases "threads s t") auto
qed

lemma lock_ok_fresh:
  "lock_ok s \<Longrightarrow> threads s t = Some th \<Longrightarrow> owner_of (pc th) = Some c \<Longrightarrow> c < next_id s"
  unfolding lock_ok_def proto_inv_def by (metis bind.bind_lunit fresh_proto_of own_proto_of)



text \<open>A state with a set-up in progress, and a second packet of the source waiting for it.\<close>

definition setup_trace :: "event list" where
  "setup_trace = [Packet ''a'', Step 0 Ok, Packet ''a'', Step 1 Ok, Step 0 Ok, Step 1 Ok, Step 1 Ok]"

lemma run_init_reachable: "run es init = Some s \<Longrightarrow> reachable s"
  by (rule reachable_run [OF _ reachable.start])

lemmas exec_defs = fire_def exec_unfold goto_def spawn_def wake_all_def after_pc_def init_def


section \<open>A failed dial blocks the key\<close>

definition dial_dead :: "string \<Rightarrow> nat \<Rightarrow> state \<Rightarrow> bool" where
  "dial_dead k c s \<longleftrightarrow> udpTable s k = None \<and> (\<exists>t th. threads s t = Some th \<and> key th = k \<and> pc th = DialFailed c)"

text \<open>A thread of the key that has delivered nothing and can at most go to sleep.\<close>

fun held_up :: "nat \<Rightarrow> thread \<Rightarrow> bool" where
  "held_up c th = (case pc th of LoadTable \<Rightarrow> True | LockEntry \<Rightarrow> True | EnterWait c' \<Rightarrow> c' = c | Waiting c' \<Rightarrow> c' = c
     | _ \<Rightarrow> False)"

text \<open>What a dead key forbids the thread that steps.\<close>

lemma dial_dead_facts:
  assumes "lock_ok s" "dial_dead k c s" "threads s t = Some th"
  shows "lockTable s k = Some c"
    and "pc th = StoreTable c' n \<Longrightarrow> key th \<noteq> k"
    and "pc th = Broadcast c' m \<Longrightarrow> c' \<noteq> c"
proof -
  obtain t0 th0 where t0: "threads s t0 = Some th0" "key th0 = k" "pc th0 = DialFailed c"
    using assms(2) by (auto simp: dial_dead_def)
  then show lock: "lockTable s k = Some c"
    using lock_ok_setup [OF assms(1) t0(1), of k c] by (simp add: setup_of_def)
  have same: "th = th0" if "owner_of (pc th) = Some c"
    using lock_ok_unique_owner [OF assms(1) assms(3) t0(1) that] assms(3) t0 by simp
  show "c' \<noteq> c" if "pc th = Broadcast c' m"
    using that same t0 by auto
  show "key th \<noteq> k" if "pc th = StoreTable c' n"
  proof
    assume "key th = k"
    then have "lockTable s k = Some c'"
      using lock_ok_setup [OF assms(1,3), of k c'] that by (simp add: setup_of_def)
    then show False
      using same that lock t0 by simp
  qed
qed

lemma exec_dial_dead:
  assumes ok: "lock_ok s" and dead: "dial_dead k c s" and th: "threads s t = Some th" and ex: "exec ch t th s = Some s'"
  shows "udpTable s' k = None"
    and "\<And>u v. threads s u = Some v \<Longrightarrow> u \<noteq> t \<Longrightarrow> key v = k \<Longrightarrow> pc v = DialFailed c \<or> held_up c v \<Longrightarrow> threads s' u = Some v"
    and "key th = k \<Longrightarrow> held_up c th \<Longrightarrow> \<exists>v. threads s' t = Some v \<and> key v = k \<and> held_up c v \<and> sent v = sent th \<and>
           closer_runs v = closer_runs th"
proof -
  note facts = dial_dead_facts [OF ok dead th]
  have none: "udpTable s k = None" using dead by (simp add: dial_dead_def)
  show "udpTable s' k = None"
    using ex none facts(2)
    by (cases "pc th") (auto simp: exec_defs split: if_splits option.splits)
  show "key th = k \<Longrightarrow> held_up c th \<Longrightarrow> \<exists>v. threads s' t = Some v \<and> key v = k \<and> held_up c v \<and> sent v = sent th \<and>
           closer_runs v = closer_runs th"
    using ex none facts(1)
    by (cases "pc th") (auto simp: exec_defs split: if_splits option.splits)
  show "threads s' u = Some v" if "threads s u = Some v" "u \<noteq> t" "key v = k" "pc v = DialFailed c \<or> held_up c v" for u v
  proof -
    have "u < next_id s"
      using ok that(1) by (metis linorder_not_le lock_ok_def option.distinct(1) thread_ids_def)
    then show ?thesis
      using ex that facts(3)
      by (cases "pc th") (auto simp: exec_defs split: if_splits option.splits)
  qed
qed


definition held_as :: "string \<Rightarrow> nat \<Rightarrow> nat \<Rightarrow> thread \<Rightarrow> state \<Rightarrow> bool" where
  "held_as k c t th s \<longleftrightarrow> (\<exists>v. threads s t = Some v \<and> key v = k \<and> held_up c v \<and> sent v = sent th \<and>
     closer_runs v = closer_runs th)"

lemma fire_dial_dead:
  assumes ok: "lock_ok s" and dead: "dial_dead k c s" and e: "fire e s = Some s'"
  shows "dial_dead k c s' \<and> (held_as k c t th s \<longrightarrow> held_as k c t th s')"
proof (cases "\<exists>u ch. e = Step u ch")
  case True
  then obtain u ch v where u: "threads s u = Some v" "exec ch u v s = Some s'"
    using e by (auto simp: fire_def split: option.splits)
  note facts = exec_dial_dead [OF ok dead u]
  obtain t0 th0 where t0: "threads s t0 = Some th0" "key th0 = k" "pc th0 = DialFailed c"
    using dead by (auto simp: dial_dead_def)
  then have "t0 \<noteq> u"
    using u by (auto simp: exec_unfold)
  then have "threads s' t0 = Some th0"
    using facts(2) [of t0 th0] t0 by simp
  then have "dial_dead k c s'"
    using facts(1) t0 by (auto simp: dial_dead_def)
  moreover have "held_as k c t th s'" if held: "held_as k c t th s"
  proof -
    obtain w where w: "threads s t = Some w" "key w = k" "held_up c w" "sent w = sent th" "closer_runs w = closer_runs th"
      using held by (auto simp: held_as_def)
    show ?thesis
    proof (cases "t = u")
      case True
      then show ?thesis
        using facts(3) w u by (auto simp: held_as_def)
    next
      case False
      then have "threads s' t = Some w"
        using facts(2) [of t w] w by simp
      then show ?thesis
        using w unfolding held_as_def by blast
    qed
  qed
  ultimately show ?thesis by blast
next
  case False
  have other: "threads s' u = threads s u" if "threads s u \<noteq> None" for u
    using e ok that False by (cases e) (auto simp: fire_def lock_ok_def thread_ids_def)
  moreover have "udpTable s' = udpTable s"
    using e False by (cases e) (auto simp: fire_def)
  ultimately show ?thesis
    using dead by (fastforce simp: dial_dead_def held_as_def)
qed

lemma run_dial_dead:
  "run es s = Some s' \<Longrightarrow> lock_ok s \<Longrightarrow> dial_dead k c s \<Longrightarrow> held_as k c t th s \<Longrightarrow>
   dial_dead k c s' \<and> held_as k c t th s'"
proof (induction es arbitrary: s)
  case (Cons e es)
  then obtain s1 where "fire e s = Some s1" "run es s1 = Some s'"
    by (auto split: option.splits)
  with Cons fire_dial_dead [OF Cons.prems(2,3), of e s1 t th] fire_lock_ok [of e s s1] show ?case by blast
qed simp

text \<open>
  C1.  A failed dial blocks its source for good.  Once \<open>dialUDP\<close> has failed for a packet of a
  source that has no session, every packet of the source that is at the start of its call
  or waits for the set-up stays there in every continuation: it is never sent, its closer
  never runs, and no session is ever set up for the source.
\<close>

theorem failed_dial_blocks_source:
  assumes "reachable s" and "dial_dead k c s"
    and "threads s t = Some th" and "key th = k" and "held_up c th"
    and "run es s = Some s'"
  shows "udpTable s' k = None \<and>
    (\<exists>th'. threads s' t = Some th' \<and> held_up c th' \<and> sent th' = sent th \<and> closer_runs th' = closer_runs th)"
  using run_dial_dead [OF assms(6) reachable_lock_ok [OF assms(1)] assms(2), of t th] assms(3-5)
  by (auto simp: dial_dead_def held_as_def simp del: held_up.simps)

text \<open>One packet whose dial fails, then two more of the same source, fully scheduled.\<close>

definition dead_trace :: "event list" where
  "dead_trace = [Packet ''a'', Step 0 Ok, Step 0 Ok, Step 0 Fail, Packet ''a'']"

theorem failed_dial_blocks_source_witness:
  "\<exists>s s'. run dead_trace init = Some s \<and> run [Step 2 Ok, Step 2 Ok, Step 2 Ok] s = Some s' \<and>
     udpTable s' ''a'' = None \<and> (\<exists>th'. threads s' 2 = Some th' \<and> held_up 1 th' \<and> sent th' = None \<and> closer_runs th' = 0)"
proof -
  obtain s where s: "run dead_trace init = Some s" "dial_dead ''a'' 1 s"
    "threads s 2 = Some \<lparr>key = ''a'', ping = False, pc = LoadTable, sent = None, closer_runs = 0\<rparr>"
    "\<exists>s'. run [Step 2 Ok, Step 2 Ok, Step 2 Ok] s = Some s'"
    by (simp add: dead_trace_def exec_defs dial_dead_def)
  then obtain s' where "run [Step 2 Ok, Step 2 Ok, Step 2 Ok] s = Some s'" by blast
  with failed_dial_blocks_source [OF run_init_reachable [OF s(1)] s(2,3) _ _ this] show ?thesis
    using s(1) by auto
qed


section \<open>Lost wake-ups\<close>

text \<open>The condition variable is in use, but no thread will ever broadcast on it again.\<close>

definition forgotten :: "nat \<Rightarrow> state \<Rightarrow> bool" where
  "forgotten c s \<longleftrightarrow> c < next_id s \<and> (\<forall>t. own (proto_of s) t \<noteq> Some c)"

lemma proto_step_forgotten:
  "proto_step p q \<Longrightarrow> c < fresh p \<Longrightarrow> (\<And>t. own p t \<noteq> Some c) \<Longrightarrow> c < fresh q \<and> (\<forall>t. own q t \<noteq> Some c)"
  by (induction rule: proto_step.induct) auto

lemma fire_forgotten: "fire e s = Some s' \<Longrightarrow> lock_ok s \<Longrightarrow> forgotten c s \<Longrightarrow> forgotten c s'"
  using proto_step_forgotten [of "proto_of s" "proto_of s'" c] fire_simulates [of e s s']
  unfolding forgotten_def lock_ok_def by simp

fun on_cond :: "nat \<Rightarrow> thread \<Rightarrow> bool" where
  "on_cond c th = (case pc th of EnterWait c' \<Rightarrow> c' = c | Waiting c' \<Rightarrow> c' = c | _ \<Rightarrow> False)"

definition asleep_as :: "nat \<Rightarrow> nat \<Rightarrow> thread \<Rightarrow> state \<Rightarrow> bool" where
  "asleep_as c t th s \<longleftrightarrow> (\<exists>v. threads s t = Some v \<and> on_cond c v \<and> key v = key th \<and> sent v = sent th \<and>
     closer_runs v = closer_runs th)"

lemma fire_asleep:
  assumes ok: "lock_ok s" and gone: "forgotten c s" and e: "fire e s = Some s'" and asleep: "asleep_as c t th s"
  shows "asleep_as c t th s'"
proof -
  obtain w where w: "threads s t = Some w" "on_cond c w" "key w = key th" "sent w = sent th" "closer_runs w = closer_runs th"
    using asleep by (auto simp: asleep_as_def)
  then have less: "t < next_id s"
    using ok by (metis linorder_not_le lock_ok_def option.distinct(1) thread_ids_def)
  have not_c: "owner_of (pc v) \<noteq> Some c" if "threads s u = Some v" for u v
    using gone that unfolding forgotten_def by (metis bind.bind_lunit own_proto_of)
  have "\<exists>v. threads s' t = Some v \<and> on_cond c v \<and> key v = key w \<and> sent v = sent w \<and> closer_runs v = closer_runs w"
  proof (cases e)
    case (Step u ch)
    then obtain v where u: "threads s u = Some v" "exec ch u v s = Some s'"
      using e by (auto simp: fire_def split: option.splits)
    show ?thesis
    proof (cases "u = t")
      case True
      then show ?thesis
        using u w by (cases "pc w") (auto simp: exec_defs split: if_splits)
    next
      case False
      then show ?thesis
        using u w less not_c [OF u(1)]
        by (cases "pc v") (auto simp: exec_defs split: if_splits option.splits)
    qed
  qed (use e w less in \<open>auto simp: fire_def\<close>)
  then show ?thesis
    using w unfolding asleep_as_def by metis
qed

lemma run_asleep:
  "run es s = Some s' \<Longrightarrow> lock_ok s \<Longrightarrow> forgotten c s \<Longrightarrow> asleep_as c t th s \<Longrightarrow> asleep_as c t th s'"
proof (induction es arbitrary: s)
  case (Cons e es)
  then obtain s1 where "fire e s = Some s1" "run es s1 = Some s'"
    by (auto split: option.splits)
  with Cons fire_asleep [OF Cons.prems(2,3), of e s1 t th] fire_lock_ok [of e s s1] fire_forgotten [of e s s1 c]
  show ?case by blast
qed simp

text \<open>
  C25.  A wake-up can be lost.  A packet that found the lock entry but reaches \<open>cond.Wait\<close>
  after the broadcast sleeps in every continuation, unsent and with its closer not run: the
  condition it waits for is not tested under \<open>cond.L\<close>, and nobody broadcasts again.
\<close>

theorem lost_wakeup_hangs:
  assumes "reachable s" and "forgotten c s"
    and "threads s t = Some th" and "on_cond c th"
    and "run es s = Some s'"
  shows "\<exists>th'. threads s' t = Some th' \<and> on_cond c th' \<and> sent th' = sent th \<and> closer_runs th' = closer_runs th"
  using run_asleep [OF assms(5) reachable_lock_ok [OF assms(1)] assms(2), of t th] assms(3,4)
  by (auto simp: asleep_as_def simp del: on_cond.simps)

text \<open>The owner sets the session up and broadcasts between the second packet's \<open>LoadOrStore\<close> and its \<open>Wait\<close>.\<close>

definition lost_trace :: "event list" where
  "lost_trace = [Packet ''a'', Packet ''a'', Step 0 Ok, Step 1 Ok, Step 0 Ok, Step 1 Ok,
     Step 0 Ok, Step 0 Ok, Step 0 Ok, Step 0 Ok, Step 0 Ok, Step 1 Ok]"

theorem lost_wakeup_hangs_witness:
  "\<exists>s. run lost_trace init = Some s \<and> udpTable s ''a'' = Some 3 \<and> closedConns s = [] \<and>
     (\<exists>s' th'. run [Step 4 Ok, Step 4 Ok] s = Some s' \<and> threads s' 1 = Some th' \<and> on_cond 2 th' \<and> sent th' = None)"
proof -
  obtain s where s: "run lost_trace init = Some s" "udpTable s ''a'' = Some 3" "closedConns s = []"
    "threads s 1 = Some \<lparr>key = ''a'', ping = False, pc = Waiting 2, sent = None, closer_runs = 0\<rparr>"
    "forgotten 2 s" "\<exists>s'. run [Step 4 Ok, Step 4 Ok] s = Some s'"
    by (simp add: lost_trace_def exec_defs forgotten_def)
  then obtain s' where "run [Step 4 Ok, Step 4 Ok] s = Some s'" by blast
  with lost_wakeup_hangs [OF run_init_reachable [OF s(1)] s(5,4) _ this] show ?thesis
    using s by auto
qed

section \<open>An orphaned session\<close>

text \<open>
  Packet 1 misses the table just before packet 0 stores its session, and looks for the lock
  entry just after packet 0 deleted it: it sets up a second session for the key.  When the
  first connection ends, its goroutine deletes the entry of the second.
\<close>

definition orphan_trace :: "event list" where
  "orphan_trace = [Packet ''a'', Packet ''a'', Step 0 Ok, Step 1 Ok, Step 0 Ok,
     Step 0 Ok, Step 0 Ok, Step 0 Ok, Step 0 Ok, Step 0 Ok,
     Step 1 Ok, Step 1 Ok, Step 1 Ok, Step 1 Ok, Step 1 Ok, Step 1 Ok,
     ConnClosed 3, Step 0 Fail, Step 0 Ok, Step 0 Ok]"

text \<open>
  Two sessions of one source can exist at once, and the end of the older one takes the
  younger one, whose connection is open and whose reader runs, out of the table.
\<close>

theorem older_session_orphans_younger:
  "\<exists>s th. run orphan_trace init = Some s \<and> threads s 1 = Some th \<and> pc th = Relay 6 \<and> key th = ''a'' \<and>
     6 \<notin> set (closedConns s) \<and> udpTable s ''a'' = None"
  by (simp add: orphan_trace_def exec_defs)

end
