(* ===== verification/TunIsolation.thy ===== *)
theory TunIsolation
  imports TunLock
begin

text \<open>
  The sessions of the table keep the sources apart, however the handlers of \<open>NewPacket\<close> and
  \<open>NewPingPacket\<close> interleave: packets that leave through one connection, and the goroutine that
  relays its answers, belong to one key.
\<close>

section \<open>Connections and their keys\<close>

text \<open>The connections a thread is about to use or has used.\<close>

fun pc_conns :: "pc \<Rightarrow> nat set" where
  "pc_conns (WriteTo n a) = {n}"
| "pc_conns (StoreTable c n) = {n}"
| "pc_conns (Spawn c n) = {n}"
| "pc_conns (DeleteLock c m) = set_option m"
| "pc_conns (Broadcast c m) = set_option m"
| "pc_conns (Relay n) = {n}"
| "pc_conns p = {}"

definition conns :: "thread \<Rightarrow> nat set" where
  "conns th = pc_conns (pc th) \<union> set_option (sent th)"

text \<open>\<open>f\<close> gives the key a connection was dialled for; identities are not used twice.\<close>

definition keyed :: "(nat \<Rightarrow> string) \<Rightarrow> state \<Rightarrow> bool" where
  "keyed f s \<longleftrightarrow>
     (\<forall>k n. udpTable s k = Some n \<longrightarrow> f n = k \<and> n < next_id s) \<and>
     (\<forall>t th n. threads s t = Some th \<longrightarrow> n \<in> conns th \<longrightarrow> f n = key th \<and> n < next_id s)"

lemma keyed_init: "keyed f init"
  by (simp add: keyed_def init_def)

lemma keyed_unshared [simp]:
  "keyed f (s\<lparr>lockTable := l\<rparr>) = keyed f s" "keyed f (s\<lparr>held := h\<rparr>) = keyed f s" "keyed f (s\<lparr>closedConns := c\<rparr>) = keyed f s"
  by (simp_all add: keyed_def)

text \<open>What the steps do: a thread moves, an identity is drawn, a thread starts, sleepers wake.\<close>

lemma keyed_goto:
  assumes "keyed f s" and "\<And>n. n \<in> pc_conns p \<union> set_option (sent th) \<Longrightarrow> f n = key th \<and> n < next_id s"
  shows "keyed f (goto t th p s)"
  using assms by (auto simp: keyed_def goto_def conns_def)

lemma keyed_fresh: "keyed f s \<Longrightarrow> keyed (f(next_id s := k)) (s\<lparr>next_id := Suc (next_id s)\<rparr>)"
  unfolding keyed_def by (fastforce simp: less_Suc_eq)

lemma keyed_spawn:
  assumes "keyed f s" and "\<And>n. n \<in> pc_conns p \<Longrightarrow> f n = key th \<and> n < next_id s"
  shows "keyed f (spawn th p s)"
  using assms by (auto simp: keyed_def spawn_def conns_def less_SucI)

lemma keyed_wake: "keyed f s \<Longrightarrow> keyed f (s\<lparr>threads := wake_all c (threads s)\<rparr>)"
  by (auto simp: keyed_def wake_all_def conns_def split: if_splits)

lemma keyed_entry: "keyed f s \<Longrightarrow> f n = k \<Longrightarrow> n < next_id s \<Longrightarrow> keyed f (s\<lparr>udpTable := (udpTable s)(k \<mapsto> n)\<rparr>)"
  by (auto simp: keyed_def)

lemma keyed_forget: "keyed f s \<Longrightarrow> keyed f (s\<lparr>udpTable := (udpTable s)(k := None)\<rparr>)"
  by (auto simp: keyed_def)

lemma keyed_thread:
  assumes "keyed f s" "threads s t = Some th" "n \<in> conns th"
  shows "f n = key th" "n < next_id s"
  using assms by (auto simp: keyed_def)

lemma keyed_table:
  assumes "keyed f s" "udpTable s k = Some n"
  shows "f n = k" "n < next_id s"
  using assms by (auto simp: keyed_def)


lemma pc_conns_after [simp]: "pc_conns (after_pc a) = {}"
  by (cases a) (simp_all add: after_pc_def)

section \<open>The invariant\<close>

lemma find_session_keyed:
  assumes k: "keyed f s" "threads s t = Some th" and step: "find_session ch t th s = Some s'"
  shows "\<exists>g. keyed g s'"
proof (cases "pc th")
  case LockEntry
  have own: "\<And>n. n \<in> set_option (sent th) \<Longrightarrow> f n = key th \<and> n < next_id s"
    using k by (auto simp: keyed_def conns_def)
  show ?thesis
  proof (cases "lockTable s (key th)")
    case None
    let ?s = "s\<lparr>lockTable := (lockTable s)(key th \<mapsto> next_id s), next_id := Suc (next_id s)\<rparr>"
    have "keyed (f(next_id s := key th)) ?s"
      using keyed_fresh [where s = "s\<lparr>lockTable := (lockTable s)(key th \<mapsto> next_id s)\<rparr>"] k(1) by simp
    then have "keyed (f(next_id s := key th)) (goto t th (Dial (next_id s)) ?s)"
      by (rule keyed_goto) (use own in auto)
    moreover have "s' = goto t th (Dial (next_id s)) ?s"
      using step LockEntry None by (simp add: find_session_def)
    ultimately show ?thesis by blast
  next
    case (Some c)
    then have "s' = goto t th (EnterWait c) s"
      using step LockEntry by (simp add: find_session_def)
    then show ?thesis using keyed_goto [OF k(1), of "EnterWait c" th t] own by auto
  qed
next
  case (WriteTo n a)
  have own: "\<And>m. m \<in> {n} \<union> set_option (sent th) \<Longrightarrow> f m = key th \<and> m < next_id s"
    using k WriteTo by (fastforce simp: keyed_def conns_def)
  have "keyed f (goto t (th\<lparr>sent := Some n\<rparr>) (after_pc a) s)" "keyed f (goto t th (after_pc a) (s\<lparr>closedConns := n # closedConns s\<rparr>))"
    using own by (auto intro!: keyed_goto k(1))
  then show ?thesis
    using step WriteTo by (auto simp: find_session_def split: if_splits)
next
  case (Woken c)
  have "\<And>n. n \<in> set_option (sent th) \<Longrightarrow> f n = key th \<and> n < next_id s"
    using k by (auto simp: keyed_def conns_def)
  then have "keyed f (goto t th (SendHolding c) (s\<lparr>held := (held s)(c \<mapsto> t)\<rparr>))"
    by (intro keyed_goto) (use k in auto)
  then show ?thesis
    using step Woken by (auto simp: find_session_def split: if_splits)
next
  case (UnlockL c)
  have "\<And>n. n \<in> set_option (sent th) \<Longrightarrow> f n = key th \<and> n < next_id s"
    using k by (auto simp: keyed_def conns_def)
  then have "keyed f (goto t th RunCloser (s\<lparr>held := (held s)(c := None)\<rparr>))"
    by (intro keyed_goto) (use k in auto)
  then show ?thesis
    using step UnlockL by (auto simp: find_session_def)
qed (use k step in \<open>auto simp: find_session_def conns_def dest: keyed_thread keyed_table intro!: exI [of _ f] keyed_goto split: option.splits if_splits\<close>)

lemma setup_keyed:
  assumes k: "keyed f s" "threads s t = Some th"
    and step: "NewPacket_setup ch t th s = Some s' \<or> NewPingPacket_setup ch t th s = Some s'"
  shows "\<exists>g. keyed g s'"
proof -
  have own: "f n = key th \<and> n < next_id s" if "n \<in> conns th" for n
    using keyed_thread [OF k that] by blast
  show ?thesis
  proof (cases "pc th")
    case (Dial c)
    let ?s = "s\<lparr>next_id := Suc (next_id s)\<rparr>"
    have "keyed (f(next_id s := key th)) (goto t th (StoreTable c (next_id s)) ?s)"
      by (rule keyed_goto [OF keyed_fresh [OF k(1)]]) (use own in \<open>auto simp: conns_def intro: less_SucI\<close>)
    moreover have "keyed f (goto t th (DialFailed c) s)" "keyed f (goto t th (DeleteLock c None) s)"
      using own by (auto intro!: keyed_goto k(1) simp: conns_def)
    ultimately show ?thesis
      using step Dial by (auto simp: NewPacket_setup_def NewPingPacket_setup_def split: if_splits)
  next
    case (StoreTable c n)
    then have "keyed f (s\<lparr>udpTable := (udpTable s)(key th \<mapsto> n)\<rparr>)"
      using own [of n] by (intro keyed_entry [OF k(1)]) (simp_all add: conns_def)
    then have "keyed f (goto t th (Spawn c n) (s\<lparr>udpTable := (udpTable s)(key th \<mapsto> n)\<rparr>))"
      by (rule keyed_goto) (use own StoreTable in \<open>auto simp: conns_def\<close>)
    then show ?thesis
      using step StoreTable by (auto simp: NewPacket_setup_def NewPingPacket_setup_def)
  next
    case (Spawn c n)
    have n: "f n = key th" "n < next_id s" using own [of n] Spawn by (simp_all add: conns_def)
    have "keyed f (goto t th (DeleteLock c m) s)" if "set_option m \<subseteq> {n}" for m
      by (rule keyed_goto [OF k(1)]) (use own that n in \<open>auto simp: conns_def\<close>)
    then have one: "keyed f (spawn th GoSend (goto t th (DeleteLock c m) s))" if "set_option m \<subseteq> {n}" for m
      using that by (intro keyed_spawn) auto
    have "keyed f (spawn th (Relay n) (spawn th GoSend (goto t th (DeleteLock c None) s)))"
      by (rule keyed_spawn [OF one]) (use n in \<open>auto simp: spawn_def goto_def\<close>)
    with one [of "Some n"] show ?thesis
      using step Spawn by (auto simp: NewPacket_setup_def NewPingPacket_setup_def)
  next
    case (DeleteLock c m)
    then have "keyed f (goto t th (Broadcast c m) (s\<lparr>lockTable := (lockTable s)(key th := None)\<rparr>))"
      by (intro keyed_goto) (use k own in \<open>auto simp: conns_def\<close>)
    then show ?thesis
      using step DeleteLock by (auto simp: NewPacket_setup_def NewPingPacket_setup_def)
  next
    case (Broadcast c m)
    then have "keyed f (goto t th (case m of Some n \<Rightarrow> Relay n | None \<Rightarrow> Returned) (s\<lparr>threads := wake_all c (threads s)\<rparr>))"
      by (intro keyed_goto keyed_wake k(1)) (use own in \<open>auto simp: conns_def split: option.splits\<close>)
    then show ?thesis
      using step Broadcast by (auto simp: NewPacket_setup_def NewPingPacket_setup_def)
  next
    case (Relay n)
    then have "keyed f (goto t th (if ch = Ok then Relay n else CloseAfter) s)"
      by (intro keyed_goto k(1)) (use own in \<open>auto simp: conns_def split: if_splits\<close>)
    then show ?thesis
      using step Relay by (auto simp: NewPacket_setup_def NewPingPacket_setup_def)
  next
    case CloseAfter
    then have "keyed f (goto t (th\<lparr>closer_runs := Suc (closer_runs th)\<rparr>) DeleteTable s)"
      by (intro keyed_goto k(1)) (use own in \<open>auto simp: conns_def\<close>)
    then show ?thesis
      using step CloseAfter by (auto simp: NewPacket_setup_def NewPingPacket_setup_def)
  next
    case DeleteTable
    then have "keyed f (goto t th Returned (s\<lparr>udpTable := (udpTable s)(key th := None)\<rparr>))"
      by (intro keyed_goto keyed_forget k(1)) (use own in \<open>auto simp: conns_def\<close>)
    then show ?thesis
      using step DeleteTable by (auto simp: NewPacket_setup_def NewPingPacket_setup_def)
  qed (use step in \<open>auto simp: NewPacket_setup_def NewPingPacket_setup_def\<close>)
qed

lemma fire_keyed:
  assumes "keyed f s" and "fire e s = Some s'"
  shows "\<exists>g. keyed g s'"
proof (cases e)
  case (Packet k)
  then show ?thesis
    using assms(2) keyed_spawn [OF assms(1), of LoadTable "\<lparr>key = k, ping = False, pc = LoadTable, sent = None, closer_runs = 0\<rparr>"]
    by (auto simp: fire_def spawn_def)
next
  case (PingPacket k)
  then show ?thesis
    using assms(2) keyed_spawn [OF assms(1), of LoadTable "\<lparr>key = k, ping = True, pc = LoadTable, sent = None, closer_runs = 0\<rparr>"]
    by (auto simp: fire_def spawn_def)
next
  case (Step t ch)
  then obtain th where "threads s t = Some th" "exec ch t th s = Some s'"
    using assms(2) by (auto simp: fire_def split: option.splits)
  then show ?thesis
    using setup_keyed [OF assms(1)] find_session_keyed [OF assms(1)] unfolding exec_def by (metis (full_types))
next
  case (ConnClosed n)
  then show ?thesis using assms by (auto simp: fire_def)
qed

lemma reachable_keyed: "reachable s \<Longrightarrow> \<exists>f. keyed f s"
  by (induction rule: reachable.induct) (use keyed_init fire_keyed in blast)+

section \<open>Property\<close>

text \<open>
  C9.  Whatever the interleaving: a connection a packet left through is used by packets of the
  same source only, or of the same pair of addresses for pings, and so is the goroutine that
  relays its answers; and the table never gives it to another source.
\<close>

theorem sessions_are_isolated:
  assumes "reachable s" and "threads s t = Some th" and "sent th = Some n"
  shows "(\<forall>u uh. threads s u = Some uh \<and> (sent uh = Some n \<or> pc uh = Relay n) \<longrightarrow> key uh = key th) \<and>
     (\<forall>k. udpTable s k = Some n \<longrightarrow> k = key th)"
proof -
  obtain f where f: "keyed f s" using reachable_keyed [OF assms(1)] by blast
  have "f n = key th" using keyed_thread(1) [OF f assms(2), of n] assms(3) by (simp add: conns_def)
  moreover have "f n = key uh" if "threads s u = Some uh" "sent uh = Some n \<or> pc uh = Relay n" for u uh
    using keyed_thread(1) [OF f that(1), of n] that(2) by (auto simp: conns_def)
  moreover have "f n = k" if "udpTable s k = Some n" for k
    using keyed_table(1) [OF f that] .
  ultimately show ?thesis by metis
qed

text \<open>Two sources at once, and a second packet of the first.\<close>

definition isolation_trace :: "event list" where
  "isolation_trace = [Packet ''a'', Step 0 Ok, Step 0 Ok, Step 0 Ok, Step 0 Ok, Step 0 Ok, Step 3 Ok, Step 3 Ok,
     Packet ''b'', Step 4 Ok, Step 4 Ok, Packet ''a'', Step 6 Ok, Step 6 Ok, Step 0 Ok, Step 0 Ok]"

lemma isolation_run:
  "map_option (\<lambda>s. (map_option (\<lambda>th. (pc th, key th)) (threads s 0), map_option sent (threads s 6), map_option pc (threads s 4), udpTable s ''a''))
     (run isolation_trace init) = Some (Some (Relay 2, ''a''), Some (Some 2), Some (Dial 5), Some 2)"
  by (simp add: isolation_trace_def exec_defs)

theorem sessions_are_isolated_witness:
  "\<exists>s th. run isolation_trace init = Some s \<and> threads s 6 = Some th \<and> sent th = Some 2 \<and> key th = ''a''"
proof -
  obtain s th uh where s: "run isolation_trace init = Some s" "threads s 6 = Some th" "sent th = Some 2"
     "threads s 0 = Some uh" "pc uh = Relay 2" "key uh = ''a''"
    using isolation_run by auto
  with sessions_are_isolated [OF run_init_reachable [OF s(1)] s(2,3)] show ?thesis by metis
qed

end
