(* ===== verification/AppStats.thy ===== *)
theory AppStats
  imports Prelude
begin

text \<open>
  \<open>stats.go\<close>: the traffic counters of an application and their export.  A connection
  keeps a pointer to its application's counters, so the counters live in a store and the
  table maps a uid to a store address.  The blocks of \<open>NewConnection\<close> and \<open>NewPacket\<close> that
  open and close a counted connection are here too, one definition per atomic operation
  where the interleaving matters.
\<close>

section \<open>Counters\<close>

record app_stats =
  tcpConn :: u32
  udpConn :: u32
  tcpConnTotal :: u32
  udpConnTotal :: u32
  uplink :: u64
  downlink :: u64
  uplinkTotal :: u64
  downlinkTotal :: u64
  deactivateAt :: int
  connections :: "nat list"

definition zero_stats :: app_stats where
  "zero_stats = \<lparr>tcpConn = 0, udpConn = 0, tcpConnTotal = 0, udpConnTotal = 0, uplink = 0, downlink = 0,
     uplinkTotal = 0, downlinkTotal = 0, deactivateAt = 0, connections = []\<rparr>"

text \<open>The exported record; its fields are signed.\<close>

record exported_stats =
  ex_Uid :: int
  ex_TcpConn :: int
  ex_UdpConn :: int
  ex_TcpConnTotal :: int
  ex_UdpConnTotal :: int
  ex_Uplink :: int
  ex_Downlink :: int
  ex_UplinkTotal :: int
  ex_DownlinkTotal :: int
  ex_DeactivateAt :: int

text \<open>The body of \<open>Range\<close> in \<open>ReadAppTraffics\<close>: \<open>SwapUint64\<close> to zero, \<open>AddUint64\<close> to the total.\<close>

definition export_stats :: "u16 \<Rightarrow> app_stats \<Rightarrow> exported_stats \<times> app_stats" where
  "export_stats uid st =
     (let up = uplink st; upTotal = uplinkTotal st + up;
          down = downlink st; downTotal = downlinkTotal st + down
      in (\<lparr>ex_Uid = uint uid, ex_TcpConn = sint (tcpConn st), ex_UdpConn = sint (udpConn st),
           ex_TcpConnTotal = sint (tcpConnTotal st), ex_UdpConnTotal = sint (udpConnTotal st),
           ex_Uplink = sint up, ex_Downlink = sint down,
           ex_UplinkTotal = sint upTotal, ex_DownlinkTotal = sint downTotal,
           ex_DeactivateAt = int32_of (deactivateAt st)\<rparr>,
          st\<lparr>uplink := 0, uplinkTotal := upTotal, downlink := 0, downlinkTotal := downTotal\<rparr>))"

text \<open>\<open>statsConnWrapper\<close> of a counter.\<close>

definition counter_Value :: "u64 \<Rightarrow> int" where
  "counter_Value c = sint c"

definition counter_Set :: "int \<Rightarrow> u64 \<Rightarrow> int \<times> u64" where
  "counter_Set i c = (counter_Value c, word_of_int i)"

definition counter_Add :: "int \<Rightarrow> u64 \<Rightarrow> int \<times> u64" where
  "counter_Add i c = (0, c + word_of_int i)"

text \<open>\<open>NewStatsCounterConn\<close>: what is read from the device is uplink, what is written to it downlink.\<close>

definition stats_conn_read :: "nat \<Rightarrow> app_stats \<Rightarrow> app_stats" where
  "stats_conn_read n st = st\<lparr>uplink := snd (counter_Add (int n) (uplink st))\<rparr>"

definition stats_conn_write :: "nat \<Rightarrow> app_stats \<Rightarrow> app_stats" where
  "stats_conn_write n st = st\<lparr>downlink := snd (counter_Add (int n) (downlink st))\<rparr>"

section \<open>Opening and closing a counted connection\<close>

definition open_tcp :: "nat \<Rightarrow> app_stats \<Rightarrow> app_stats" where
  "open_tcp conn st = st\<lparr>tcpConn := tcpConn st + 1, tcpConnTotal := tcpConnTotal st + 1, deactivateAt := 0,
     connections := connections st @ [conn]\<rparr>"

definition open_udp :: "nat \<Rightarrow> app_stats \<Rightarrow> app_stats" where
  "open_udp conn st = st\<lparr>udpConn := udpConn st + 1, udpConnTotal := udpConnTotal st + 1, deactivateAt := 0,
     connections := connections st @ [conn]\<rparr>"

text \<open>
  The deferred function in two atomic parts: the decrement with its test, and the store
  of the time, which runs when the test said the application went idle.
\<close>

definition close_tcp_test :: "app_stats \<Rightarrow> bool \<times> app_stats" where
  "close_tcp_test st = (tcpConn st - 1 + udpConn st = 0, st\<lparr>tcpConn := tcpConn st - 1\<rparr>)"

definition close_udp_test :: "app_stats \<Rightarrow> bool \<times> app_stats" where
  "close_udp_test st = (udpConn st - 1 + tcpConn st = 0, st\<lparr>udpConn := udpConn st - 1\<rparr>)"

definition close_mark :: "int \<Rightarrow> bool \<Rightarrow> app_stats \<Rightarrow> app_stats" where
  "close_mark now idle st = (if idle then st\<lparr>deactivateAt := now\<rparr> else st)"

definition close_unlist :: "nat \<Rightarrow> app_stats \<Rightarrow> app_stats" where
  "close_unlist conn st = st\<lparr>connections := remove1 conn (connections st)\<rparr>"

definition close_tcp :: "int \<Rightarrow> nat \<Rightarrow> app_stats \<Rightarrow> app_stats" where
  "close_tcp now conn st = (let (idle, st') = close_tcp_test st in close_unlist conn (close_mark now idle st'))"

definition close_udp :: "int \<Rightarrow> nat \<Rightarrow> app_stats \<Rightarrow> app_stats" where
  "close_udp now conn st = (let (idle, st') = close_udp_test st in close_unlist conn (close_mark now idle st'))"

section \<open>The table\<close>

record stats_table =
  stats_on :: bool
  uids :: "u16 \<rightharpoonup> nat"
  store :: "nat \<Rightarrow> app_stats"
  used :: nat

definition ResetAppTraffics :: "stats_table \<Rightarrow> stats_table" where
  "ResetAppTraffics s = (if stats_on s then s\<lparr>uids := Map.empty\<rparr> else s)"

text \<open>The connections \<open>CloseConnections\<close> closes, in order; the uid is truncated to 16 bits.\<close>

definition CloseConnections :: "int \<Rightarrow> stats_table \<Rightarrow> nat list" where
  "CloseConnections uid s =
     (if stats_on s then (case uids s (uint16_of uid) of None \<Rightarrow> [] | Some a \<Rightarrow> connections (store s a)) else [])"

text \<open>\<open>Range\<close> visits the entries in the order \<open>us\<close>, which the runtime chooses.\<close>

fun ReadAppTraffics_range :: "u16 list \<Rightarrow> stats_table \<Rightarrow> exported_stats list \<times> stats_table" where
  "ReadAppTraffics_range [] s = ([], s)"
| "ReadAppTraffics_range (u # us) s =
     (case uids s u of
        None \<Rightarrow> ReadAppTraffics_range us s
      | Some a \<Rightarrow>
          let (e, st) = export_stats u (store s a);
              (es, s') = ReadAppTraffics_range us (s\<lparr>store := (store s)(a := st)\<rparr>)
          in (e # es, s'))"

definition ReadAppTraffics :: "u16 list \<Rightarrow> stats_table \<Rightarrow> exported_stats list \<times> stats_table" where
  "ReadAppTraffics us s = (if stats_on s then ReadAppTraffics_range us s else ([], s))"

text \<open>Looking an application up and creating its counters, without interference.\<close>

definition acquire_stats :: "u16 \<Rightarrow> stats_table \<Rightarrow> nat \<times> stats_table" where
  "acquire_stats uid s =
     (case uids s uid of
        Some a \<Rightarrow> (a, s)
      | None \<Rightarrow> (used s, s\<lparr>uids := (uids s)(uid \<mapsto> used s), store := (store s)(used s := zero_stats), used := Suc (used s)\<rparr>))"

section \<open>Conservation of traffic\<close>

text \<open>What happens to the counters of one application: bytes pass, or the application reads them.\<close>

datatype traffic = Up nat | Down nat | Report

fun account :: "u16 \<Rightarrow> traffic list \<Rightarrow> app_stats \<Rightarrow> exported_stats list \<times> app_stats" where
  "account uid [] st = ([], st)"
| "account uid (Up n # ts) st = account uid ts (stats_conn_read n st)"
| "account uid (Down n # ts) st = account uid ts (stats_conn_write n st)"
| "account uid (Report # ts) st =
     (let (e, st') = export_stats uid st; (es, st'') = account uid ts st' in (e # es, st''))"

fun bytes_up :: "traffic list \<Rightarrow> nat" where
  "bytes_up [] = 0"
| "bytes_up (Up n # ts) = n + bytes_up ts"
| "bytes_up (_ # ts) = bytes_up ts"

fun bytes_down :: "traffic list \<Rightarrow> nat" where
  "bytes_down [] = 0"
| "bytes_down (Down n # ts) = n + bytes_down ts"
| "bytes_down (_ # ts) = bytes_down ts"

lemma export_stats_words:
  "word_of_int (ex_Uplink (fst (export_stats uid st))) = uplink st"
  "word_of_int (ex_Downlink (fst (export_stats uid st))) = downlink st"
  "uplink (snd (export_stats uid st)) = 0" "downlink (snd (export_stats uid st)) = 0"
  "uplinkTotal (snd (export_stats uid st)) = uplinkTotal st + uplink st"
  "downlinkTotal (snd (export_stats uid st)) = downlinkTotal st + downlink st"
  by (simp_all add: export_stats_def Let_def)

definition reported_up :: "exported_stats list \<Rightarrow> u64" where
  "reported_up es = sum_list (map (\<lambda>e. word_of_int (ex_Uplink e)) es)"

definition reported_down :: "exported_stats list \<Rightarrow> u64" where
  "reported_down es = sum_list (map (\<lambda>e. word_of_int (ex_Downlink e)) es)"

lemma account_Report:
  "account uid (Report # ts) st =
     (fst (export_stats uid st) # fst (account uid ts (snd (export_stats uid st))),
      snd (account uid ts (snd (export_stats uid st))))"
  by (simp add: case_prod_beta Let_def)

lemma account_up:
  "uplink (snd (account uid ts st)) + reported_up (fst (account uid ts st)) = uplink st + of_nat (bytes_up ts) \<and>
   uplinkTotal (snd (account uid ts st)) = uplinkTotal st + reported_up (fst (account uid ts st))"
proof (induction ts arbitrary: st)
  case (Cons t ts)
  show ?case
  proof (cases t)
    case (Up n)
    then show ?thesis
      using Cons.IH [of "stats_conn_read n st"] by (simp add: stats_conn_read_def counter_Add_def add.assoc)
  next
    case (Down n)
    then show ?thesis
      using Cons.IH [of "stats_conn_write n st"] by (simp add: stats_conn_write_def)
  next
    case Report
    show ?thesis
      using Cons.IH [of "snd (export_stats uid st)"] export_stats_words [of uid st]
      unfolding Report account_Report
      by (simp add: reported_up_def add.left_commute add.assoc)
  qed
qed (simp add: reported_up_def)

lemma account_down:
  "downlink (snd (account uid ts st)) + reported_down (fst (account uid ts st)) = downlink st + of_nat (bytes_down ts) \<and>
   downlinkTotal (snd (account uid ts st)) = downlinkTotal st + reported_down (fst (account uid ts st))"
proof (induction ts arbitrary: st)
  case (Cons t ts)
  show ?case
  proof (cases t)
    case (Up n)
    then show ?thesis
      using Cons.IH [of "stats_conn_read n st"] by (simp add: stats_conn_read_def)
  next
    case (Down n)
    then show ?thesis
      using Cons.IH [of "stats_conn_write n st"] by (simp add: stats_conn_write_def counter_Add_def add.assoc)
  next
    case Report
    show ?thesis
      using Cons.IH [of "snd (export_stats uid st)"] export_stats_words [of uid st]
      unfolding Report account_Report
      by (simp add: reported_down_def add.left_commute add.assoc)
  qed
qed (simp add: reported_down_def)

text \<open>
  C17.  No byte is lost or counted twice: whatever the order of transfers and reports, the
  reported uplinks and what is still in the counter add up to the bytes that passed, and
  the running total is the sum of what was reported, all modulo \<open>2^64\<close>; the same holds
  downlink.
\<close>

theorem traffic_is_conserved:
  "let (es, st) = account uid ts zero_stats in
     uplink st + reported_up es = of_nat (bytes_up ts) \<and> uplinkTotal st = reported_up es \<and>
     downlink st + reported_down es = of_nat (bytes_down ts) \<and> downlinkTotal st = reported_down es"
  using account_up [of uid ts zero_stats] account_down [of uid ts zero_stats]
  by (simp add: case_prod_beta Let_def zero_stats_def)

section \<open>Activity\<close>

text \<open>One application's connections as they open and close, each event running alone.\<close>

datatype conn_event = OpenTcp nat | OpenUdp nat | CloseTcp nat int | CloseUdp nat int

fun run_conn :: "conn_event \<Rightarrow> app_stats \<Rightarrow> app_stats" where
  "run_conn (OpenTcp c) = open_tcp c"
| "run_conn (OpenUdp c) = open_udp c"
| "run_conn (CloseTcp c now) = close_tcp now c"
| "run_conn (CloseUdp c now) = close_udp now c"

text \<open>
  The numbers of open TCP and UDP connections after the events; \<open>None\<close> when a close has no
  open connection of its kind or happens at time 0.
\<close>

fun open_conns :: "conn_event list \<Rightarrow> nat \<times> nat \<Rightarrow> (nat \<times> nat) option" where
  "open_conns [] (t, u) = Some (t, u)"
| "open_conns (OpenTcp c # es) (t, u) = open_conns es (Suc t, u)"
| "open_conns (OpenUdp c # es) (t, u) = open_conns es (t, Suc u)"
| "open_conns (CloseTcp c now # es) (t, u) = (if 0 < t \<and> now \<noteq> 0 then open_conns es (t - 1, u) else None)"
| "open_conns (CloseUdp c now # es) (t, u) = (if 0 < u \<and> now \<noteq> 0 then open_conns es (t, u - 1) else None)"

definition active_inv :: "bool \<Rightarrow> nat \<Rightarrow> nat \<Rightarrow> app_stats \<Rightarrow> bool" where
  "active_inv started t u st \<longleftrightarrow> tcpConn st = of_nat t \<and> udpConn st = of_nat u \<and>
     (deactivateAt st = 0 \<longleftrightarrow> 0 < t + u \<or> \<not> started)"

lemma of_nat_u32_eq_0: "n < 2 ^ 32 \<Longrightarrow> (of_nat n :: u32) = 0 \<longleftrightarrow> n = 0"
  using nat_dvd_not_less [of n "2 ^ 32"] by (auto simp: word_of_nat_eq_0_iff)

lemma close_tcp_active:
  assumes "active_inv started t u st" "0 < t" "now \<noteq> 0" "t + u < 2 ^ 32"
  shows "active_inv True (t - 1) u (close_tcp now c st)"
proof -
  have "tcpConn st - 1 = of_nat (t - 1)"
    using assms(1,2) by (simp add: active_inv_def of_nat_diff)
  moreover have "(of_nat (t - 1) + of_nat u :: u32) = 0 \<longleftrightarrow> t - 1 + u = 0"
    using of_nat_u32_eq_0 [of "t - 1 + u"] assms(4) by simp
  ultimately show ?thesis
    using assms
    by (auto simp: active_inv_def close_tcp_def close_tcp_test_def close_mark_def close_unlist_def)
qed

lemma close_udp_active:
  assumes "active_inv started t u st" "0 < u" "now \<noteq> 0" "t + u < 2 ^ 32"
  shows "active_inv True t (u - 1) (close_udp now c st)"
proof -
  have "udpConn st - 1 = of_nat (u - 1)"
    using assms(1,2) by (simp add: active_inv_def of_nat_diff)
  moreover have "(of_nat (u - 1) + of_nat t :: u32) = 0 \<longleftrightarrow> u - 1 + t = 0"
    using of_nat_u32_eq_0 [of "u - 1 + t"] assms(4) by simp
  ultimately show ?thesis
    using assms
    by (auto simp: active_inv_def close_udp_def close_udp_test_def close_mark_def close_unlist_def)
qed

lemma run_conn_active:
  "open_conns es (t, u) = Some (t', u') \<Longrightarrow> active_inv started t u st \<Longrightarrow> t + u + length es < 2 ^ 32 \<Longrightarrow>
   active_inv (started \<or> es \<noteq> []) t' u' (fold run_conn es st)"
proof (induction es arbitrary: t u st started)
  case (Cons e es)
  show ?case
  proof (cases e)
    case (OpenTcp c)
    have "active_inv True (Suc t) u (open_tcp c st)"
      using Cons.prems(2) by (auto simp: active_inv_def open_tcp_def)
    then show ?thesis
      using Cons.IH [of "Suc t" u True "open_tcp c st"] Cons.prems OpenTcp by simp
  next
    case (OpenUdp c)
    have "active_inv True t (Suc u) (open_udp c st)"
      using Cons.prems(2) by (auto simp: active_inv_def open_udp_def)
    then show ?thesis
      using Cons.IH [of t "Suc u" True "open_udp c st"] Cons.prems OpenUdp by simp
  next
    case (CloseTcp c now)
    then have now: "0 < t" "now \<noteq> 0" "open_conns es (t - 1, u) = Some (t', u')"
      using Cons.prems(1) by (auto split: if_splits)
    then have "active_inv True (t - 1) u (close_tcp now c st)"
      using close_tcp_active [OF Cons.prems(2)] Cons.prems(3) by simp
    then show ?thesis
      using Cons.IH [OF now(3), of True "close_tcp now c st"] Cons.prems(3) CloseTcp by simp
  next
    case (CloseUdp c now)
    then have now: "0 < u" "now \<noteq> 0" "open_conns es (t, u - 1) = Some (t', u')"
      using Cons.prems(1) by (auto split: if_splits)
    then have "active_inv True t (u - 1) (close_udp now c st)"
      using close_udp_active [OF Cons.prems(2)] Cons.prems(3) by simp
    then show ?thesis
      using Cons.IH [OF now(3), of True "close_udp now c st"] Cons.prems(3) CloseUdp by simp
  qed
qed simp

text \<open>
  Without interference the counters tell the truth: after any sequence of fewer than
  \<open>2^32\<close> openings and closings the counts are the open connections, and the application is
  marked idle exactly when it had a connection and has none open.
\<close>

theorem activity_is_tracked:
  assumes "open_conns es (0, 0) = Some (t, u)" and "length es < 2 ^ 32" and "st = fold run_conn es zero_stats"
  shows "tcpConn st = of_nat t \<and> udpConn st = of_nat u \<and> (deactivateAt st \<noteq> 0 \<longleftrightarrow> es \<noteq> [] \<and> t + u = 0)"
  using run_conn_active [OF assms(1), of False zero_stats] assms(2,3)
  by (auto simp: active_inv_def zero_stats_def)

theorem activity_is_tracked_witness:
  "deactivateAt (fold run_conn [OpenTcp 1, OpenUdp 2, CloseTcp 1 1700000000, CloseUdp 2 1700000009] zero_stats) \<noteq> 0"
  using activity_is_tracked [of "[OpenTcp 1, OpenUdp 2, CloseTcp 1 1700000000, CloseUdp 2 1700000009]" 0 0, OF _ _ refl]
  by simp

text \<open>
  With interference they do not: when a connection opens between the test of a closing
  one and its store, the application is marked idle while the new connection is open.
\<close>

theorem close_open_race_marks_idle:
  "let st = open_tcp 1 zero_stats; (idle, st) = close_tcp_test st; st = open_tcp 2 st;
       st = close_unlist 1 (close_mark 1700000000 idle st)
   in deactivateAt st \<noteq> 0 \<and> tcpConn st = 1 \<and> connections st = [2]"
  by (simp add: open_tcp_def close_tcp_test_def close_mark_def close_unlist_def zero_stats_def Let_def)

section \<open>Export and reset\<close>

text \<open>The report of a table lists the uids that have counters, each once, with their own counters.\<close>

lemma ReadAppTraffics_range_uids:
  "map ex_Uid (fst (ReadAppTraffics_range us s)) = map uint (filter (\<lambda>u. uids s u \<noteq> None) us)"
  by (induction us arbitrary: s)
    (auto simp: case_prod_beta Let_def export_stats_def split: option.splits)

text \<open>
  After a reset the connections that are still open are invisible: they keep counting
  in counters no report reads and no \<open>CloseConnections\<close> finds, until the application opens a
  new connection, which starts from fresh counters at another address.
\<close>

theorem reset_detaches_open_connections:
  assumes "stats_on s" and "uids s uid = Some a" and "a < used s"
    and "s1 = (ResetAppTraffics s)\<lparr>store := (store s)(a := stats_conn_read n (store s a))\<rparr>"
  shows "fst (ReadAppTraffics us s1) = [] \<and> CloseConnections i s1 = [] \<and>
    (let (b, s2) = acquire_stats uid s1 in b \<noteq> a \<and> store s2 b = zero_stats \<and>
       uplink (store s2 a) = uplink (store s a) + of_nat n)"
proof -
  have "uids s1 = Map.empty"
    using assms(1,4) by (simp add: ResetAppTraffics_def)
  moreover from this have "ReadAppTraffics_range us s1 = ([], s1)"
    by (induction us) auto
  ultimately show ?thesis
    using assms
    by (simp add: ReadAppTraffics_def CloseConnections_def acquire_stats_def ResetAppTraffics_def
        stats_conn_read_def counter_Add_def)
qed

theorem reset_detaches_open_connections_witness:
  "fst (ReadAppTraffics [10050] ((ResetAppTraffics \<lparr>stats_on = True, uids = [10050 \<mapsto> 0], store = (\<lambda>_. open_tcp 1 zero_stats),
      used = 1\<rparr>)\<lparr>store := (\<lambda>_. open_tcp 1 zero_stats)(0 := stats_conn_read 700 (open_tcp 1 zero_stats))\<rparr>)) = []"
  using reset_detaches_open_connections [of "\<lparr>stats_on = True, uids = [10050 \<mapsto> 0],
      store = (\<lambda>_. open_tcp 1 zero_stats), used = 1\<rparr>" 10050 0, OF _ _ _ refl, where n = 700 and us = "[10050]"]
  by simp

end
