(* ===== verification/AppStatsAcquire.thy ===== *)
theory AppStatsAcquire
  imports AppStats
begin

text \<open>
  The block of \<open>NewConnection\<close> and \<open>NewPacket\<close> that finds or creates the counters of a uid,
  with its interleavings: \<open>appStats\<close> and \<open>lockTable\<close> are shared, every access is one step,
  and \<open>ResetAppTraffics\<close> can run at any time.  The block is the same in both functions.
\<close>

section \<open>The block as a machine\<close>

datatype acq_pc =
    AcqLoad                  \<comment> \<open>\<open>appStats.Load\<close>\<close>
  | AcqLock                  \<comment> \<open>\<open>lockTable.LoadOrStore\<close>\<close>
  | AcqEnter nat             \<comment> \<open>\<open>cond.L.Lock()\<close> and \<open>cond.Wait()\<close> up to the sleep\<close>
  | AcqWaiting nat
  | AcqWoken nat             \<comment> \<open>notified, to take \<open>cond.L\<close> again\<close>
  | AcqReload nat            \<comment> \<open>the second \<open>appStats.Load\<close>, and the \<open>panic\<close>\<close>
  | AcqUnlock nat nat
  | AcqStore nat             \<comment> \<open>\<open>stats = &appStats{}\<close> and \<open>appStats.Store\<close>\<close>
  | AcqDelete nat nat        \<comment> \<open>\<open>lockTable.Delete\<close>\<close>
  | AcqBroadcast nat nat     \<comment> \<open>\<open>cond.Broadcast()\<close>\<close>
  | AcqDone nat              \<comment> \<open>the block is left with these counters\<close>
  | AcqPanic                 \<comment> \<open>\<open>panic("unexpected sync read failed")\<close>\<close>

record acq_thread =
  acq_uid :: u16
  acq_pc :: acq_pc

record acq_state =
  acq_stats :: "u16 \<rightharpoonup> nat"
  acq_locks :: "u16 \<rightharpoonup> nat"
  acq_held :: "nat \<rightharpoonup> nat"
  acq_threads :: "nat \<rightharpoonup> acq_thread"
  acq_next :: nat

definition acq_init :: acq_state where
  "acq_init = \<lparr>acq_stats = Map.empty, acq_locks = Map.empty, acq_held = Map.empty, acq_threads = Map.empty, acq_next = 0\<rparr>"

definition acq_goto :: "nat \<Rightarrow> acq_thread \<Rightarrow> acq_pc \<Rightarrow> acq_state \<Rightarrow> acq_state" where
  "acq_goto t th p s = s\<lparr>acq_threads := (acq_threads s)(t \<mapsto> th\<lparr>acq_pc := p\<rparr>)\<rparr>"

definition acq_wake :: "nat \<Rightarrow> (nat \<rightharpoonup> acq_thread) \<Rightarrow> (nat \<rightharpoonup> acq_thread)" where
  "acq_wake c T t = map_option (\<lambda>th. if acq_pc th = AcqWaiting c then th\<lparr>acq_pc := AcqWoken c\<rparr> else th) (T t)"

definition acq_exec :: "nat \<Rightarrow> acq_thread \<Rightarrow> acq_state \<Rightarrow> acq_state option" where
  "acq_exec t th s = (case acq_pc th of
     AcqLoad \<Rightarrow> Some (acq_goto t th (case acq_stats s (acq_uid th) of Some a \<Rightarrow> AcqDone a | None \<Rightarrow> AcqLock) s)
   | AcqLock \<Rightarrow>
       Some (case acq_locks s (acq_uid th) of
               Some c \<Rightarrow> acq_goto t th (AcqEnter c) s
             | None \<Rightarrow> acq_goto t th (AcqStore (acq_next s))
                 (s\<lparr>acq_locks := (acq_locks s)(acq_uid th \<mapsto> acq_next s), acq_next := Suc (acq_next s)\<rparr>))
   | AcqEnter c \<Rightarrow> if acq_held s c = None then Some (acq_goto t th (AcqWaiting c) s) else None
   | AcqWaiting c \<Rightarrow> None
   | AcqWoken c \<Rightarrow> if acq_held s c = None
       then Some (acq_goto t th (AcqReload c) (s\<lparr>acq_held := (acq_held s)(c \<mapsto> t)\<rparr>)) else None
   | AcqReload c \<Rightarrow>
       Some (acq_goto t th (case acq_stats s (acq_uid th) of Some a \<Rightarrow> AcqUnlock c a | None \<Rightarrow> AcqPanic) s)
   | AcqUnlock c a \<Rightarrow> Some (acq_goto t th (AcqDone a) (s\<lparr>acq_held := (acq_held s)(c := None)\<rparr>))
   | AcqStore c \<Rightarrow>
       Some (acq_goto t th (AcqDelete c (acq_next s))
         (s\<lparr>acq_stats := (acq_stats s)(acq_uid th \<mapsto> acq_next s), acq_next := Suc (acq_next s)\<rparr>))
   | AcqDelete c a \<Rightarrow> Some (acq_goto t th (AcqBroadcast c a) (s\<lparr>acq_locks := (acq_locks s)(acq_uid th := None)\<rparr>))
   | AcqBroadcast c a \<Rightarrow> Some (acq_goto t th (AcqDone a) (s\<lparr>acq_threads := acq_wake c (acq_threads s)\<rparr>))
   | AcqDone a \<Rightarrow> None
   | AcqPanic \<Rightarrow> None)"

datatype acq_event = AcqFlow u16 | AcqStep nat | AcqReset

definition acq_fire :: "acq_event \<Rightarrow> acq_state \<Rightarrow> acq_state option" where
  "acq_fire e s = (case e of
     AcqFlow u \<Rightarrow> Some (s\<lparr>acq_threads := (acq_threads s)(acq_next s \<mapsto> \<lparr>acq_uid = u, acq_pc = AcqLoad\<rparr>),
        acq_next := Suc (acq_next s)\<rparr>)
   | AcqStep t \<Rightarrow> (case acq_threads s t of None \<Rightarrow> None | Some th \<Rightarrow> acq_exec t th s)
   | AcqReset \<Rightarrow> Some (s\<lparr>acq_stats := Map.empty\<rparr>))"

fun acq_run :: "acq_event list \<Rightarrow> acq_state \<Rightarrow> acq_state option" where
  "acq_run [] s = Some s"
| "acq_run (e # es) s = (case acq_fire e s of None \<Rightarrow> None | Some s' \<Rightarrow> acq_run es s')"

lemmas acq_defs = acq_fire_def acq_exec_def acq_goto_def acq_wake_def acq_init_def

section \<open>No panic without a reset\<close>

fun cond_of :: "acq_pc \<Rightarrow> nat option" where
  "cond_of (AcqEnter c) = Some c"
| "cond_of (AcqWaiting c) = Some c"
| "cond_of (AcqStore c) = Some c"
| "cond_of (AcqDelete c a) = Some c"
| "cond_of (AcqBroadcast c a) = Some c"
| "cond_of _ = None"

text \<open>Statements that rely on the entry being in the table.\<close>

fun needs_entry :: "acq_pc \<Rightarrow> bool" where
  "needs_entry (AcqWoken c) = True"
| "needs_entry (AcqReload c) = True"
| "needs_entry (AcqDelete c a) = True"
| "needs_entry (AcqBroadcast c a) = True"
| "needs_entry _ = False"

text \<open>\<open>K\<close> assigns every condition variable in use the uid it was made for.\<close>

definition thread_fine :: "(nat \<rightharpoonup> u16) \<Rightarrow> (u16 \<rightharpoonup> nat) \<Rightarrow> acq_thread \<Rightarrow> bool" where
  "thread_fine K S th \<longleftrightarrow> (\<forall>c. cond_of (acq_pc th) = Some c \<longrightarrow> K c = Some (acq_uid th)) \<and>
     (needs_entry (acq_pc th) \<longrightarrow> S (acq_uid th) \<noteq> None) \<and> acq_pc th \<noteq> AcqPanic"

definition acq_inv :: "(nat \<rightharpoonup> u16) \<Rightarrow> acq_state \<Rightarrow> bool" where
  "acq_inv K s \<longleftrightarrow>
     (\<forall>c. acq_next s \<le> c \<longrightarrow> K c = None) \<and>
     (\<forall>u c. acq_locks s u = Some c \<longrightarrow> K c = Some u) \<and>
     (\<forall>t th. acq_threads s t = Some th \<longrightarrow> thread_fine K (acq_stats s) th)"

lemma thread_fine_mono:
  "thread_fine K S th \<Longrightarrow> K \<subseteq>\<^sub>m K' \<Longrightarrow> dom S \<subseteq> dom S' \<Longrightarrow> thread_fine K' S' th"
  unfolding thread_fine_def map_le_def by (metis domIff domI subsetD)

text \<open>A step that only moves thread \<open>t\<close> keeps the invariant when the thread is fine where it gets.\<close>

lemma acq_inv_move:
  assumes "acq_inv K s" and "acq_threads s' = (acq_threads s)(t \<mapsto> th')" and "thread_fine K' (acq_stats s') th'"
    and "K \<subseteq>\<^sub>m K'" and "dom (acq_stats s) \<subseteq> dom (acq_stats s')"
    and "\<And>c. acq_next s' \<le> c \<Longrightarrow> K' c = None" and "\<And>u c. acq_locks s' u = Some c \<Longrightarrow> K' c = Some u"
  shows "acq_inv K' s'"
  using assms thread_fine_mono [OF _ assms(4,5)] unfolding acq_inv_def
  by (auto split: if_splits)

lemma acq_exec_inv:
  assumes ex: "acq_exec t th s = Some s'" and th: "acq_threads s t = Some th" and inv: "acq_inv K s"
  shows "\<exists>K'. acq_inv K' s'"
proof -
  have fine: "thread_fine K (acq_stats s) th"
    using inv th by (auto simp: acq_inv_def)
  have unused: "K c = None" if "acq_next s \<le> c" for c
    using inv that by (simp add: acq_inv_def)
  have locks: "K c = Some u" if "acq_locks s u = Some c" for u c
    using inv that by (simp add: acq_inv_def)
  note move = acq_inv_move [OF inv, of s' t]
  show ?thesis
  proof (cases "acq_pc th")
    case AcqLock
    show ?thesis
    proof (cases "acq_locks s (acq_uid th)")
      case None
      then show ?thesis
        using ex AcqLock fine unused locks
        by (intro exI [of _ "K(acq_next s \<mapsto> acq_uid th)"] move [of "th\<lparr>acq_pc := AcqStore (acq_next s)\<rparr>"])
          (fastforce simp: acq_defs thread_fine_def map_le_def split: if_splits)+
    next
      case (Some c)
      then show ?thesis
        using ex AcqLock fine unused locks
        by (intro exI [of _ K] move [of "th\<lparr>acq_pc := AcqEnter c\<rparr>"]) (auto simp: acq_defs thread_fine_def)
    qed
  next
    case (AcqBroadcast c a)
    define s1 where "s1 = s\<lparr>acq_threads := acq_wake c (acq_threads s)\<rparr>"
    have "thread_fine K (acq_stats s) v" if "acq_wake c (acq_threads s) u = Some v" for u v
    proof -
      have "\<exists>w. acq_threads s u = Some w \<and> v = (if acq_pc w = AcqWaiting c then w\<lparr>acq_pc := AcqWoken c\<rparr> else w)"
        using that by (auto simp: acq_wake_def)
      then obtain w where w: "acq_threads s u = Some w"
        "v = (if acq_pc w = AcqWaiting c then w\<lparr>acq_pc := AcqWoken c\<rparr> else w)" by blast
      then have "thread_fine K (acq_stats s) w"
        using inv by (auto simp: acq_inv_def)
      then show ?thesis
        using w(2) fine AcqBroadcast by (auto simp: thread_fine_def)
    qed
    then have "acq_inv K s1"
      using inv by (auto simp: acq_inv_def s1_def)
    from acq_inv_move [OF this, of s' t "th\<lparr>acq_pc := AcqDone a\<rparr>" K] show ?thesis
      using ex AcqBroadcast fine unused locks
      by (intro exI [of _ K]) (auto simp: acq_defs s1_def thread_fine_def)
  next
    case (AcqStore c)
    then show ?thesis
      using ex fine unused locks
      by (intro exI [of _ K] move [of "th\<lparr>acq_pc := AcqDelete c (acq_next s)\<rparr>"]) (auto simp: acq_defs thread_fine_def)
  next
    case (AcqDelete c a)
    then show ?thesis
      using ex fine unused locks
      by (intro exI [of _ K] move [of "th\<lparr>acq_pc := AcqBroadcast c a\<rparr>"]) (auto simp: acq_defs thread_fine_def split: if_splits)
  qed (use ex fine unused locks in \<open>auto simp: acq_defs thread_fine_def split: if_splits option.splits
         intro!: exI [of _ K] acq_inv_move [OF inv]\<close>)
qed


lemma acq_fire_inv:
  assumes "acq_fire e s = Some s'" "e \<noteq> AcqReset" "acq_inv K s"
  shows "\<exists>K'. acq_inv K' s'"
proof (cases e)
  case (AcqFlow u)
  then have "acq_inv K s'"
    using assms by (auto simp: acq_fire_def acq_inv_def thread_fine_def split: if_splits)
  then show ?thesis by blast
qed (use assms acq_exec_inv in \<open>auto simp: acq_fire_def split: option.splits\<close>)

lemma acq_run_inv: "acq_run es s = Some s' \<Longrightarrow> AcqReset \<notin> set es \<Longrightarrow> acq_inv K s \<Longrightarrow> \<exists>K'. acq_inv K' s'"
proof (induction es arbitrary: s K)
  case (Cons e es)
  then obtain s1 where s1: "acq_fire e s = Some s1" "acq_run es s1 = Some s'"
    by (auto split: option.splits)
  then obtain K1 where "acq_inv K1 s1"
    using acq_fire_inv Cons.prems by fastforce
  with Cons.IH [OF s1(2)] Cons.prems show ?case by simp
qed auto

text \<open>
  C27.  As long as nobody resets the statistics, no schedule of any number of flows reaches
  the \<open>panic\<close> of the second lookup: a waiter is woken only after the counters of its own uid
  were stored.
\<close>

theorem no_panic_without_reset:
  assumes "acq_run es acq_init = Some s" and "AcqReset \<notin> set es"
  shows "\<nexists>t th. acq_threads s t = Some th \<and> acq_pc th = AcqPanic"
proof -
  have "acq_inv Map.empty acq_init"
    by (simp add: acq_inv_def acq_init_def)
  then obtain K where "acq_inv K s"
    using acq_run_inv [OF assms] by blast
  then show ?thesis
    by (auto simp: acq_inv_def thread_fine_def)
qed

text \<open>Two flows of uid 10050; the second waits for the first and both end with the same counters.\<close>

definition share_trace :: "acq_event list" where
  "share_trace = [AcqFlow 10050, AcqFlow 10050, AcqStep 0, AcqStep 1, AcqStep 0, AcqStep 1, AcqStep 1,
     AcqStep 0, AcqStep 0, AcqStep 0, AcqStep 1, AcqStep 1, AcqStep 1]"

theorem no_panic_without_reset_witness:
  "\<exists>s. acq_run share_trace acq_init = Some s \<and> acq_threads s 1 = Some \<lparr>acq_uid = 10050, acq_pc = AcqDone 3\<rparr> \<and>
     (\<nexists>t th. acq_threads s t = Some th \<and> acq_pc th = AcqPanic)"
proof -
  obtain s where s: "acq_run share_trace acq_init = Some s"
    "acq_threads s 1 = Some \<lparr>acq_uid = 10050, acq_pc = AcqDone 3\<rparr>"
    by (simp add: share_trace_def acq_defs)
  moreover have "AcqReset \<notin> set share_trace"
    by (simp add: share_trace_def)
  ultimately show ?thesis
    using no_panic_without_reset [OF s(1)] by blast
qed

text \<open>
  Two races the block allows.  A reset between a waiter's wake-up and its second lookup
  crashes the process; and two first flows of one application can end up with two
  different sets of counters, of which the table keeps only the second, so the first flow
  is missing from every report.
\<close>

theorem acquire_races:
  "(\<exists>s. acq_run [AcqFlow 10050, AcqFlow 10050, AcqStep 0, AcqStep 1, AcqStep 0, AcqStep 1, AcqStep 1,
        AcqStep 0, AcqStep 0, AcqStep 0, AcqStep 1, AcqReset, AcqStep 1] acq_init = Some s \<and>
      acq_threads s 1 = Some \<lparr>acq_uid = 10050, acq_pc = AcqPanic\<rparr>) \<and>
   (\<exists>s. acq_run [AcqFlow 10050, AcqFlow 10050, AcqStep 0, AcqStep 1, AcqStep 0, AcqStep 0, AcqStep 0, AcqStep 0,
        AcqStep 1, AcqStep 1, AcqStep 1, AcqStep 1] acq_init = Some s \<and>
      acq_threads s 0 = Some \<lparr>acq_uid = 10050, acq_pc = AcqDone 3\<rparr> \<and>
      acq_threads s 1 = Some \<lparr>acq_uid = 10050, acq_pc = AcqDone 5\<rparr> \<and> acq_stats s 10050 = Some 5)"
  by (simp add: acq_defs)

end
