(* ===== verification/DispatcherConn.thy ===== *)
theory DispatcherConn
  imports Net
begin

text \<open>
  \<open>dispatcherConn\<close> of \<open>v2ray.go\<close> (a packet connection over the core's link), the
  \<open>packetConn\<close> interface of \<open>io.go\<close> as a locale, and \<open>statsPacketConn\<close> of \<open>stats.go\<close>, which
  wraps one.  Where Go's \<open>select\<close> has several ready cases the runtime picks one; the pick is
  an argument.
\<close>

section \<open>The connection\<close>

record packet =
  pk_payload :: bytes
  pk_source :: destination

text \<open>What a multi buffer holds: a payload and its end point, if it has one.\<close>

record buffer =
  bf_bytes :: bytes
  bf_endpoint :: "destination option"

record dispatcher_conn =
  conn_dest :: destination
  cache :: "packet list"
  cache_closed :: bool
  ctx_done :: bool
  conn_closed :: bool
  link_interrupted :: bool
  written :: "buffer list"
  timer_updates :: nat

definition cache_cap :: nat where "cache_cap = 16"

text \<open>The connection \<open>dialUDP\<close> and \<open>handleUDP\<close> build.\<close>

definition new_conn :: "destination \<Rightarrow> dispatcher_conn" where
  "new_conn dest = \<lparr>conn_dest = dest, cache = [], cache_closed = False, ctx_done = False, conn_closed = False,
     link_interrupted = False, written = [], timer_updates = 0\<rparr>"

text \<open>\<open>close(c.cache)\<close> of a closed channel panics.\<close>

definition close_chan :: "dispatcher_conn \<Rightarrow> dispatcher_conn go" where
  "close_chan c = (if cache_closed c then panic else Some (c\<lparr>cache_closed := True\<rparr>))"

definition conn_Close :: "dispatcher_conn \<Rightarrow> dispatcher_conn go" where
  "conn_Close c =
     (if conn_closed c then Some c
      else close_chan (c\<lparr>conn_closed := True, ctx_done := True, link_interrupted := True\<rparr>))"

section \<open>Input\<close>

text \<open>\<open>net.AnyIP\<close> is the zero IPv4 address.\<close>

definition AnyIP :: address where
  "AnyIP = \<lparr>addr_family = FamilyIPv4, addr_ip = Some [0, 0, 0, 0], addr_domain = None, addr_string = ''0.0.0.0''\<rparr>"

definition packet_of :: "dispatcher_conn \<Rightarrow> buffer \<Rightarrow> packet" where
  "packet_of c b =
     (let source = (case bf_endpoint b of None \<Rightarrow> conn_dest c | Some e \<Rightarrow> e)
      in \<lparr>pk_payload = bf_bytes b,
          pk_source = (if addr_family (dst_address source) = FamilyDomain then source\<lparr>dst_address := AnyIP\<rparr> else source)\<rparr>)"

text \<open>
  The \<open>select\<close> of \<open>handleInput\<close>: a send is ready when the channel has room and also when it
  is closed, and then it panics; \<open>pick\<close> says whether a ready send wins against a done context.
\<close>

definition offer :: "bool \<Rightarrow> packet \<Rightarrow> dispatcher_conn \<Rightarrow> dispatcher_conn go" where
  "offer pick p c =
     (let send_ready = (cache_closed c \<or> length (cache c) < cache_cap)
      in if send_ready \<and> (\<not> ctx_done c \<or> pick)
         then if cache_closed c then panic else Some (c\<lparr>cache := cache c @ [p]\<rparr>)
         else Some c)"

fun handle_batch :: "(bool \<times> buffer) list \<Rightarrow> dispatcher_conn \<Rightarrow> dispatcher_conn go" where
  "handle_batch [] c = Some c"
| "handle_batch ((pick, b) # bs) c =
     (if bf_bytes b = [] then handle_batch bs c
      else do { c' \<leftarrow> offer pick (packet_of c b) c; handle_batch bs c' })"

text \<open>
  \<open>handleInput\<close> over what the link's reader answers; an error, or a done context before a
  read, ends it through the deferred \<open>Close\<close>.  The flag says that it ended.
\<close>

fun handleInput :: "(bool \<times> buffer) list option list \<Rightarrow> dispatcher_conn \<Rightarrow> (bool \<times> dispatcher_conn) go" where
  "handleInput [] c = (if ctx_done c then map_option (Pair True) (conn_Close c) else Some (False, c))"
| "handleInput (r # rs) c =
     (if ctx_done c then map_option (Pair True) (conn_Close c)
      else case r of
        None \<Rightarrow> map_option (Pair True) (conn_Close c)
      | Some mb \<Rightarrow> do {
          c' \<leftarrow> handle_batch mb (c\<lparr>timer_updates := Suc (timer_updates c)\<rparr>);
          handleInput rs c'
        })"

section \<open>Reading and writing\<close>

datatype 's read_result = Got bytes "bytes go \<times> u16" 's | EOF | Blocks | Crash

definition udp_source :: "packet \<Rightarrow> bytes go \<times> u16" where
  "udp_source p = (addr_ip (dst_address (pk_source p)), dst_port (pk_source p))"

definition conn_readFrom :: "bool \<Rightarrow> dispatcher_conn \<Rightarrow> dispatcher_conn read_result" where
  "conn_readFrom pick c =
     (let recv_ready = (cache c \<noteq> [] \<or> cache_closed c)
      in if recv_ready \<and> (\<not> ctx_done c \<or> pick) then
           (case cache c of
              p # ps \<Rightarrow> Got (pk_payload p) (udp_source p) (c\<lparr>cache := ps\<rparr>)
            | [] \<Rightarrow> EOF)
         else if ctx_done c then EOF else Blocks)"

text \<open>\<open>ReadFrom\<close> does not look at the second result of the receive; \<open>room\<close> is the length of \<open>p\<close>.\<close>

definition conn_ReadFrom :: "bool \<Rightarrow> nat \<Rightarrow> dispatcher_conn \<Rightarrow> dispatcher_conn read_result" where
  "conn_ReadFrom pick room c =
     (let recv_ready = (cache c \<noteq> [] \<or> cache_closed c)
      in if recv_ready \<and> (\<not> ctx_done c \<or> pick) then
           (case cache c of
              p # ps \<Rightarrow> Got (take room (pk_payload p)) (udp_source p) (c\<lparr>cache := ps\<rparr>)
            | [] \<Rightarrow> Crash)
         else if ctx_done c then EOF else Blocks)"

text \<open>
  \<open>writeTo\<close>; \<open>ok\<close> is whether the link takes the buffer.  The boolean result is success; the
  option is the panic of a failed \<open>Close\<close>.
\<close>

definition conn_writeTo :: "bool \<Rightarrow> bytes \<Rightarrow> destination \<Rightarrow> dispatcher_conn \<Rightarrow> (bool \<times> dispatcher_conn) go" where
  "conn_writeTo ok b endpoint c =
     (if ok then Some (True, c\<lparr>written := written c @ [\<lparr>bf_bytes = b, bf_endpoint = Some endpoint\<rparr>],
                               timer_updates := Suc (timer_updates c)\<rparr>)
      else map_option (Pair False) (conn_Close c))"

text \<open>\<open>WriteTo\<close> copies into a new buffer, which holds \<open>capacity\<close> bytes; the result is \<open>n\<close>.\<close>

definition conn_WriteTo :: "nat \<Rightarrow> bool \<Rightarrow> bytes \<Rightarrow> destination \<Rightarrow> dispatcher_conn \<Rightarrow> (nat option \<times> dispatcher_conn) go" where
  "conn_WriteTo capacity ok p endpoint c =
     map_option (map_prod (\<lambda>good. if good then Some (length p) else None) id) (conn_writeTo ok (take capacity p) endpoint c)"

text \<open>A channel that is closed belongs to a connection that is closed and whose context is done.\<close>

definition conn_ok :: "dispatcher_conn \<Rightarrow> bool" where
  "conn_ok c \<longleftrightarrow> (conn_closed c \<longleftrightarrow> cache_closed c) \<and> (conn_closed c \<longrightarrow> ctx_done c) \<and> length (cache c) \<le> cache_cap"

lemma conn_ok_new: "conn_ok (new_conn d)"
  by (simp add: conn_ok_def new_conn_def)

lemma conn_ok_Close: "conn_ok c \<Longrightarrow> \<exists>c'. conn_Close c = Some c' \<and> conn_ok c' \<and> conn_closed c' \<and> cache c' = cache c"
  by (auto simp: conn_ok_def conn_Close_def close_chan_def)

section \<open>The interface\<close>

text \<open>
  What \<open>packetConn\<close> promises its users, the relay loops of \<open>tun.go\<close>: reading a closed
  connection never blocks and yields only what was queued.
\<close>

locale packet_conn =
  fixes read :: "bool \<Rightarrow> 's \<Rightarrow> 's read_result"
    and close :: "'s \<Rightarrow> 's"
    and ok :: "'s \<Rightarrow> bool"
    and closed :: "'s \<Rightarrow> bool"
    and pending :: "'s \<Rightarrow> nat"
  assumes close_ok: "ok s \<Longrightarrow> ok (close s) \<and> closed (close s) \<and> pending (close s) = pending s"
    and read_closed: "ok s \<Longrightarrow> closed s \<Longrightarrow> read pick s \<noteq> Blocks \<and> read pick s \<noteq> Crash"
    and read_got: "ok s \<Longrightarrow> read pick s = Got p a s' \<Longrightarrow> ok s' \<and> closed s' = closed s \<and> pending s = Suc (pending s')"

text \<open>
  The loop of \<open>NewPacket\<close> and \<open>NewPingPacket\<close> over such a connection: \<open>picks\<close> and \<open>writes\<close> give
  the runtime's picks and whether each write back succeeds.  \<open>Left\<close> is a loop that ended.
\<close>

datatype loop_end = Left | Stuck | OutOfFuel

fun relay_loop :: "(bool \<Rightarrow> 's \<Rightarrow> 's read_result) \<Rightarrow> (nat \<Rightarrow> bool) \<Rightarrow> (nat \<Rightarrow> bool) \<Rightarrow> nat \<Rightarrow> 's \<Rightarrow> bytes list \<times> loop_end" where
  "relay_loop read picks writes 0 s = ([], OutOfFuel)"
| "relay_loop read picks writes (Suc fuel) s =
     (case read (picks fuel) s of
        Got p a s' \<Rightarrow>
          if writes fuel then (case relay_loop read picks writes fuel s' of (ps, e) \<Rightarrow> (p # ps, e)) else ([p], Left)
      | EOF \<Rightarrow> ([], Left)
      | Blocks \<Rightarrow> ([], Stuck)
      | Crash \<Rightarrow> ([], Stuck))"

context packet_conn
begin

lemma relay_loop_ends:
  "ok s \<Longrightarrow> closed s \<Longrightarrow> pending s < fuel \<Longrightarrow>
   snd (relay_loop read picks writes fuel s) = Left \<and> length (fst (relay_loop read picks writes fuel s)) \<le> pending s"
proof (induction fuel arbitrary: s)
  case (Suc fuel)
  show ?case
  proof (cases "read (picks fuel) s")
    case (Got p a s')
    then have "ok s' \<and> closed s' = closed s \<and> pending s = Suc (pending s')"
      using read_got Suc.prems by blast
    with Suc Got show ?thesis
      by (auto simp: case_prod_beta)
  qed (use Suc.prems read_closed in auto)
qed simp

lemma relay_loop_after_close:
  "ok s \<Longrightarrow> pending s < fuel \<Longrightarrow> snd (relay_loop read picks writes fuel (close s)) = Left"
  using relay_loop_ends [of "close s" fuel] close_ok by simp

end

definition closed_conn :: "dispatcher_conn \<Rightarrow> dispatcher_conn" where
  "closed_conn c = (case conn_Close c of Some c' \<Rightarrow> c' | None \<Rightarrow> c)"

interpretation dispatcher: packet_conn conn_readFrom closed_conn conn_ok conn_closed "\<lambda>c. length (cache c)"
proof unfold_locales
  fix c :: dispatcher_conn
  assume "conn_ok c"
  then show "conn_ok (closed_conn c) \<and> conn_closed (closed_conn c) \<and> length (cache (closed_conn c)) = length (cache c)"
    using conn_ok_Close [of c] by (auto simp: closed_conn_def)
next
  fix c :: dispatcher_conn and pick
  assume "conn_ok c" "conn_closed c"
  then show "conn_readFrom pick c \<noteq> Blocks \<and> conn_readFrom pick c \<noteq> Crash"
    by (auto simp: conn_ok_def conn_readFrom_def Let_def split: list.splits)
next
  fix c c' :: dispatcher_conn and pick p a
  assume "conn_ok c" "conn_readFrom pick c = Got p a c'"
  then show "conn_ok c' \<and> conn_closed c' = conn_closed c \<and> length (cache c) = Suc (length (cache c'))"
    by (auto simp: conn_ok_def conn_readFrom_def Let_def split: list.splits if_splits)
qed


section \<open>The counting wrapper\<close>

text \<open>\<open>statsPacketConn\<close>: the inner connection and its two counters, uplink then downlink.\<close>

definition stats_readFrom :: "(bool \<Rightarrow> 's \<Rightarrow> 's read_result) \<Rightarrow> bool \<Rightarrow> 's \<times> u64 \<times> u64 \<Rightarrow> ('s \<times> u64 \<times> u64) read_result" where
  "stats_readFrom read pick st =
     (case st of (s, up, down) \<Rightarrow>
       (case read pick s of
          Got p a s' \<Rightarrow> Got p a (s', up, down + of_nat (length p))
        | EOF \<Rightarrow> EOF
        | Blocks \<Rightarrow> Blocks
        | Crash \<Rightarrow> Crash))"

definition stats_writeTo :: "(bytes \<Rightarrow> destination \<Rightarrow> 's \<Rightarrow> (bool \<times> 's) go) \<Rightarrow> bytes \<Rightarrow> destination \<Rightarrow> 's \<times> u64 \<times> u64
    \<Rightarrow> (bool \<times> 's \<times> u64 \<times> u64) go" where
  "stats_writeTo write b addr st =
     (case st of (s, up, down) \<Rightarrow> do {
        (good, s') \<leftarrow> write b addr s;
        Some (good, s', if good then up + of_nat (length b) else up, down)
      })"

definition stats_Close :: "('s \<Rightarrow> 's) \<Rightarrow> 's \<times> u64 \<times> u64 \<Rightarrow> 's \<times> u64 \<times> u64" where
  "stats_Close close st = map_prod close id st"

context packet_conn
begin

text \<open>The wrapper keeps the promises of what it wraps.\<close>

lemma counted_packet_conn:
  "packet_conn (stats_readFrom read) (stats_Close close) (\<lambda>st. ok (fst st)) (\<lambda>st. closed (fst st)) (\<lambda>st. pending (fst st))"
proof (rule packet_conn.intro)
  fix st :: "'s \<times> u64 \<times> u64"
  assume "ok (fst st)"
  then show "ok (fst (stats_Close close st)) \<and> closed (fst (stats_Close close st)) \<and>
      pending (fst (stats_Close close st)) = pending (fst st)"
    using close_ok by (cases st) (simp add: stats_Close_def)
next
  fix st :: "'s \<times> u64 \<times> u64" and pick
  assume "ok (fst st)" "closed (fst st)"
  then show "stats_readFrom read pick st \<noteq> Blocks \<and> stats_readFrom read pick st \<noteq> Crash"
    using read_closed [of "fst st" pick] by (auto simp: stats_readFrom_def split: prod.split read_result.split)
next
  fix st st' :: "'s \<times> u64 \<times> u64" and pick p a
  assume "ok (fst st)" "stats_readFrom read pick st = Got p a st'"
  then show "ok (fst st') \<and> closed (fst st') = closed (fst st) \<and> pending (fst st) = Suc (pending (fst st'))"
    using read_got [of "fst st" pick p a "fst st'"]
    by (auto simp: stats_readFrom_def split: prod.splits read_result.splits)
qed

text \<open>The relay sees the same answers through the wrapper.\<close>

lemma relay_loop_counted:
  "relay_loop (stats_readFrom read) picks writes fuel (s, up, down) = relay_loop read picks writes fuel s"
  by (induction fuel arbitrary: s up down) (simp_all add: stats_readFrom_def split: read_result.split)

end

interpretation counted: packet_conn "stats_readFrom conn_readFrom" "stats_Close closed_conn" "\<lambda>st. conn_ok (fst st)"
  "\<lambda>st. conn_closed (fst st)" "\<lambda>st. length (cache (fst st))"
  by (rule dispatcher.counted_packet_conn)

section \<open>Properties\<close>

text \<open>A destination for the examples.\<close>

definition dns_server :: destination where
  "dns_server = \<lparr>dst_address = \<lparr>addr_family = FamilyIPv4, addr_ip = Some [8, 8, 8, 8], addr_domain = None,
     addr_string = ''8.8.8.8''\<rparr>, dst_port = 53, dst_network = Network_UDP\<rparr>"

text \<open>
  C18.  Closing a connection ends its relay: once \<open>Close\<close> has run, the read loop, with or
  without the counting wrapper, leaves after at most the queued packets, whatever the
  runtime picks and whatever happens to the writes; both deliver the same packets.
\<close>

theorem relay_ends_after_close:
  assumes "conn_ok c" and "length (cache c) < fuel"
  shows "snd (relay_loop conn_readFrom picks writes fuel (closed_conn c)) = Left \<and>
    relay_loop (stats_readFrom conn_readFrom) picks writes fuel (stats_Close closed_conn (c, up, down)) =
    relay_loop conn_readFrom picks writes fuel (closed_conn c)"
  using dispatcher.relay_loop_after_close [OF assms] dispatcher.relay_loop_counted
  by (simp add: stats_Close_def)

theorem relay_ends_after_close_witness:
  "snd (relay_loop conn_readFrom (\<lambda>_. True) (\<lambda>_. True) 1 (closed_conn (new_conn dns_server))) = Left"
proof -
  have "length (cache (new_conn dns_server)) < 1"
    by (simp add: new_conn_def)
  from relay_ends_after_close [OF conn_ok_new this] show ?thesis by blast
qed

lemma handle_batch_open:
  assumes "\<not> cache_closed c" "\<not> ctx_done c" "length (cache c) \<le> cache_cap"
  shows "handle_batch bs c =
    Some (c\<lparr>cache := take cache_cap (cache c @ map (packet_of c) (filter (\<lambda>b. bf_bytes b \<noteq> []) (map snd bs)))\<rparr>)"
  using assms
proof (induction bs arbitrary: c)
  case (Cons pb bs)
  obtain pick b where pb: "pb = (pick, b)" by force
  have same: "packet_of (c\<lparr>cache := q\<rparr>) = packet_of c" for q
    by (rule ext) (simp add: packet_of_def split: option.split)
  show ?case
  proof (cases "bf_bytes b = [] \<or> length (cache c) = cache_cap")
    case True
    then show ?thesis
      using Cons pb by (auto simp: offer_def)
  next
    case False
    then have "length (cache c) < cache_cap" "bf_bytes b \<noteq> []"
      using Cons.prems by auto
    then show ?thesis
      using Cons.IH [of "c\<lparr>cache := cache c @ [packet_of c b]\<rparr>"] Cons.prems pb same
      by (simp add: offer_def)
  qed
qed simp

text \<open>
  Input never blocks and never exceeds the queue: on an open connection a batch appends
  its non-empty packets in order as long as the queue has room for 16 and drops the rest;
  each carries the sender's end point, the dialled one when the core names none, and the
  zero address in place of a domain.
\<close>

theorem input_fills_queue_in_order:
  assumes "conn_ok c" and "\<not> conn_closed c" and "\<not> ctx_done c"
  shows "handle_batch bs c =
    Some (c\<lparr>cache := take 16 (cache c @ map (packet_of c) (filter (\<lambda>b. bf_bytes b \<noteq> []) (map snd bs)))\<rparr>)"
  using handle_batch_open [of c bs] assms by (simp add: conn_ok_def cache_cap_def)

theorem input_fills_queue_in_order_witness:
  "handle_batch [(True, \<lparr>bf_bytes = [1], bf_endpoint = None\<rparr>), (True, \<lparr>bf_bytes = [], bf_endpoint = None\<rparr>)] (new_conn dns_server) =
   Some ((new_conn dns_server)\<lparr>cache := [packet_of (new_conn dns_server) \<lparr>bf_bytes = [1], bf_endpoint = None\<rparr>]\<rparr>)"
  by (subst input_fills_queue_in_order [OF conn_ok_new]) (simp_all add: new_conn_def)

text \<open>
  Input that races with \<open>Close\<close> crashes: if the connection is closed after a batch was
  read and before it is queued, the process panics exactly when the runtime picks the send
  on the closed channel for some packet of the batch.
\<close>

theorem input_after_close_crashes_iff:
  assumes "conn_ok c"
  shows "handle_batch bs (closed_conn c) = None \<longleftrightarrow> (\<exists>b. (True, b) \<in> set bs \<and> bf_bytes b \<noteq> [])"
proof -
  have closed: "cache_closed (closed_conn c)" "ctx_done (closed_conn c)"
    using conn_ok_Close [OF assms] by (auto simp: closed_conn_def conn_ok_def)
  have "handle_batch bs c' = None \<longleftrightarrow> (\<exists>b. (True, b) \<in> set bs \<and> bf_bytes b \<noteq> [])" if "cache_closed c'" "ctx_done c'" for c'
    using that by (induction bs) (auto simp: offer_def split: if_splits)
  with closed show ?thesis by simp
qed

theorem input_after_close_crashes_iff_witness:
  "handle_batch [(True, \<lparr>bf_bytes = [1], bf_endpoint = None\<rparr>)] (closed_conn (new_conn dns_server)) = None"
  by (subst input_after_close_crashes_iff [OF conn_ok_new]) simp

text \<open>
  After \<open>Close\<close>, \<open>readFrom\<close> hands out what is queued and then reports the end; \<open>ReadFrom\<close>
  dereferences the nil packet of the closed channel when the runtime picks that case.
\<close>

theorem read_after_close:
  assumes "conn_ok c" and "cache c = []"
  shows "conn_readFrom pick (closed_conn c) = EOF \<and>
    conn_ReadFrom pick room (closed_conn c) = (if pick then Crash else EOF)"
  using conn_ok_Close [OF assms(1)] assms(2)
  by (auto simp: closed_conn_def conn_ok_def conn_readFrom_def conn_ReadFrom_def Let_def)

theorem read_after_close_witness:
  "conn_ReadFrom True 2048 (closed_conn (new_conn dns_server)) = Crash"
  using read_after_close [OF conn_ok_new, of dns_server True 2048] by (simp add: new_conn_def)


section \<open>Concurrent closing\<close>

text \<open>
  \<open>Close\<close> runs from the timer, from a failed write, from \<open>handleInput\<close> and from the reader
  of the session, without taking \<open>access\<close>.  Its statements, one by one:
\<close>

datatype close_pc = AtCheck | AtSet | AtCancel | AtInterrupt | AtCloseChan | AtEnd

fun close_step :: "close_pc \<Rightarrow> dispatcher_conn \<Rightarrow> (close_pc \<times> dispatcher_conn) go" where
  "close_step AtCheck c = Some (if conn_closed c then AtEnd else AtSet, c)"
| "close_step AtSet c = Some (AtCancel, c\<lparr>conn_closed := True\<rparr>)"
| "close_step AtCancel c = Some (AtInterrupt, c\<lparr>ctx_done := True\<rparr>)"
| "close_step AtInterrupt c = Some (AtCloseChan, c\<lparr>link_interrupted := True\<rparr>)"
| "close_step AtCloseChan c = map_option (Pair AtEnd) (close_chan c)"
| "close_step AtEnd c = Some (AtEnd, c)"

text \<open>A schedule names the goroutine that runs its next statement.\<close>

fun close_run :: "nat list \<Rightarrow> (nat \<Rightarrow> close_pc) \<Rightarrow> dispatcher_conn \<Rightarrow> dispatcher_conn go" where
  "close_run [] ps c = Some c"
| "close_run (t # ts) ps c = do { (p, c') \<leftarrow> close_step (ps t) c; close_run ts (ps(t := p)) c' }"

lemma close_run_alone: "close_run [t, t, t, t, t] (\<lambda>_. AtCheck) c = conn_Close c"
  by (simp add: conn_Close_def close_chan_def)

lemma late_closers_harmless:
  "conn_closed c \<Longrightarrow> \<forall>t. ps t = AtCheck \<or> ps t = AtEnd \<Longrightarrow> close_run ts ps c = Some c"
proof (induction ts arbitrary: ps)
  case (Cons t ts)
  then have "close_step (ps t) c = Some (AtEnd, c)"
    by (metis close_step.simps(1) close_step.simps(6))
  moreover have "close_run ts (ps(t := AtEnd)) c = Some c"
    using Cons by simp
  ultimately show ?case by simp
qed simp

text \<open>
  Closing is idempotent in sequence but not concurrently: alone, the statements are
  \<open>Close\<close>; any number of goroutines that start after it finished change nothing; but two
  that both read the flag before either sets it close the channel twice, which panics.
\<close>

theorem concurrent_close_crashes:
  "close_run [t, t, t, t, t] (\<lambda>_. AtCheck) c = conn_Close c \<and>
   (conn_ok c \<longrightarrow> close_run ts (\<lambda>_. AtCheck) (closed_conn c) = Some (closed_conn c)) \<and>
   close_run [0, 1, 0, 1, 0, 1, 0, 1, 0, 1] (\<lambda>_. AtCheck) (new_conn d) = None"
proof -
  have "close_run [0, 1, 0, 1, 0, 1, 0, 1, 0, 1] (\<lambda>_. AtCheck) (new_conn d) = None"
    by (simp add: new_conn_def close_chan_def)
  moreover have "close_run ts (\<lambda>_. AtCheck) (closed_conn c) = Some (closed_conn c)" if "conn_ok c"
    using conn_ok_Close [OF that] late_closers_harmless [of "closed_conn c"] by (auto simp: closed_conn_def)
  ultimately show ?thesis
    using close_run_alone by simp
qed

theorem concurrent_close_crashes_witness:
  "close_run [2, 3, 2, 3] (\<lambda>_. AtCheck) (closed_conn (new_conn dns_server)) = Some (closed_conn (new_conn dns_server))"
  using concurrent_close_crashes [where t = 0 and c = "new_conn dns_server" and ts = "[2, 3, 2, 3]"] conn_ok_new by blast

end
