(* ===== verification/Assets.thy ===== *)
theory Assets
  imports Prelude GoStrings
begin

text \<open>
  \<open>assets.go\<close>, \<open>unxz\<close> of \<open>io.go\<close> and \<open>certs.go\<close>: the data files that come with the
  application, compressed, and are extracted to its directories when theirs are missing or
  older, the function that opens them, and the list of root certificates.
\<close>

section \<open>Files\<close>

text \<open>
  The files and directories under their full paths.  The environment holds the packed
  assets, which files can be made and read, and the decompressor, which fails at its header
  (\<open>None\<close>) or after some output (\<open>False\<close>).
\<close>

record fs =
  fs_files :: "string \<rightharpoonup> string"
  fs_dirs :: "string list"

record asset =
  as_content :: string
  as_ok :: bool

record asset_env =
  ae_assets :: "string \<rightharpoonup> asset"
  ae_create :: "string \<Rightarrow> bool"
  ae_read :: "string \<Rightarrow> bool"
  ae_unxz :: "string \<Rightarrow> (string \<times> bool) option"
  ae_prefix :: string
  ae_internal :: string
  ae_external :: string
  ae_official :: bool

datatype asset_error =
    OpenVersion | ReadVersion | OpenAsset | CreateFile | CopyFailed | BadArchive | OpenFile | NotFound
  | OpenPemVersion | CreatePem | OpenPem

definition stat_ok :: "fs \<Rightarrow> string \<Rightarrow> bool" where
  "stat_ok s p \<longleftrightarrow> fs_files s p \<noteq> None \<or> p \<in> set (fs_dirs s)"

definition read_file :: "asset_env \<Rightarrow> fs \<Rightarrow> string \<Rightarrow> string option" where
  "read_file A s p = (if ae_read A p then fs_files s p else None)"

definition put_file :: "string \<Rightarrow> string \<Rightarrow> fs \<Rightarrow> fs" where
  "put_file p c s = s\<lparr>fs_files := (fs_files s)(p \<mapsto> c)\<rparr>"

lemma put_file_simps [simp]:
  "fs_files (put_file p c s) = (fs_files s)(p \<mapsto> c)" "fs_dirs (put_file p c s) = fs_dirs s"
  by (simp_all add: put_file_def)

section \<open>Names\<close>

definition geoipDat :: string where "geoipDat = ''geoip.dat''"
definition geositeDat :: string where "geositeDat = ''geosite.dat''"
definition browserForwarder :: string where "browserForwarder = ''index.js''"
definition geoipVersion :: string where "geoipVersion = ''geoip.version.txt''"
definition geositeVersion :: string where "geositeVersion = ''geosite.version.txt''"
definition coreVersion :: string where "coreVersion = ''core.version.txt''"
definition mozillaIncludedPem :: string where "mozillaIncludedPem = ''mozilla_included.pem''"

lemmas asset_names = geoipDat_def geositeDat_def browserForwarder_def geoipVersion_def geositeVersion_def coreVersion_def

definition dir_of :: "asset_env \<Rightarrow> string \<Rightarrow> string" where
  "dir_of A name = (if name = browserForwarder then ae_internal A else ae_external A)"

definition version_of :: "string \<Rightarrow> string" where
  "version_of name = (if name = geoipDat then geoipVersion else if name = geositeDat then geositeVersion
     else if name = browserForwarder then coreVersion else '''')"

section \<open>Extraction\<close>

text \<open>\<open>extractAsset\<close>: the file is made, or emptied, before the bytes are copied.\<close>

definition extractAsset :: "asset_env \<Rightarrow> string \<Rightarrow> string \<Rightarrow> fs \<Rightarrow> fs \<times> asset_error option" where
  "extractAsset A assetPath path s =
     (case ae_assets A assetPath of
        None \<Rightarrow> (s, Some OpenAsset)
      | Some i \<Rightarrow>
          if \<not> ae_create A path then (s, Some CreateFile)
          else (put_file path (as_content i) s, if as_ok i then None else Some CopyFailed))"

text \<open>\<open>Unxz\<close> and \<open>unxz\<close>, which goes through a temporary file.\<close>

definition Unxz :: "asset_env \<Rightarrow> string \<Rightarrow> string \<Rightarrow> fs \<Rightarrow> fs \<times> asset_error option" where
  "Unxz A archive path s =
     (case read_file A s archive of
        None \<Rightarrow> (s, Some OpenFile)
      | Some c \<Rightarrow>
          (case ae_unxz A c of
             None \<Rightarrow> (s, Some BadArchive)
           | Some (out, ok) \<Rightarrow>
               if \<not> ae_create A path then (s, Some CreateFile)
               else (put_file path out s, if ok then None else Some CopyFailed)))"

definition rename :: "string \<Rightarrow> string \<Rightarrow> fs \<Rightarrow> fs \<times> asset_error option" where
  "rename p q s =
     (case fs_files s p of
        None \<Rightarrow> (s, Some NotFound)
      | Some c \<Rightarrow> (s\<lparr>fs_files := (fs_files s)(p := None, q \<mapsto> c)\<rparr>, None))"

definition unxz_in_place :: "asset_env \<Rightarrow> string \<Rightarrow> fs \<Rightarrow> fs \<times> asset_error option" where
  "unxz_in_place A path s =
     (case Unxz A path (path @ ''.tmp'') s of
        (s, Some e) \<Rightarrow> (s, Some e)
      | (s, None) \<Rightarrow> rename (path @ ''.tmp'') path s)"

text \<open>\<open>loadAssetVersion\<close>.\<close>

definition loadAssetVersion :: "asset_env \<Rightarrow> string \<Rightarrow> asset_error + string" where
  "loadAssetVersion A name =
     (case ae_assets A (ae_prefix A @ version_of name) of
        None \<Rightarrow> Inl OpenVersion
      | Some v \<Rightarrow> if as_ok v then Inr (as_content v) else Inl ReadVersion)"

text \<open>
  The check of \<open>extractAssetName\<close>: whether to extract, the version of the asset if it was
  read (\<open>''''\<close> otherwise), and the files, from which an unreadable version file is meant to be
  removed: the code removes the bare name.
\<close>

definition os_RemoveAll :: "string \<Rightarrow> fs \<Rightarrow> fs" where
  "os_RemoveAll p s = s\<lparr>fs_files := (fs_files s)(p := None)\<rparr>"

definition check_version :: "asset_env \<Rightarrow> string \<Rightarrow> bool \<Rightarrow> fs \<Rightarrow> fs \<times> (asset_error + bool \<times> string)" where
  "check_version A name force s =
     (if \<not> stat_ok s (dir_of A name @ version_of name)
      then (s, Inr (\<not> stat_ok s (dir_of A name @ name) \<or> force, ''''))
      else if ae_official A then
        (case read_file A s (dir_of A name @ version_of name) of
           None \<Rightarrow> (os_RemoveAll (version_of name) s, Inr (True, ''''))
         | Some localVersion \<Rightarrow>
             (case loadAssetVersion A name of
                Inl e \<Rightarrow> (s, Inl e)
              | Inr assetVersion \<Rightarrow>
                  (case parse_uint64 assetVersion of
                     (av, Some _) \<Rightarrow> (s, Inr (assetVersion \<noteq> localVersion \<or> force, assetVersion))
                   | (av, None) \<Rightarrow>
                       (case parse_uint64 localVersion of
                          (lv, err) \<Rightarrow> (s, Inr (err \<noteq> None \<or> lv < av \<or> force, assetVersion))))))
      else (s, Inr (force, '''')))"

text \<open>\<open>extractAssetName\<close>.\<close>

definition write_asset :: "asset_env \<Rightarrow> string \<Rightarrow> string \<Rightarrow> fs \<Rightarrow> fs \<times> asset_error option" where
  "write_asset A name assetVersion s =
     (case extractAsset A (ae_prefix A @ name @ ''.xz'') (dir_of A name @ name) s of
        (s, Some e) \<Rightarrow> (s, Some e)
      | (s, None) \<Rightarrow>
          (case unxz_in_place A (dir_of A name @ name) s of
             (s, Some e) \<Rightarrow> (s, Some e)
           | (s, None) \<Rightarrow>
               if \<not> ae_create A (dir_of A name @ version_of name) then (s, Some CreateFile)
               else (put_file (dir_of A name @ version_of name) assetVersion s, None)))"

definition extractAssetName :: "asset_env \<Rightarrow> string \<Rightarrow> bool \<Rightarrow> fs \<Rightarrow> fs \<times> asset_error option" where
  "extractAssetName A name force s =
     (case check_version A name force s of
        (s, Inl e) \<Rightarrow> (s, Some e)
      | (s, Inr (False, _)) \<Rightarrow> (s, None)
      | (s, Inr (True, assetVersion)) \<Rightarrow>
          if assetVersion = '''' then
            (case loadAssetVersion A name of
               Inl e \<Rightarrow> (s, Some e)
             | Inr v \<Rightarrow> write_asset A name v s)
          else write_asset A name assetVersion s)"

section \<open>Opening\<close>

text \<open>
  \<open>filesystem.NewFileSeeker\<close>: what is opened, a file or a packed asset.  The file name is the
  path's last component; \<open>extracted\<close> is the set of names that need no waiting for the start-up
  extraction, a list here.
\<close>

datatype opened = OpenedFile string string | OpenedAsset string

fun first_file :: "asset_env \<Rightarrow> fs \<Rightarrow> string list \<Rightarrow> (asset_error + opened) option" where
  "first_file A s [] = None"
| "first_file A s (p # ps) =
     (if stat_ok s p then Some (case read_file A s p of None \<Rightarrow> Inl OpenFile | Some c \<Rightarrow> Inr (OpenedFile p c))
      else first_file A s ps)"

definition NewFileSeeker :: "asset_env \<Rightarrow> string \<Rightarrow> string list \<Rightarrow> fs \<Rightarrow> fs \<times> string list \<times> (asset_error + opened)" where
  "NewFileSeeker A fileName extracted s =
     (let paths = [ae_internal A @ fileName, ae_external A @ fileName]
      in case first_file A s paths of
           Some r \<Rightarrow> (s, extracted, r)
         | None \<Rightarrow>
             (case ae_assets A (ae_prefix A @ fileName) of
                Some i \<Rightarrow> (s, fileName # extracted, Inr (OpenedAsset (as_content i)))
              | None \<Rightarrow>
                  (case extractAssetName A fileName False s of
                     (s, Some e) \<Rightarrow> (s, extracted, Inl e)
                   | (s, None) \<Rightarrow>
                       (case first_file A s paths of
                          Some r \<Rightarrow> (s, extracted, r)
                        | None \<Rightarrow> (s, extracted, Inl NotFound)))))"

section \<open>Root certificates\<close>

text \<open>\<open>extractRootCACertsPem\<close>.\<close>

definition extractRootCACertsPem :: "asset_env \<Rightarrow> fs \<Rightarrow> fs \<times> asset_error option" where
  "extractRootCACertsPem A s =
     (let path = ae_internal A @ mozillaIncludedPem;
          sumPath = path @ ''.sha256sum''
      in case ae_assets A (mozillaIncludedPem @ ''.sha256sum'') of
           None \<Rightarrow> (s, Some OpenPemVersion)
         | Some digest \<Rightarrow>
             if \<not> as_ok digest then (s, Some ReadVersion)
             else if stat_ok s sumPath \<and> read_file A s sumPath = Some (as_content digest) then (s, None)
             else if \<not> ae_create A path then (s, Some CreatePem)
             else (let s = put_file path '''' s
                   in case ae_assets A mozillaIncludedPem of
                        None \<Rightarrow> (s, Some OpenPem)
                      | Some pem \<Rightarrow>
                          (let s = put_file path (as_content pem) s
                           in if \<not> as_ok pem then (s, Some CopyFailed)
                              else if \<not> ae_create A sumPath then (s, Some CreateFile)
                              else (put_file sumPath (as_content digest) s, None))))"

text \<open>
  \<open>UpdateSystemRoots\<close>: the state is the switch and the roots in use, \<open>None\<close> for the system's
  own.  \<open>parse_pem\<close> is \<open>AppendCertsFromPEM\<close> on an empty pool, \<open>None\<close> when it adds none.
\<close>

record 'c roots =
  ro_disableSystem :: bool
  ro_roots :: "'c option"

definition updateRootCACerts :: "asset_env \<Rightarrow> (string \<Rightarrow> 'c option) \<Rightarrow> fs \<Rightarrow> 'c roots \<Rightarrow> 'c roots" where
  "updateRootCACerts A parse_pem s r =
     (case read_file A s (ae_internal A @ mozillaIncludedPem) of
        None \<Rightarrow> r
      | Some c \<Rightarrow> (case parse_pem c of None \<Rightarrow> r | Some pool \<Rightarrow> r\<lparr>ro_roots := Some pool\<rparr>))"

definition UpdateSystemRoots :: "asset_env \<Rightarrow> (string \<Rightarrow> 'c option) \<Rightarrow> fs \<Rightarrow> bool \<Rightarrow> 'c roots \<Rightarrow> 'c roots" where
  "UpdateSystemRoots A parse_pem s useSystem r =
     (if ro_disableSystem r \<noteq> useSystem then r
      else (let r = r\<lparr>ro_disableSystem := \<not> ro_disableSystem r\<rparr>
            in if useSystem then r\<lparr>ro_roots := None\<rparr> else updateRootCACerts A parse_pem s r))"

text \<open>
  The goroutine \<open>InitializeV2Ray\<close> starts: three extractions, whose errors are logged, the
  certificates, and the switch.
\<close>

fun extract_all :: "asset_env \<Rightarrow> string list \<Rightarrow> fs \<Rightarrow> string list \<Rightarrow> fs \<times> string list" where
  "extract_all A [] s extracted = (s, extracted)"
| "extract_all A (n # ns) s extracted =
     (case extractAssetName A n False s of
        (s, Some e) \<Rightarrow> extract_all A ns s extracted
      | (s, None) \<Rightarrow> extract_all A ns s (n # extracted))"

definition initialize :: "asset_env \<Rightarrow> (string \<Rightarrow> 'c option) \<Rightarrow> bool \<Rightarrow> fs \<Rightarrow> 'c roots \<Rightarrow> fs \<times> string list \<times> 'c roots" where
  "initialize A parse_pem useSystemCerts s r =
     (let (s, extracted) = extract_all A [geoipDat, geositeDat, browserForwarder] s []
      in case extractRootCACertsPem A s of
           (s, Some e) \<Rightarrow> (s, extracted, r)
         | (s, None) \<Rightarrow> (s, extracted, UpdateSystemRoots A parse_pem s useSystemCerts r))"

section \<open>Extraction of the three files\<close>

definition asset_list :: "string list" where
  "asset_list = [geoipDat, geositeDat, browserForwarder]"

lemma asset_paths:
  assumes "name \<in> set asset_list"
  shows "dir_of A name @ name \<noteq> dir_of A name @ version_of name" "(dir_of A name @ name) @ ''.tmp'' \<noteq> dir_of A name @ version_of name"
    "(dir_of A name @ name) @ ''.tmp'' \<noteq> dir_of A name @ name"
  using assms by (auto simp: asset_list_def version_of_def asset_names)

text \<open>\<open>good_asset\<close>: the packed version and file of a name are there and decompress, and their files can be written and read.\<close>

definition good_asset :: "asset_env \<Rightarrow> string \<Rightarrow> string \<Rightarrow> string \<Rightarrow> bool" where
  "good_asset A name v out \<longleftrightarrow> loadAssetVersion A name = Inr v \<and>
     (\<exists>packed. ae_assets A (ae_prefix A @ name @ ''.xz'') = Some \<lparr>as_content = packed, as_ok = True\<rparr> \<and> ae_unxz A packed = Some (out, True)) \<and>
     ae_create A (dir_of A name @ name) \<and> ae_read A (dir_of A name @ name) \<and> ae_create A ((dir_of A name @ name) @ ''.tmp'') \<and>
     ae_create A (dir_of A name @ version_of name)"

definition installed :: "asset_env \<Rightarrow> string \<Rightarrow> string \<Rightarrow> string \<Rightarrow> fs \<Rightarrow> fs" where
  "installed A name v out s = s\<lparr>fs_files := (fs_files s)
     ((dir_of A name @ name) @ ''.tmp'' := None, dir_of A name @ name \<mapsto> out, dir_of A name @ version_of name \<mapsto> v)\<rparr>"

lemma write_asset_good:
  assumes "name \<in> set asset_list" "good_asset A name v out"
  shows "write_asset A name v s = (installed A name v out s, None)"
  using assms asset_paths [OF assms(1), of A]
  by (auto simp: write_asset_def good_asset_def extractAsset_def unxz_in_place_def Unxz_def rename_def read_file_def installed_def
      put_file_def fun_upd_twist split: option.splits)

lemma write_asset_version:
  assumes "write_asset A name v s = (s', None)"
  shows "fs_files s' (dir_of A name @ version_of name) = Some v"
  using assms by (auto simp: write_asset_def split: prod.splits option.splits if_splits)

text \<open>What a successful run did: nothing, or a complete installation.\<close>

lemma extractAssetName_cases:
  assumes "extractAssetName A name force s = (s', None)"
  obtains (kept) v where "check_version A name force s = (s', Inr (False, v))"
  | (written) s1 v0 v where "check_version A name force s = (s1, Inr (True, v0))" "loadAssetVersion A name = Inr v"
      "write_asset A name v s1 = (s', None)"
proof -
  have load: "loadAssetVersion A name = Inr v" if "check_version A name force s = (s1, Inr (True, v))" "v \<noteq> ''''" for s1 v
    using that by (auto simp: check_version_def split: if_splits option.splits sum.splits prod.splits)
  from assms load show thesis
    by (auto simp: extractAssetName_def split: prod.splits sum.splits bool.splits if_splits intro: kept written)
qed

lemma kept_same: "check_version A name force s = (s', Inr (False, v)) \<Longrightarrow> s' = s"
  by (auto simp: check_version_def split: if_splits option.splits sum.splits prod.splits)

lemma current_version_kept:
  assumes "fs_files s (dir_of A name @ version_of name) = Some v" "loadAssetVersion A name = Inr v"
    and "ae_read A (dir_of A name @ version_of name)"
  shows "extractAssetName A name False s = (s, None)"
  using assms by (cases "parse_uint64 v") (auto simp: extractAssetName_def check_version_def stat_ok_def read_file_def split: option.splits)

section \<open>Properties\<close>


text \<open>
  A file whose version is a number is replaced by an asset with a higher one, and never by
  one that is not higher.
\<close>

theorem newer_asset_only:
  assumes "name \<in> set asset_list" and "good_asset A name (itoa_nat av) out" and "ae_official A"
    and "fs_files s (dir_of A name @ version_of name) = Some (itoa_nat lv)" and "ae_read A (dir_of A name @ version_of name)"
    and "av < 2 ^ 64" and "lv < 2 ^ 64"
  shows "extractAssetName A name False s = (if lv < av then installed A name (itoa_nat av) out s else s, None)"
proof -
  have "loadAssetVersion A name = Inr (itoa_nat av)" using assms(2) by (simp add: good_asset_def)
  then have "check_version A name False s = (s, Inr (lv < av, itoa_nat av))"
    using assms(3-7) by (simp add: check_version_def stat_ok_def read_file_def parse_uint64_itoa)
  then show ?thesis
    using write_asset_good [OF assms(1,2)] itoa_nat_nonempty by (simp add: extractAssetName_def)
qed

text \<open>
  C31.  A packed file that is no archive.  The extraction fails, but the packed bytes are left
  under the name of the data file, and from then on, as the file is there, extraction
  reports success and the file is opened as it is.
\<close>

theorem bad_archive_stays:
  assumes "name \<in> set asset_list" and "loadAssetVersion A name = Inr v"
    and "ae_assets A (ae_prefix A @ name @ ''.xz'') = Some \<lparr>as_content = packed, as_ok = True\<rparr>" and "ae_unxz A packed = None"
    and "ae_create A (dir_of A name @ name)" and "ae_read A (dir_of A name @ name)"
    and "\<not> stat_ok s (dir_of A name @ version_of name)" and "\<not> stat_ok s (dir_of A name @ name)" and "\<not> stat_ok s (ae_internal A @ name)"
  shows "\<exists>s'. extractAssetName A name False s = (s', Some BadArchive) \<and> extractAssetName A name False s' = (s', None) \<and>
     NewFileSeeker A name e s' = (s', e, Inr (OpenedFile (dir_of A name @ name) packed))"
proof -
  let ?s = "put_file (dir_of A name @ name) packed s"
  note paths = asset_paths [OF assms(1), of A]
  have check: "check_version A name False s = (s, Inr (True, ''''))" "check_version A name False ?s = (?s, Inr (False, ''''))"
    using assms(7,8) paths by (auto simp: check_version_def stat_ok_def)
  have "extractAssetName A name False s = (?s, Some BadArchive)"
    using check(1) assms(2-6) by (simp add: extractAssetName_def write_asset_def extractAsset_def unxz_in_place_def Unxz_def read_file_def)
  moreover have "extractAssetName A name False ?s = (?s, None)"
    using check(2) by (simp add: extractAssetName_def)
  moreover have "NewFileSeeker A name e ?s = (?s, e, Inr (OpenedFile (dir_of A name @ name) packed))"
    using assms(6,9) by (auto simp: NewFileSeeker_def stat_ok_def read_file_def dir_of_def split: if_splits)
  ultimately show ?thesis by blast
qed

text \<open>
  The switch of the root certificates flips even when the bundled list cannot be loaded:
  the system's list stays in use, and asking again, when the list is there, does nothing.
\<close>

theorem failed_root_update_is_final:
  assumes "\<not> ro_disableSystem r" and "read_file A s (ae_internal A @ mozillaIncludedPem) = None"
  shows "ro_roots (UpdateSystemRoots A parse_pem s False r) = ro_roots r \<and>
     UpdateSystemRoots A parse_pem s' False (UpdateSystemRoots A parse_pem s False r) = UpdateSystemRoots A parse_pem s False r"
  using assms by (auto simp: UpdateSystemRoots_def updateRootCACerts_def)

section \<open>Witnesses\<close>

text \<open>Two packed files and their versions: one decompresses to \<open>''rules''\<close>, the other is no archive.\<close>

definition test_env :: asset_env where
  "test_env =
     \<lparr>ae_assets = [''geoip.version.txt'' \<mapsto> \<lparr>as_content = ''12'', as_ok = True\<rparr>, ''geoip.dat.xz'' \<mapsto> \<lparr>as_content = ''xz'', as_ok = True\<rparr>,
        ''geosite.version.txt'' \<mapsto> \<lparr>as_content = ''7'', as_ok = True\<rparr>, ''geosite.dat.xz'' \<mapsto> \<lparr>as_content = ''html'', as_ok = True\<rparr>],
      ae_create = (\<lambda>_. True), ae_read = (\<lambda>_. True), ae_unxz = (\<lambda>c. if c = ''xz'' then Some (''rules'', True) else None),
      ae_prefix = '''', ae_internal = ''i/'', ae_external = ''e/'', ae_official = True\<rparr>"

definition no_files :: fs where "no_files = \<lparr>fs_files = Map.empty, fs_dirs = [''i/'', ''e/'']\<rparr>"

definition old_files :: fs where
  "old_files = \<lparr>fs_files = [''e/geoip.version.txt'' \<mapsto> ''9'', ''e/geoip.dat'' \<mapsto> ''old''], fs_dirs = [''i/'', ''e/'']\<rparr>"

lemma test_geoip:
  "good_asset test_env geoipDat ''12'' ''rules''" "geoipDat \<in> set asset_list" "geositeDat \<in> set asset_list"
  "dir_of test_env geoipDat = ''e/''" "version_of geoipDat = ''geoip.version.txt''"
  by (simp_all add: good_asset_def asset_list_def test_env_def loadAssetVersion_def dir_of_def version_of_def asset_names)

lemma test_numbers: "itoa_nat 12 = ''12''" "itoa_nat 9 = ''9''"
  by code_simp+

lemma test_extracted: "extractAssetName test_env geoipDat False no_files = (installed test_env geoipDat ''12'' ''rules'' no_files, None)"
proof -
  have "check_version test_env geoipDat False no_files = (no_files, Inr (True, ''''))"
    by (simp add: check_version_def stat_ok_def no_files_def test_geoip) (simp add: geoipDat_def)
  then show ?thesis
    using write_asset_good [OF test_geoip(2,1)] test_geoip(1) by (simp add: extractAssetName_def good_asset_def)
qed


theorem newer_asset_only_witness:
  "fs_files (fst (extractAssetName test_env geoipDat False old_files)) ''e/geoip.dat'' = Some ''rules''"
proof -
  have "ae_official test_env" "ae_read test_env (dir_of test_env geoipDat @ version_of geoipDat)"
    "fs_files old_files (dir_of test_env geoipDat @ version_of geoipDat) = Some (itoa_nat 9)"
    by (simp_all add: test_geoip test_numbers old_files_def) (simp_all add: test_env_def)
  with newer_asset_only [of geoipDat test_env 12 "''rules''" old_files 9, unfolded test_numbers] test_geoip(1,2)
  show ?thesis by (simp add: test_numbers installed_def test_geoip) (simp add: geoipDat_def)
qed

theorem bad_archive_stays_witness:
  "\<exists>s'. extractAssetName test_env geositeDat False no_files = (s', Some BadArchive) \<and>
     NewFileSeeker test_env geositeDat [] s' = (s', [], Inr (OpenedFile ''e/geosite.dat'' ''html''))"
proof -
  have "dir_of test_env geositeDat = ''e/''" "version_of geositeDat = ''geosite.version.txt''"
    by (simp_all add: test_env_def dir_of_def version_of_def asset_names)
  moreover have "loadAssetVersion test_env geositeDat = Inr ''7''" using calculation
    by (simp add: loadAssetVersion_def) (simp add: test_env_def)
  moreover have "ae_assets test_env (ae_prefix test_env @ geositeDat @ ''.xz'') = Some \<lparr>as_content = ''html'', as_ok = True\<rparr>"
    "ae_unxz test_env ''html'' = None" "ae_create test_env p" "ae_read test_env p" "ae_internal test_env = ''i/''" for p
    by (simp_all add: test_env_def geositeDat_def)
  moreover have "\<not> stat_ok no_files ''e/geosite.version.txt''" "\<not> stat_ok no_files (''e/'' @ geositeDat)" "\<not> stat_ok no_files (''i/'' @ geositeDat)"
    by (simp_all add: stat_ok_def no_files_def geositeDat_def)
  ultimately show ?thesis
    using bad_archive_stays [OF test_geoip(3), of test_env "''7''" "''html''" no_files "[]"] by (auto simp: geositeDat_def)
qed

section \<open>Forced extraction\<close>

text \<open>
  With \<open>force\<close> the packed file is installed whatever is there before; an unreadable version
  file makes the code remove a file of the version's bare name first.
\<close>

lemma forced_extraction:
  assumes "name \<in> set asset_list" "good_asset A name v out"
  shows "\<exists>s'. extractAssetName A name True s = (installed A name v out s', None) \<and> (s' = s \<or> s' = os_RemoveAll (version_of name) s)"
proof -
  have v: "loadAssetVersion A name = Inr v" using assms(2) by (simp add: good_asset_def)
  have "\<exists>s' w. check_version A name True s = (s', Inr (True, w)) \<and> (w = '''' \<or> w = v) \<and> (s' = s \<or> s' = os_RemoveAll (version_of name) s)"
    using v by (cases "parse_uint64 v") (auto simp: check_version_def split: option.splits prod.splits)
  then obtain s' w where "check_version A name True s = (s', Inr (True, w))" "w = '''' \<or> w = v"
    and "s' = s \<or> s' = os_RemoveAll (version_of name) s" by blast
  then show ?thesis
    using write_asset_good [OF assms] v by (intro exI [of _ s']) (auto simp: extractAssetName_def)
qed


text \<open>
  A version file that cannot be read is to be removed before its asset is extracted again.
  The call names the file without its directory: the version file stays, and a file of that
  name in the working directory is gone.
\<close>

theorem unreadable_version_stays:
  assumes "ae_official A" and "dir_of A name \<noteq> []"
    and "stat_ok s (dir_of A name @ version_of name)" and "\<not> ae_read A (dir_of A name @ version_of name)"
  shows "\<exists>s'. check_version A name force s = (s', Inr (True, '''')) \<and> stat_ok s' (dir_of A name @ version_of name) \<and>
     fs_files s' (version_of name) = None \<and> (\<forall>p. p \<noteq> version_of name \<longrightarrow> fs_files s' p = fs_files s p)"
  using assms by (auto simp: check_version_def read_file_def os_RemoveAll_def stat_ok_def)

theorem unreadable_version_stays_witness:
  "\<exists>s'. check_version (test_env\<lparr>ae_read := \<lambda>_. False\<rparr>) geoipDat False
       (no_files\<lparr>fs_files := [''e/geoip.version.txt'' \<mapsto> ''1'', ''geoip.version.txt'' \<mapsto> ''mine'']\<rparr>) = (s', Inr (True, '''')) \<and>
     stat_ok s' ''e/geoip.version.txt'' \<and> fs_files s' ''geoip.version.txt'' = None"
proof -
  let ?A = "test_env\<lparr>ae_read := \<lambda>_. False\<rparr>"
  let ?s = "no_files\<lparr>fs_files := [''e/geoip.version.txt'' \<mapsto> ''1'', ''geoip.version.txt'' \<mapsto> ''mine'']\<rparr>"
  have "ae_official ?A" "dir_of ?A geoipDat = ''e/''" "version_of geoipDat = ''geoip.version.txt''"
    "stat_ok ?s (dir_of ?A geoipDat @ version_of geoipDat)" "\<not> ae_read ?A (dir_of ?A geoipDat @ version_of geoipDat)"
    by (simp_all add: test_env_def dir_of_def version_of_def asset_names stat_ok_def)
  then show ?thesis
    using unreadable_version_stays [of ?A geoipDat ?s False] by auto
qed

end
