(* ===== verification/V2Ray.thy ===== *)
theory V2Ray
  imports Assets DispatcherConn
begin

text \<open>
  \<open>V2RayInstance\<close> of \<open>v2ray.go\<close>: loading a configuration (with the retry after unpacking an
  asset and the rewriting of VMess accounts), the life cycle, statistics, links and
  dialling.  The core is third-party code: what it answers is a parameter, and a running
  core is a number.
\<close>

section \<open>Loading\<close>

text \<open>Which asset an error asks for, and whether its extraction is forced.\<close>

definition missing_asset :: "string \<Rightarrow> (string \<times> bool) option" where
  "missing_asset err =
     (if has_suffix err ''geoip.dat: no such file or directory'' then Some (geoipDat, True)
      else if has_suffix err ''not found in geoip.dat'' then Some (geoipDat, False)
      else if has_suffix err ''geosite.dat: no such file or directory'' then Some (geositeDat, True)
      else if has_suffix err ''not found in geosite.dat'' then Some (geositeDat, False)
      else None)"

text \<open>
  The first lines of \<open>LoadConfig\<close>, composed with \<open>extractAssetName\<close>: \<open>load\<close> is
  \<open>LoadJSONConfig\<close> of the content, which reads the data files, and \<open>msg\<close> the text of an error.
\<close>

definition load_with_assets :: "asset_env \<Rightarrow> (fs \<Rightarrow> string + 'c) \<Rightarrow> (asset_error \<Rightarrow> string) \<Rightarrow> fs \<Rightarrow> fs \<times> (string + 'c)" where
  "load_with_assets A load msg s =
     (case load s of
        Inr config \<Rightarrow> (s, Inr config)
      | Inl err \<Rightarrow>
          (case missing_asset err of
             None \<Rightarrow> (s, Inl err)
           | Some (name, force) \<Rightarrow>
               (case extractAssetName A name force s of
                  (s', Some e) \<Rightarrow> (s', Inl (msg e))
                | (s', None) \<Rightarrow> (s', load s'))))"

lemma has_suffix_append: "has_suffix (e @ p) p"
  by (simp add: has_suffix_def)

lemma missing_geoip: "missing_asset (e @ ''geoip.dat: no such file or directory'') = Some (geoipDat, True)"
  unfolding missing_asset_def by (simp only: has_suffix_append if_True)



section \<open>VMess accounts\<close>

text \<open>
  A typed message is what \<open>GetInstanceOf\<close> makes of it: a VMess account or outbound, some
  other message, or an error.
\<close>

datatype account = VmessAccount u32 string | OtherAccount string | BadAccount
datatype proxy = VmessProxy "account option list list" | OtherProxy string | BadProxy

type_synonym outbound = "proxy option"

text \<open>The innermost loop body: the new account and whether it was reset.\<close>

definition reset_user :: "account option \<Rightarrow> account option \<times> bool" where
  "reset_user user =
     (case user of
        None \<Rightarrow> (user, False)
      | Some BadAccount \<Rightarrow> (user, False)
      | Some (OtherAccount s) \<Rightarrow> (user, False)
      | Some (VmessAccount alterId s) \<Rightarrow> if alterId > 0 then (Some (VmessAccount 0 s), True) else (user, False))"

fun reset_users :: "account option list \<Rightarrow> account option list \<times> bool" where
  "reset_users [] = ([], False)"
| "reset_users (u # us) = (let (u', r) = reset_user u; (us', rs) = reset_users us in (u' # us', r \<or> rs))"

fun reset_receivers :: "account option list list \<Rightarrow> account option list list \<times> bool" where
  "reset_receivers [] = ([], False)"
| "reset_receivers (e # es) = (let (e', r) = reset_users e; (es', rs) = reset_receivers es in (e' # es', r \<or> rs))"

text \<open>An outbound is written back only when some account of it was reset.\<close>

definition reset_outbound :: "outbound \<Rightarrow> outbound" where
  "reset_outbound ob =
     (case ob of
        Some (VmessProxy receivers) \<Rightarrow>
          (let (receivers', reset) = reset_receivers receivers in if reset then Some (VmessProxy receivers') else ob)
      | _ \<Rightarrow> ob)"

fun account_reset :: "account \<Rightarrow> account" where
  "account_reset (VmessAccount a s) = VmessAccount 0 s"
| "account_reset acc = acc"

lemma reset_user_eq: "reset_user u = (u', r) \<Longrightarrow> u' = map_option account_reset u \<and> (\<not> r \<longrightarrow> u' = u)"
  by (auto simp: reset_user_def word_gt_0 split: option.splits account.splits if_splits)

lemma reset_users_eq: "reset_users us = (us', r) \<Longrightarrow> us' = map (map_option account_reset) us \<and> (\<not> r \<longrightarrow> us' = us)"
  by (induction us arbitrary: us' r) (auto simp: Let_def split: prod.splits dest: reset_user_eq)

lemma reset_receivers_eq:
  "reset_receivers es = (es', r) \<Longrightarrow> es' = map (map (map_option account_reset)) es \<and> (\<not> r \<longrightarrow> es' = es)"
  by (induction es arbitrary: es' r) (auto simp: Let_def split: prod.splits dest: reset_users_eq)

text \<open>
  The account loop is a map: in every VMess outbound every VMess account has alter id 0
  afterwards and nothing else changes, although an outbound is written back only when one
  of its accounts was reset.
\<close>

theorem reset_outbound_is_map:
  "reset_outbound ob = (case ob of
     Some (VmessProxy receivers) \<Rightarrow> Some (VmessProxy (map (map (map_option account_reset)) receivers))
   | _ \<Rightarrow> ob)"
  by (auto simp: reset_outbound_def split: option.split proxy.split prod.split dest: reset_receivers_eq)

section \<open>Life cycle\<close>

text \<open>\<open>running\<close> is the set of cores that were started and not closed: it belongs to the outside.\<close>

record v2ray_instance =
  started :: bool
  core :: "nat option"
  running :: "nat list"
  cores :: nat

definition NewV2rayInstance :: v2ray_instance where
  "NewV2rayInstance = \<lparr>started = False, core = None, running = [], cores = 0\<rparr>"

datatype instance_error = ErrConfig string | ErrNewCore | AlreadyStarted | NotInitialized | ErrCoreStart | ErrCoreClose | ErrInvalid

definition LoadConfig :: "string + 'c \<Rightarrow> ('c \<Rightarrow> bool) \<Rightarrow> v2ray_instance \<Rightarrow> instance_error option \<times> v2ray_instance" where
  "LoadConfig config new_core i =
     (case config of
        Inl e \<Rightarrow> (Some (ErrConfig e), i)
      | Inr c \<Rightarrow> if new_core c then (None, i\<lparr>core := Some (cores i), cores := Suc (cores i)\<rparr>) else (Some ErrNewCore, i))"

definition Start :: "bool \<Rightarrow> v2ray_instance \<Rightarrow> instance_error option \<times> v2ray_instance" where
  "Start core_starts i =
     (if started i then (Some AlreadyStarted, i)
      else case core i of
        None \<Rightarrow> (Some NotInitialized, i)
      | Some c \<Rightarrow> if core_starts then (None, i\<lparr>started := True, running := c # running i\<rparr>) else (Some ErrCoreStart, i))"

text \<open>The instance is overwritten with the zero value; a core that fails to close keeps running.\<close>

definition Close :: "bool \<Rightarrow> v2ray_instance \<Rightarrow> instance_error option \<times> v2ray_instance" where
  "Close core_closes i =
     (if started i
      then if core_closes
           then (None, i\<lparr>started := False, core := None, running := (case core i of Some c \<Rightarrow> removeAll c (running i) | None \<Rightarrow> running i)\<rparr>)
           else (Some ErrCoreClose, i)
      else (None, i))"

definition counter_name :: "string \<Rightarrow> string \<Rightarrow> string" where
  "counter_name tag direct = ''outbound>>>'' @ tag @ ''>>>traffic>>>'' @ direct"

text \<open>\<open>QueryStats\<close> reads a counter and sets it to zero; without a statistics manager it is 0.\<close>

definition QueryStats :: "(string \<rightharpoonup> int) option \<Rightarrow> string \<Rightarrow> string \<Rightarrow> int \<times> (string \<rightharpoonup> int) option" where
  "QueryStats mgr tag direct =
     (case mgr of
        None \<Rightarrow> (0, None)
      | Some m \<Rightarrow> (case m (counter_name tag direct) of
            None \<Rightarrow> (0, mgr)
          | Some v \<Rightarrow> (v, Some (m(counter_name tag direct \<mapsto> 0)))))"

text \<open>A link is a pipe to read from and one to write to; \<open>getLink\<close> crosses two new pipes.\<close>

record link =
  link_reader :: nat
  link_writer :: nat

definition getLink :: "nat \<Rightarrow> nat \<Rightarrow> link \<times> link" where
  "getLink up down = (\<lparr>link_reader = down, link_writer = up\<rparr>, \<lparr>link_reader = up, link_writer = down\<rparr>)"

text \<open>\<open>dialContext\<close> and \<open>dialUDP\<close>: only a started instance dials; \<open>dispatch\<close> is the core's answer.\<close>

datatype conn_kind = StreamConn | DatagramConn

definition dialContext :: "(unit + 'l) \<Rightarrow> destination \<Rightarrow> v2ray_instance \<Rightarrow> instance_error + 'l \<times> conn_kind" where
  "dialContext dispatch dest i =
     (if \<not> started i then Inl ErrInvalid
      else case dispatch of
        Inl _ \<Rightarrow> Inl ErrCoreStart
      | Inr l \<Rightarrow> Inr (l, if dst_network dest = Network_TCP then StreamConn else DatagramConn))"

definition dispatchContext :: "instance_error option \<Rightarrow> v2ray_instance \<Rightarrow> instance_error option" where
  "dispatchContext dispatch i = (if \<not> started i then Some ErrInvalid else dispatch)"

definition dialUDP :: "bool \<Rightarrow> destination \<Rightarrow> v2ray_instance \<Rightarrow> instance_error + dispatcher_conn" where
  "dialUDP dispatches dest i =
     (if \<not> started i then Inl ErrInvalid else if dispatches then Inr (new_conn dest) else Inl ErrCoreStart)"

definition handleUDP :: "destination \<Rightarrow> dispatcher_conn" where
  "handleUDP dest = new_conn dest"

section \<open>Life cycle properties\<close>

datatype life = Load bool | StartUp bool | ShutDown bool

fun live :: "life \<Rightarrow> v2ray_instance \<Rightarrow> v2ray_instance" where
  "live (Load good) i = snd (LoadConfig (if good then Inr () else Inl []) (\<lambda>_. True) i)"
| "live (StartUp good) i = snd (Start good i)"
| "live (ShutDown good) i = snd (Close good i)"

text \<open>The callers' discipline: no configuration is loaded into a started instance.\<close>

fun disciplined :: "life list \<Rightarrow> v2ray_instance \<Rightarrow> bool" where
  "disciplined [] i = True"
| "disciplined (l # ls) i = ((\<forall>g. l = Load g \<longrightarrow> \<not> started i) \<and> disciplined ls (live l i))"

definition life_inv :: "v2ray_instance \<Rightarrow> bool" where
  "life_inv i \<longleftrightarrow> (if started i then core i \<noteq> None \<and> running i = [the (core i)] else running i = [])"

lemma live_inv [step_inv]: "life_inv i \<Longrightarrow> \<forall>g. l = Load g \<longrightarrow> \<not> started i \<Longrightarrow> life_inv (live l i)"
  by (cases l) (auto simp: life_inv_def LoadConfig_def Start_def Close_def split: option.splits if_splits)

lemma fold_live_inv: "life_inv i \<Longrightarrow> disciplined ls i \<Longrightarrow> life_inv (fold live ls i)"
  by (induction ls arbitrary: i) (auto intro: live_inv)

text \<open>
  C33.  As long as no configuration is loaded into a started instance, at most one core runs,
  it is the instance's own, and none runs when the instance is not started.
\<close>

theorem one_running_core:
  assumes "disciplined ls NewV2rayInstance" and "i = fold live ls NewV2rayInstance"
  shows "if started i then core i \<noteq> None \<and> running i = [the (core i)] else running i = []"
  using fold_live_inv [of NewV2rayInstance ls] assms by (simp add: life_inv_def NewV2rayInstance_def)

theorem one_running_core_witness:
  "running (fold live [Load True, StartUp True, ShutDown True, Load True, StartUp True] NewV2rayInstance) = [1]"
  using one_running_core [of "[Load True, StartUp True, ShutDown True, Load True, StartUp True]", OF _ refl]
  by (simp add: NewV2rayInstance_def LoadConfig_def Start_def Close_def)

text \<open>
  Loading a configuration into a started instance loses the running core: the call
  succeeds, the new core can never be started, and closing the instance ``closes'' the new
  core while the old one keeps running.
\<close>

theorem reload_leaks_core:
  assumes "started i" and "core i = Some c" and "c \<in> set (running i)" and "c < cores i"
    and "i1 = snd (LoadConfig (Inr cfg) (\<lambda>_. True) i)"
  shows "fst (LoadConfig (Inr cfg) (\<lambda>_. True) i) = None \<and> fst (Start s i1) = Some AlreadyStarted \<and>
    fst (Close True i1) = None \<and> c \<in> set (running (snd (Close True i1)))"
  using assms by (auto simp: LoadConfig_def Start_def Close_def)

theorem reload_leaks_core_witness:
  "0 \<in> set (running (snd (Close True (snd (LoadConfig (Inr ()) (\<lambda>_. True)
     \<lparr>started = True, core = Some 0, running = [0], cores = 1\<rparr>)))))"
  using reload_leaks_core [of "\<lparr>started = True, core = Some 0, running = [0], cores = 1\<rparr>" 0, OF _ _ _ _ refl, of "()"]
  by simp

end
