(* ===== verification/Url.thy ===== *)
theory Url
  imports GoStrings
begin

text \<open>
  \<open>url.go\<close>: the URL object handed to the application.  The parser is the repository's own
  variant of \<open>net/url\<close>; the pieces of \<open>net/url\<close> it links to are modelled where they are
  string scanning (\<open>getScheme\<close>, \<open>Hostname\<close>, \<open>Port\<close>) and are parameters where they decode
  percent escapes (\<open>parseAuthority\<close>, \<open>setPath\<close>, \<open>setFragment\<close>, \<open>ParseQuery\<close>).
\<close>

section \<open>Data\<close>

record userinfo =
  ui_name :: string
  ui_password :: "string option"

record net_url =
  u_scheme :: string
  u_opaque :: string
  u_user :: "userinfo option"
  u_host :: string
  u_path :: string
  u_raw_path :: string
  u_force_query :: bool
  u_raw_query :: string
  u_fragment :: string
  u_values :: "(string \<times> string) list"

definition empty_url :: net_url where
  "empty_url = \<lparr>u_scheme = [], u_opaque = [], u_user = None, u_host = [], u_path = [], u_raw_path = [],
     u_force_query = False, u_raw_query = [], u_fragment = [], u_values = []\<rparr>"

definition NewURL :: "string \<Rightarrow> net_url" where
  "NewURL scheme = empty_url\<lparr>u_scheme := scheme\<rparr>"

section \<open>Parsing\<close>

datatype url_error = MissingScheme | ColonInFirstSegment | BadAuthority | BadPath | BadFragment | NoUsername

definition is_alpha :: "char \<Rightarrow> bool" where
  "is_alpha c \<longleftrightarrow> (let n = of_char c :: nat in 97 \<le> n \<and> n \<le> 122 \<or> 65 \<le> n \<and> n \<le> 90)"

text \<open>\<open>net/url.getScheme\<close>; \<open>i\<close> is the position in \<open>raw\<close>.\<close>

fun getScheme_from :: "nat \<Rightarrow> string \<Rightarrow> string \<Rightarrow> url_error + string \<times> string" where
  "getScheme_from i raw [] = Inr ([], raw)"
| "getScheme_from i raw (c # cs) =
     (if is_alpha c then getScheme_from (Suc i) raw cs
      else if is_digit c \<or> c = CHR ''+'' \<or> c = CHR ''-'' \<or> c = CHR ''.'' then
        if i = 0 then Inr ([], raw) else getScheme_from (Suc i) raw cs
      else if c = CHR '':'' then
        if i = 0 then Inl MissingScheme else Inr (take i raw, cs)
      else Inr ([], raw))"

definition getScheme :: "string \<Rightarrow> url_error + string \<times> string" where
  "getScheme raw = getScheme_from 0 raw raw"

record url_lib =
  parse_authority :: "string \<Rightarrow> (userinfo option \<times> string) option"
  set_path :: "string \<Rightarrow> net_url \<Rightarrow> net_url option"
  set_fragment :: "string \<Rightarrow> net_url \<Rightarrow> net_url option"
  parse_query :: "string \<Rightarrow> (string \<times> string) list"
  encode_values :: "(string \<times> string) list \<Rightarrow> string"

text \<open>The query: a single trailing question mark only sets \<open>ForceQuery\<close>.\<close>

definition split_query :: "string \<Rightarrow> net_url \<Rightarrow> string \<times> net_url" where
  "split_query rest u =
     (if has_suffix rest ''?'' \<and> length (filter (\<lambda>c. c = CHR ''?'') rest) = 1
      then (butlast rest, u\<lparr>u_force_query := True\<rparr>)
      else (case cut_byte CHR ''?'' rest of (r, q, _) \<Rightarrow> (r, u\<lparr>u_raw_query := q\<rparr>)))"

text \<open>The authority and the path.\<close>

definition parse_hier :: "url_lib \<Rightarrow> string \<Rightarrow> net_url \<Rightarrow> url_error + net_url" where
  "parse_hier L rest u =
     (if (u_scheme u \<noteq> [] \<or> \<not> has_prefix rest ''///'') \<and> has_prefix rest ''//'' then
        let authority = drop 2 rest;
            (authority, rest) = (case index_byte CHR ''/'' authority of
                Some i \<Rightarrow> (take i authority, drop i authority) | None \<Rightarrow> (authority, []))
        in (case parse_authority L authority of
              None \<Rightarrow> Inl BadAuthority
            | Some (user, host) \<Rightarrow>
                (case set_path L rest (u\<lparr>u_user := user, u_host := host\<rparr>) of None \<Rightarrow> Inl BadPath | Some u' \<Rightarrow> Inr u'))
      else (case set_path L rest u of None \<Rightarrow> Inl BadPath | Some u' \<Rightarrow> Inr u'))"

definition parse :: "url_lib \<Rightarrow> string \<Rightarrow> url_error + net_url" where
  "parse L raw =
     (if raw = ''*'' then Inr (empty_url\<lparr>u_path := ''*''\<rparr>)
      else case getScheme raw of
        Inl e \<Rightarrow> Inl e
      | Inr (scheme, rest) \<Rightarrow>
          let (rest, u) = split_query rest (empty_url\<lparr>u_scheme := to_lower scheme\<rparr>)
          in if \<not> has_prefix rest ''/'' \<and> u_scheme u \<noteq> [] then Inr (u\<lparr>u_opaque := rest\<rparr>)
             else if \<not> has_prefix rest ''/'' \<and> CHR '':'' \<in> set (fst (cut_byte CHR ''/'' rest)) then Inl ColonInFirstSegment
             else parse_hier L rest u)"

definition SetRawFragment :: "url_lib \<Rightarrow> string \<Rightarrow> net_url \<Rightarrow> url_error + net_url" where
  "SetRawFragment L f u = (case set_fragment L f u of None \<Rightarrow> Inl BadFragment | Some u' \<Rightarrow> Inr u')"

definition ParseURL :: "url_lib \<Rightarrow> string \<Rightarrow> url_error + net_url" where
  "ParseURL L raw =
     (case cut_byte CHR ''#'' raw of (ru, frag, _) \<Rightarrow>
       (case parse L ru of
          Inl e \<Rightarrow> Inl e
        | Inr uu \<Rightarrow>
            let u = uu\<lparr>u_values := parse_query L (u_raw_query uu)\<rparr>
            in if frag = [] then Inr u else SetRawFragment L frag u))"

section \<open>Getters and setters\<close>

definition GetScheme :: "net_url \<Rightarrow> string" where
  "GetScheme u = u_scheme u"

definition SetScheme :: "string \<Rightarrow> net_url \<Rightarrow> net_url" where
  "SetScheme scheme u = u\<lparr>u_scheme := scheme\<rparr>"

definition GetOpaque :: "net_url \<Rightarrow> string" where
  "GetOpaque u = u_opaque u"

definition SetOpaque :: "string \<Rightarrow> net_url \<Rightarrow> net_url" where
  "SetOpaque opaque u = u\<lparr>u_opaque := opaque\<rparr>"

definition GetPath :: "net_url \<Rightarrow> string" where
  "GetPath u = u_path u"

definition GetRawPath :: "net_url \<Rightarrow> string" where
  "GetRawPath u = u_raw_path u"

definition GetFragment :: "net_url \<Rightarrow> string" where
  "GetFragment u = u_fragment u"

definition GetUsername :: "net_url \<Rightarrow> string" where
  "GetUsername u = (case u_user u of Some i \<Rightarrow> ui_name i | None \<Rightarrow> [])"

definition SetUsername :: "string \<Rightarrow> net_url \<Rightarrow> net_url" where
  "SetUsername name u = u\<lparr>u_user := Some \<lparr>ui_name = name,
     ui_password = (case u_user u of Some i \<Rightarrow> ui_password i | None \<Rightarrow> None)\<rparr>\<rparr>"

definition GetPassword :: "net_url \<Rightarrow> string" where
  "GetPassword u = (case u_user u of Some i \<Rightarrow> (case ui_password i of Some p \<Rightarrow> p | None \<Rightarrow> []) | None \<Rightarrow> [])"

definition SetPassword :: "string \<Rightarrow> net_url \<Rightarrow> url_error + net_url" where
  "SetPassword p u = (case u_user u of
     None \<Rightarrow> Inl NoUsername
   | Some i \<Rightarrow> Inr (u\<lparr>u_user := Some \<lparr>ui_name = ui_name i, ui_password = Some p\<rparr>\<rparr>))"

text \<open>\<open>net/url.splitHostPort\<close>, behind \<open>Hostname\<close> and \<open>Port\<close>.\<close>

definition valid_optional_port :: "string \<Rightarrow> bool" where
  "valid_optional_port s \<longleftrightarrow> s = [] \<or> (hd s = CHR '':'' \<and> list_all is_digit (tl s))"

definition url_host_port :: "string \<Rightarrow> string \<times> string" where
  "url_host_port hp =
     (let (host, port) = (case last_index_byte CHR '':'' hp of
            Some i \<Rightarrow> if valid_optional_port (drop i hp) then (take i hp, drop (Suc i) hp) else (hp, [])
          | None \<Rightarrow> (hp, []))
      in (if has_prefix host ''['' \<and> has_suffix host '']'' then butlast (tl host) else host, port))"

definition GetHost :: "net_url \<Rightarrow> string" where
  "GetHost u = fst (url_host_port (u_host u))"

definition SetHost :: "string \<Rightarrow> net_url \<Rightarrow> net_url" where
  "SetHost host u = (case split_host_port (u_host u) of
     Some (_, port) \<Rightarrow> u\<lparr>u_host := join_host_port host port\<rparr>
   | None \<Rightarrow> u\<lparr>u_host := host\<rparr>)"

definition GetPort :: "net_url \<Rightarrow> int" where
  "GetPort u = (let port = snd (url_host_port (u_host u)) in if port = [] then 0 else int32_of (fst (atoi port)))"

definition SetPort :: "int \<Rightarrow> net_url \<Rightarrow> net_url" where
  "SetPort port u = (case split_host_port (u_host u) of
     Some (host, _) \<Rightarrow> u\<lparr>u_host := join_host_port host (itoa port)\<rparr>
   | None \<Rightarrow> u\<lparr>u_host := join_host_port (u_host u) (itoa port)\<rparr>)"

definition SetPath :: "string \<Rightarrow> net_url \<Rightarrow> net_url" where
  "SetPath p u = u\<lparr>u_path := p, u_raw_path := []\<rparr>"

definition SetRawPath :: "url_lib \<Rightarrow> string \<Rightarrow> net_url \<Rightarrow> url_error + net_url" where
  "SetRawPath L p u = (case set_path L p u of None \<Rightarrow> Inl BadPath | Some u' \<Rightarrow> Inr u')"

text \<open>\<open>Values.Get\<close> is the first value of a key; \<open>Add\<close> appends.\<close>

definition QueryParameterNotBlank :: "string \<Rightarrow> net_url \<Rightarrow> string" where
  "QueryParameterNotBlank k u = (case map_of (u_values u) k of Some v \<Rightarrow> v | None \<Rightarrow> [])"

definition AddQueryParameter :: "string \<Rightarrow> string \<Rightarrow> net_url \<Rightarrow> net_url" where
  "AddQueryParameter k v u = u\<lparr>u_values := u_values u @ [(k, v)]\<rparr>"

text \<open>\<open>GetString\<close> stores the encoded values as the query before it prints.\<close>

definition GetString :: "url_lib \<Rightarrow> (net_url \<Rightarrow> string) \<Rightarrow> net_url \<Rightarrow> string \<times> net_url" where
  "GetString L print u = (let u' = u\<lparr>u_raw_query := encode_values L (u_values u)\<rparr> in (print u', u'))"

text \<open>
  Every setter is read back by its getter and by no other, but for \<open>SetPath\<close>, which also
  forgets the encoded form of the path, and \<open>SetUsername\<close>, which keeps the password.
\<close>

lemma setters_are_read_back:
  "GetScheme (SetScheme x u) = x" "GetOpaque (SetOpaque x u) = x" "GetPath (SetPath x u) = x" "GetRawPath (SetPath x u) = []"
  "GetUsername (SetUsername x u) = x" "GetPassword (SetUsername x u) = GetPassword u"
  by (simp_all add: GetScheme_def SetScheme_def GetOpaque_def SetOpaque_def GetPath_def SetPath_def GetRawPath_def
      GetUsername_def SetUsername_def GetPassword_def split: option.split)

lemma setters_keep_the_rest:
  "GetHost (SetScheme x u) = GetHost u" "GetHost (SetPath x u) = GetHost u" "GetHost (SetUsername x u) = GetHost u"
  "GetPort (SetScheme x u) = GetPort u" "GetPort (SetPath x u) = GetPort u"
  "GetPath (SetHost x u) = GetPath u" "GetScheme (SetHost x u) = GetScheme u" "GetFragment (SetPath x u) = GetFragment u"
  "QueryParameterNotBlank k (SetPath x u) = QueryParameterNotBlank k u"
  by (simp_all add: GetScheme_def SetScheme_def GetPath_def SetPath_def GetHost_def SetHost_def GetPort_def GetFragment_def
      SetUsername_def QueryParameterNotBlank_def split: option.split prod.split)

section \<open>Ports\<close>

lemma itoa_nat_no_bracket: "CHR '']'' \<notin> set (itoa_nat n)" "CHR ''['' \<notin> set (itoa_nat n)"
  using itoa_nat_digits [of n] by (auto simp: list_all_iff is_digit_def char_eval)

lemma url_host_port_append:
  assumes "list_all is_digit p"
  shows "url_host_port (h @ CHR '':'' # p) =
    (if has_prefix h ''['' \<and> has_suffix h '']'' then butlast (tl h) else h, p)"
proof -
  have "CHR '':'' \<notin> set p"
    using assms by (auto simp: list_all_iff is_digit_def char_eval)
  then show ?thesis
    using assms by (simp add: url_host_port_def last_index_byte_append valid_optional_port_def)
qed

lemma join_host_port_shape:
  "join_host_port h p = (if CHR '':'' \<in> set h then ''['' @ h @ '']'' else h) @ CHR '':'' # p"
  by (simp add: join_host_port_def)

text \<open>
  A port that is set is the port that is got, for every port from 0 and whatever the
  host field held before.
\<close>

theorem SetPort_GetPort:
  assumes "0 \<le> port" and "port < 2 ^ 31"
  shows "GetPort (SetPort port u) = port"
proof -
  have digits: "list_all is_digit (itoa port)" and nonempty: "itoa port \<noteq> []"
    using assms(1) itoa_nat_digits itoa_nat_nonempty by (simp_all add: itoa_def)
  have "snd (url_host_port (join_host_port h (itoa port))) = itoa port" for h
    unfolding join_host_port_shape url_host_port_append [OF digits] by simp
  then have "snd (url_host_port (u_host (SetPort port u))) = itoa port"
    by (simp add: SetPort_def split: option.split prod.split)
  then show ?thesis
    using assms nonempty atoi_itoa [of port] by (simp add: GetPort_def int32_of_id)
qed

theorem SetPort_GetPort_witness:
  "GetPort (SetPort 443 (NewURL ''https'')) = 443"
  by (rule SetPort_GetPort) simp_all


section \<open>Hosts\<close>

lemma has_prefix_Cons: "has_prefix h [c] \<longleftrightarrow> h \<noteq> [] \<and> hd h = c"
  by (cases h) (auto simp: has_prefix_def)

lemma strip_brackets:
  assumes "CHR ''['' \<notin> set h"
  defines "t \<equiv> (if CHR '':'' \<in> set h then ''['' @ h @ '']'' else h)"
  shows "(if has_prefix t ''['' \<and> has_suffix t '']'' then butlast (tl t) else t) = h"
  using assms by (cases h) (auto simp: has_prefix_Cons has_suffix_def)

text \<open>
  A host that is set is the host that is got, brackets added and removed for IPv6,
  and the port stays, whenever the host field already carries a numeric port; without a
  port it is so for hosts without a colon.
\<close>

theorem SetHost_GetHost:
  assumes "CHR ''['' \<notin> set h"
    and "(\<exists>old. split_host_port (u_host u) = Some (old, p) \<and> list_all is_digit p) \<or>
         (split_host_port (u_host u) = None \<and> CHR '':'' \<notin> set h \<and> p = [])"
  shows "GetHost (SetHost h u) = h \<and> snd (url_host_port (u_host (SetHost h u))) = p"
  using assms(2)
proof
  assume "\<exists>old. split_host_port (u_host u) = Some (old, p) \<and> list_all is_digit p"
  then obtain old where p: "split_host_port (u_host u) = Some (old, p)" "list_all is_digit p"
    by blast
  then show ?thesis
    using strip_brackets [OF assms(1)]
    by (simp add: GetHost_def SetHost_def join_host_port_shape url_host_port_append [OF p(2)])
next
  assume none: "split_host_port (u_host u) = None \<and> CHR '':'' \<notin> set h \<and> p = []"
  then have "last_index_byte CHR '':'' h = None"
    by (simp add: last_index_byte_None)
  moreover have "\<not> has_prefix h ''[''"
    using assms(1) by (cases h) (auto simp: has_prefix_Cons)
  ultimately show ?thesis
    using none by (simp add: GetHost_def SetHost_def url_host_port_def)
qed

theorem SetHost_GetHost_witness:
  "GetHost (SetHost ''2001:db8::1'' (SetPort 443 (NewURL ''https''))) = ''2001:db8::1''"
proof -
  have port: "itoa 443 = ''443''"
    by (simp add: itoa_def itoa_nat.simps digit_chr_def char_eval)
  have "split_host_port (u_host (SetPort 443 (NewURL ''https''))) = Some ([], ''443'')"
    by (simp add: SetPort_def NewURL_def empty_url_def port split_host_port_def join_host_port_def has_prefix_def)
  moreover have "list_all is_digit ''443''"
    by (simp add: is_digit_def)
  ultimately show ?thesis
    using SetHost_GetHost [of "''2001:db8::1''" "SetPort 443 (NewURL ''https'')" "''443''"] by simp
qed

text \<open>
  Two ways an IPv6 host breaks: set into a URL without a port it is read back without
  its last group, which becomes the port; and setting a port on a bracketed host without
  one doubles the brackets.
\<close>

theorem ipv6_host_without_port:
  "GetHost (SetHost ''2001:db8::1'' (NewURL ''https'')) = ''2001:db8:'' \<and>
   GetPort (SetHost ''2001:db8::1'' (NewURL ''https'')) = 1 \<and>
   u_host (SetPort 443 ((NewURL ''https'')\<lparr>u_host := ''[::1]''\<rparr>)) = ''[[::1]]:443''"
proof -
  have port: "itoa 443 = ''443''"
    by (simp add: itoa_def itoa_nat.simps digit_chr_def char_eval)
  have v6: "url_host_port ''2001:db8::1'' = (''2001:db8:'', ''1'')"
    by (simp add: url_host_port_def valid_optional_port_def is_digit_def has_prefix_def)
  have set_v6: "u_host (SetHost ''2001:db8::1'' (NewURL ''https'')) = ''2001:db8::1''"
    by (simp add: SetHost_def NewURL_def empty_url_def split_host_port_def)
  have "split_host_port ''[::1]'' = None"
    by (simp add: split_host_port_def has_prefix_def)
  then have "u_host (SetPort 443 ((NewURL ''https'')\<lparr>u_host := ''[::1]''\<rparr>)) = ''[[::1]]:443''"
    by (simp add: SetPort_def port join_host_port_def)
  moreover have "fst (atoi ''1'') = 1"
    by (simp add: atoi_def has_prefix_def is_digit_def dec_val_def digit_val_def)
  ultimately show ?thesis
    unfolding GetHost_def GetPort_def set_v6 v6 by (simp add: int32_of_id)
qed

section \<open>Parsing an assembled URL\<close>

definition scheme_char :: "char \<Rightarrow> bool" where
  "scheme_char c \<longleftrightarrow> is_alpha c \<or> is_digit c \<or> c = CHR ''+'' \<or> c = CHR ''-'' \<or> c = CHR ''.''"

lemma colon_not_scheme: "\<not> is_alpha CHR '':''" "\<not> is_digit CHR '':''"
  by (simp_all add: is_alpha_def is_digit_def)

lemma getScheme_from_scheme:
  "list_all scheme_char s \<Longrightarrow> 0 < i \<Longrightarrow>
   getScheme_from i raw (s @ CHR '':'' # rest) = Inr (take (i + length s) raw, rest)"
  by (induction s arbitrary: i) (auto simp: scheme_char_def colon_not_scheme)

lemma getScheme_scheme:
  "is_alpha c \<Longrightarrow> list_all scheme_char s \<Longrightarrow> getScheme ((c # s) @ CHR '':'' # rest) = Inr (c # s, rest)"
  by (simp add: getScheme_def getScheme_from_scheme)

text \<open>
  C39.  Parsing takes apart what was put together: of a URL made of a scheme, an authority, a
  path and a query, the scheme is lowered, the authority goes to \<open>parseAuthority\<close>, the
  path to \<open>setPath\<close> and the query is kept as written.
\<close>

theorem parse_assembled:
  assumes "is_alpha c" and "list_all scheme_char s"
    and "CHR ''/'' \<notin> set a" and "CHR ''?'' \<notin> set a" and "p = [] \<or> hd p = CHR ''/''" and "CHR ''?'' \<notin> set p"
    and "CHR ''?'' \<notin> set q" and "q \<noteq> []"
  shows "parse L ((c # s) @ ''://'' @ a @ p @ ''?'' @ q) =
    (case parse_authority L a of
       None \<Rightarrow> Inl BadAuthority
     | Some (user, host) \<Rightarrow>
         (case set_path L p (empty_url\<lparr>u_scheme := to_lower (c # s), u_raw_query := q, u_user := user, u_host := host\<rparr>) of
            None \<Rightarrow> Inl BadPath | Some u \<Rightarrow> Inr u))"
proof -
  let ?rest = "''//'' @ a @ p"
  have raw: "(c # s) @ ''://'' @ a @ p @ ''?'' @ q \<noteq> ''*''"
    by simp
  have scheme: "getScheme ((c # s) @ ''://'' @ a @ p @ ''?'' @ q) = Inr (c # s, ?rest @ CHR ''?'' # q)"
    using getScheme_scheme [OF assms(1,2), of "?rest @ CHR ''?'' # q"] by simp
  have "\<not> has_suffix (?rest @ CHR ''?'' # q) ''?''"
  proof
    assume "has_suffix (?rest @ CHR ''?'' # q) ''?''"
    then have "last (?rest @ CHR ''?'' # q) = CHR ''?''"
      unfolding has_suffix_def by (metis append_butlast_last_id append_take_drop_id last_ConsL last_appendR list.distinct(1))
    then show False
      using assms(7,8) last_in_set [of q] by simp
  qed
  moreover have "cut_byte CHR ''?'' (?rest @ CHR ''?'' # q) = (?rest, q, True)"
    using assms(4,6) by (intro cut_byte_append) auto
  ultimately have query: "split_query (?rest @ CHR ''?'' # q) u = (?rest, u\<lparr>u_raw_query := q\<rparr>)" for u
    by (simp add: split_query_def)
  have cut: "(case index_byte CHR ''/'' (a @ p) of Some i \<Rightarrow> (take i (a @ p), drop i (a @ p)) | None \<Rightarrow> (a @ p, [])) = (a, p)"
  proof (cases p)
    case Nil
    then show ?thesis
      using assms(3) by (simp add: index_byte_None [THEN iffD2])
  next
    case (Cons x p')
    then show ?thesis
      using assms(3,5) by (simp add: index_byte_append)
  qed
  have slash: "has_prefix ?rest ''/''" "has_prefix ?rest ''//''"
    by (simp_all add: has_prefix_def)
  show ?thesis
    unfolding parse_def using raw scheme
    by (auto simp: query [simplified] slash [simplified] parse_hier_def to_lower_def cut [simplified] split: option.split)
qed


text \<open>Pieces that decode nothing: no user, the path as it is.\<close>

definition plain_lib :: url_lib where
  "plain_lib = \<lparr>parse_authority = (\<lambda>a. Some (None, a)), set_path = (\<lambda>p u. Some (u\<lparr>u_path := p\<rparr>)),
     set_fragment = (\<lambda>f u. Some (u\<lparr>u_fragment := f\<rparr>)), parse_query = (\<lambda>_. []), encode_values = (\<lambda>_. [])\<rparr>"

theorem parse_assembled_witness:
  "parse plain_lib ''HTTP://x.y:80/p?q'' = Inr (empty_url\<lparr>u_scheme := ''http'', u_raw_query := ''q'', u_host := ''x.y:80'',
     u_path := ''/p''\<rparr>)"
  using parse_assembled [of "CHR ''H''" "''TTP''" "''x.y:80''" "''/p''" "''q''" plain_lib]
  by (simp add: is_alpha_def scheme_char_def plain_lib_def empty_url_def to_lower_def lower_def char_eval)

end
