(* ===== verification/Protect.thy ===== *)
theory Protect
  imports GoStrings Net
begin

text \<open>
  \<open>protect.go\<close>: dialling on a socket the application has exempted from its own VPN.  The
  operating system and the protector are parameters; the calls a dial makes are recorded
  as a trace, which also tells what happens to the descriptor.
\<close>

section \<open>One address\<close>

datatype call = Socket | ProtectCall | ApplySockopt | ConnectTo bytes u16 | BindAny | NewFile | CloseFd | CloseFile

datatype dial_error =
    ErrSocket | ErrUnknownNetwork | ErrProtect | ErrConnect | ErrBind | ErrFile | ErrFilePacketConn
  | ErrResolveDest | ErrFileConn | ErrResolver | ErrEmptyResponse

datatype dial_conn = StreamTo bytes u16 | PacketTo bytes u16

text \<open>What the system and the protector answer for a descriptor of an address.\<close>

record dial_env =
  de_socket :: "bytes \<Rightarrow> bool"
  de_protect :: "bytes \<Rightarrow> bool"
  de_connect :: "bytes \<Rightarrow> bool"
  de_bind :: "bytes \<Rightarrow> bool"
  de_new_file :: "bytes \<Rightarrow> bool"
  de_file_packet_conn :: "bytes \<Rightarrow> bool"
  de_resolve_dest :: "bytes \<Rightarrow> bool"
  de_file_conn :: "bytes \<Rightarrow> bool"

text \<open>\<open>getFd\<close>: an IPv4 socket only for TCP to an IPv4 address.\<close>

datatype address_family = AF_INET | AF_INET6
datatype socket_kind = StreamSocket | DatagramSocket | UnixStream

definition socket_of :: "network \<Rightarrow> bool \<Rightarrow> (address_family \<times> socket_kind) option" where
  "socket_of net isIPv4 =
     (let af = (if net = Network_TCP \<and> isIPv4 then AF_INET else AF_INET6)
      in case net of
           Network_TCP \<Rightarrow> Some (af, StreamSocket)
         | Network_UDP \<Rightarrow> Some (af, DatagramSocket)
         | Network_UNIX \<Rightarrow> Some (af, UnixStream)
         | Network_Unknown \<Rightarrow> None)"

text \<open>The socket address of a connect: \<open>copy\<close> into an array of 4 or 16 bytes.\<close>

definition sockaddr :: "bytes \<Rightarrow> bytes" where
  "sockaddr ip = (if length ip = 4 then copy_into (replicate 4 0) ip else copy_into (replicate 16 0) ip)"

type_synonym dial_result = "dial_conn option \<times> dial_error option"

text \<open>The part after the file is made; the deferred \<open>file.Close\<close> runs on every path of it.\<close>

definition wrap_file :: "dial_env \<Rightarrow> network \<Rightarrow> bytes \<Rightarrow> u16 \<Rightarrow> dial_result" where
  "wrap_file E net ip port =
     (if net = Network_UDP then
        \<comment> \<open>\<open>pc, err :=\<close> declares a new \<open>err\<close>, so its failure is not returned\<close>
        if de_file_packet_conn E ip
        then if de_resolve_dest E ip then (Some (PacketTo ip port), None) else (None, Some ErrResolveDest)
        else (None, None)
      else if de_file_conn E ip then (Some (StreamTo ip port), None) else (None, Some ErrFileConn))"

definition connect_call :: "network \<Rightarrow> bytes \<Rightarrow> u16 \<Rightarrow> call list" where
  "connect_call net ip port =
     (case net of Network_TCP \<Rightarrow> [ConnectTo (sockaddr ip) port] | Network_UDP \<Rightarrow> [BindAny] | _ \<Rightarrow> [])"

definition connect_error :: "dial_env \<Rightarrow> network \<Rightarrow> bytes \<Rightarrow> dial_error option" where
  "connect_error E net ip =
     (case net of
        Network_TCP \<Rightarrow> if de_connect E ip then None else Some ErrConnect
      | Network_UDP \<Rightarrow> if de_bind E ip then None else Some ErrBind
      | _ \<Rightarrow> None)"

definition dial :: "dial_env \<Rightarrow> bool \<Rightarrow> network \<Rightarrow> bytes \<Rightarrow> u16 \<Rightarrow> dial_result \<times> call list" where
  "dial E sockopt net ip port =
     (case socket_of net (length ip = 4) of
        None \<Rightarrow> ((None, Some ErrUnknownNetwork), [])
      | Some _ \<Rightarrow>
          if \<not> de_socket E ip then ((None, Some ErrSocket), [])
          else if \<not> de_protect E ip then ((None, Some ErrProtect), [Socket, ProtectCall, CloseFd])
          else let calls = [Socket, ProtectCall] @ (if sockopt then [ApplySockopt] else []) @ connect_call net ip port
          in (case connect_error E net ip of
                Some e \<Rightarrow> ((None, Some e), calls @ [CloseFd])
              | None \<Rightarrow>
                  if \<not> de_new_file E ip then ((None, Some ErrFile), calls @ [NewFile])
                  else (wrap_file E net ip port, calls @ [NewFile, CloseFile])))"

section \<open>All addresses\<close>

text \<open>The loop of \<open>Dial\<close>: the next address is tried as long as the last dial reported an error.\<close>

fun dial_ips :: "(bytes \<Rightarrow> dial_result \<times> call list) \<Rightarrow> bool \<Rightarrow> dial_result \<Rightarrow> bytes list \<Rightarrow> dial_result \<times> call list" where
  "dial_ips d first r [] = (r, [])"
| "dial_ips d first r (ip # ips) =
     (if \<not> first \<and> snd r = None then (r, [])
      else let (r', calls) = d ip; (r'', more) = dial_ips d False r' ips in (r'', calls @ more))"

definition Dial :: "dial_env \<Rightarrow> (string \<Rightarrow> dial_error + bytes list) \<Rightarrow> bool \<Rightarrow> destination \<Rightarrow> (dial_result \<times> call list) go" where
  "Dial E resolver sockopt dest =
     (if dst_network dest = Network_Unknown then panic
      else if addr_family (dst_address dest) = FamilyDomain then do {
        domain \<leftarrow> addr_domain (dst_address dest);
        (case resolver domain of
           Inl e \<Rightarrow> Some ((None, Some e), [])
         | Inr [] \<Rightarrow> Some ((None, Some ErrEmptyResponse), [])
         | Inr ips \<Rightarrow> Some (dial_ips (\<lambda>ip. dial E sockopt (dst_network dest) ip (dst_port dest)) True (None, None) ips))
      } else do {
        ip \<leftarrow> addr_ip (dst_address dest);
        Some (dial_ips (\<lambda>ip. dial E sockopt (dst_network dest) ip (dst_port dest)) True (None, None) [ip])
      })"

section \<open>Properties\<close>

text \<open>The loop stops at the first address that reports no error, or ends with the last one.\<close>

lemma dial_ips_later:
  "fst (dial_ips d False r ips) =
     (if snd r = None then r
      else case find (\<lambda>ip. snd (fst (d ip)) = None) ips of
             Some ip \<Rightarrow> fst (d ip)
           | None \<Rightarrow> if ips = [] then r else fst (d (last ips)))"
  by (induction ips arbitrary: r) (auto simp: case_prod_beta Let_def split: option.splits)




text \<open>
  A UDP socket that cannot be wrapped is reported as success without a connection:
  the error is assigned to a shadowing variable, so \<open>Dial\<close> returns neither connection nor
  error and tries no further address.
\<close>

theorem udp_wrap_failure_is_silent:
  assumes "de_socket E ip" and "de_protect E ip" and "de_bind E ip" and "de_new_file E ip"
    and "\<not> de_file_packet_conn E ip" and "addr_family (dst_address dest) = FamilyDomain"
    and "addr_domain (dst_address dest) = Some domain" and "resolver domain = Inr (ip # ips)"
    and "dst_network dest = Network_UDP"
  shows "map_option fst (Dial E resolver sockopt dest) = Some (None, None)"
proof -
  have "fst (dial E sockopt Network_UDP ip (dst_port dest)) = (None, None)"
    using assms(1-5) by (simp add: dial_def socket_of_def connect_error_def wrap_file_def Let_def)
  then show ?thesis
    using assms(6-9) dial_ips_later [of "\<lambda>ip. dial E sockopt Network_UDP ip (dst_port dest)" "(None, None)" ips]
    by (simp add: Dial_def case_prod_beta Let_def)
qed

definition flaky_env :: dial_env where
  "flaky_env = \<lparr>de_socket = (\<lambda>_. True), de_protect = (\<lambda>_. True), de_connect = (\<lambda>ip. ip \<noteq> [1, 1, 1, 1]), de_bind = (\<lambda>_. True),
     de_new_file = (\<lambda>_. True), de_file_packet_conn = (\<lambda>_. False), de_resolve_dest = (\<lambda>_. True), de_file_conn = (\<lambda>_. True)\<rparr>"

definition domain_dest :: "network \<Rightarrow> destination" where
  "domain_dest net = \<lparr>dst_address = \<lparr>addr_family = FamilyDomain, addr_ip = None, addr_domain = Some ''example.org'',
     addr_string = ''example.org''\<rparr>, dst_port = 443, dst_network = net\<rparr>"


theorem udp_wrap_failure_is_silent_witness:
  "map_option fst (Dial flaky_env (\<lambda>_. Inr [[1, 1, 1, 1], [8, 8, 8, 8]]) False (domain_dest Network_UDP)) = Some (None, None)"
  by (rule udp_wrap_failure_is_silent [where ip = "[1, 1, 1, 1]" and ips = "[[8, 8, 8, 8]]"])
    (simp_all add: flaky_env_def domain_dest_def)

end
