(* ===== verification/Dns.thy ===== *)
theory Dns
  imports V2Ray
begin

text \<open>
  \<open>dns.go\<close>: the local resolver the core asks, the resolver of the process that asks the core,
  and the two functions that build a query and read a response.  Messages are packed and
  parsed by \<open>golang.org/x/net/dns/dnsmessage\<close>, which is a parameter; \<open>DnsWire\<close> instantiates it
  with the format of RFC 1035.
\<close>

section \<open>Query context\<close>

text \<open>
  What a resolver has answered so far.  An address is \<open>None\<close> when \<open>net.ParseIP\<close> gave nil.  Any
  stored error is one, an error code of zero as well.
\<close>

datatype 'e dns_error = RCodeError int | ErrnoError int | EmptyResponse | ResolverError 'e

record ('ip, 'e) query =
  q_message :: bytes
  q_ips :: "'ip option list"
  q_error :: "'e dns_error option"

definition new_query :: "('ip, 'e) query" where
  "new_query = \<lparr>q_message = [], q_ips = [], q_error = None\<rparr>"

datatype context_call = CallSuccess string | CallRawSuccess bytes | CallErrorCode int | CallErrno int

text \<open>\<open>Success\<close>, \<open>RawSuccess\<close>, \<open>ErrorCode\<close> and \<open>Errno\<close>; \<open>not_blank\<close> is \<open>common.IsNotBlank\<close>.\<close>

fun query_call :: "(string \<Rightarrow> 'ip option) \<Rightarrow> (string \<Rightarrow> bool) \<Rightarrow> context_call \<Rightarrow> ('ip, 'e) query \<Rightarrow> ('ip, 'e) query" where
  "query_call parse_ip not_blank (CallSuccess result) q =
     q\<lparr>q_ips := map parse_ip (filter not_blank (split_byte (CHR 0x0A) result))\<rparr>"
| "query_call parse_ip not_blank (CallRawSuccess result) q = q\<lparr>q_message := result\<rparr>"
| "query_call parse_ip not_blank (CallErrorCode code) q = q\<lparr>q_error := Some (RCodeError code)\<rparr>"
| "query_call parse_ip not_blank (CallErrno errno) q = q\<lparr>q_error := Some (ErrnoError errno)\<rparr>"

text \<open>
  A resolver makes calls on the context and returns an error or none.  The two tasks: what
  they assign to \<open>response\<close>, if they do, and what they return.
\<close>

type_synonym 'e resolver = "context_call list \<times> 'e option"

definition answered :: "(string \<Rightarrow> 'ip option) \<Rightarrow> (string \<Rightarrow> bool) \<Rightarrow> 'e resolver \<Rightarrow> 'e dns_error + ('ip, 'e) query" where
  "answered parse_ip not_blank r =
     (let query = fold (query_call parse_ip not_blank) (fst r) new_query
      in case snd r of
           Some e \<Rightarrow> Inl (ResolverError e)
         | None \<Rightarrow> (case q_error query of Some e \<Rightarrow> Inl e | None \<Rightarrow> Inr query))"

definition exchange_task :: "(string \<Rightarrow> 'ip option) \<Rightarrow> (string \<Rightarrow> bool) \<Rightarrow> 'e resolver \<Rightarrow> bytes option \<times> 'e dns_error option" where
  "exchange_task parse_ip not_blank r =
     (case answered parse_ip not_blank r of
        Inl e \<Rightarrow> (None, Some e)
      | Inr query \<Rightarrow> (Some (q_message query), None))"

definition lookup_task :: "(string \<Rightarrow> 'ip option) \<Rightarrow> (string \<Rightarrow> bool) \<Rightarrow> 'e resolver \<Rightarrow> 'ip option list \<times> 'e dns_error option" where
  "lookup_task parse_ip not_blank r =
     (case answered parse_ip not_blank r of
        Inl e \<Rightarrow> ([], Some e)
      | Inr query \<Rightarrow> (q_ips query, if q_ips query = [] then Some EmptyResponse else None))"

text \<open>
  \<open>return response, task.Run(ctx, f)\<close>, where \<open>f\<close> assigns \<open>response\<close>: Go fixes the order of calls
  in an expression list, and leaves open whether the variable is read before or after them.
  \<open>first\<close> is the reading before; \<open>cancelled\<close> is the error of a context that ended first.
\<close>

definition return_after :: "bool \<Rightarrow> 'e option \<Rightarrow> 'r \<Rightarrow> 'r \<times> 'e dns_error option \<Rightarrow> 'r \<times> 'e dns_error option" where
  "return_after first cancelled zero task =
     (case cancelled of
        Some e \<Rightarrow> (zero, Some (ResolverError e))
      | None \<Rightarrow> (if first then zero else fst task, snd task))"

datatype query_strategy = USE_IP | USE_IP4 | USE_IP6

definition lookup_network :: "query_strategy \<Rightarrow> string" where
  "lookup_network strategy = (case strategy of USE_IP4 \<Rightarrow> ''ip4'' | USE_IP6 \<Rightarrow> ''ip6'' | USE_IP \<Rightarrow> ''ip'')"

record 'e local_resolver =
  lr_raw :: bool
  lr_query_raw :: "bytes \<Rightarrow> 'e resolver"
  lr_lookup_ip :: "string \<Rightarrow> string \<Rightarrow> 'e resolver"

datatype transport_type = ExchangeRawType | LookupType

definition transport_Type :: "'e local_resolver \<Rightarrow> transport_type" where
  "transport_Type l = (if lr_raw l then ExchangeRawType else LookupType)"

definition ExchangeRaw :: "bool \<Rightarrow> 'e option \<Rightarrow> 'e local_resolver \<Rightarrow> bytes \<Rightarrow> bytes option \<times> 'e dns_error option" where
  "ExchangeRaw first cancelled l message =
     return_after first cancelled None (exchange_task (\<lambda>_. None :: unit option) (\<lambda>_. True) (lr_query_raw l message))"

definition Lookup :: "bool \<Rightarrow> 'e option \<Rightarrow> (string \<Rightarrow> 'ip option) \<Rightarrow> (string \<Rightarrow> bool) \<Rightarrow> 'e local_resolver \<Rightarrow> string \<Rightarrow> query_strategy
    \<Rightarrow> 'ip option list \<times> 'e dns_error option" where
  "Lookup first cancelled parse_ip not_blank l domain strategy =
     return_after first cancelled [] (lookup_task parse_ip not_blank (lr_lookup_ip l (lookup_network strategy) domain))"

text \<open>
  The other two methods refuse, and \<open>SetLocalhostResolver\<close> registers a transport over the
  resolver, or takes the registered one back.
\<close>

datatype transport_error = ErrNoClue

definition transport_Write :: "'e local_resolver \<Rightarrow> 'm \<Rightarrow> transport_error option" where
  "transport_Write l message = Some ErrNoClue"

definition transport_Exchange :: "'e local_resolver \<Rightarrow> 'm \<Rightarrow> 'm option \<times> transport_error option" where
  "transport_Exchange l message = (None, Some ErrNoClue)"

datatype 'e local_transport = LocalTransport "'e local_resolver"

definition SetLocalhostResolver :: "'e local_resolver option \<Rightarrow> 'e local_transport option" where
  "SetLocalhostResolver local = (case local of None \<Rightarrow> None | Some r \<Rightarrow> Some (LocalTransport r))"

section \<open>The resolver of the process\<close>

text \<open>
  \<open>SetCurrentDomainNameSystemQueryInstance\<close>: the system's resolver, or Go's own over the
  core, whose connections to 1.0.0.1:53 come in through \<open>dns-in\<close>.  \<open>dispatch\<close> is the core's
  answer for an inbound tag.
\<close>

definition dnsAddress :: address where
  "dnsAddress = \<lparr>addr_family = FamilyIPv4, addr_ip = Some [1, 0, 0, 1], addr_domain = panic, addr_string = ''1.0.0.1''\<rparr>"

definition dnsDestination :: destination where
  "dnsDestination = \<lparr>dst_address = dnsAddress, dst_port = 53, dst_network = Network_UDP\<rparr>"

datatype 'l dns_conn = PinnedPacketConn 'l conn_kind

definition dns_dial :: "(string \<Rightarrow> unit + 'l) \<Rightarrow> v2ray_instance \<Rightarrow> instance_error + 'l dns_conn" where
  "dns_dial dispatch i =
     (case dialContext (dispatch ''dns-in'') dnsDestination i of
        Inl e \<Rightarrow> Inl e
      | Inr (l, k) \<Rightarrow> Inr (PinnedPacketConn l k))"

datatype default_resolver = SystemResolver | CoreResolver v2ray_instance

definition SetCurrentDomainNameSystemQueryInstance :: "v2ray_instance option \<Rightarrow> default_resolver" where
  "SetCurrentDomainNameSystemQueryInstance i = (case i of None \<Rightarrow> SystemResolver | Some i \<Rightarrow> CoreResolver i)"

text \<open>\<open>pinnedPacketConn\<close>: \<open>read\<close> and \<open>write\<close> are those of the connection.\<close>

definition pinned_ReadFrom :: "nat \<times> 'e option \<Rightarrow> 'a \<Rightarrow> nat \<times> 'a option \<times> 'e option" where
  "pinned_ReadFrom read remote = (fst read, if snd read = None then Some remote else None, snd read)"

definition pinned_WriteTo :: "(bytes \<Rightarrow> nat \<times> 'e option) \<Rightarrow> bytes \<Rightarrow> 'a \<Rightarrow> nat \<times> 'e option" where
  "pinned_WriteTo write p addr = write p"

section \<open>Queries\<close>

datatype question_type = TypeA | TypeAAAA

record question =
  qn_name :: string
  qn_type :: question_type

record dns_message =
  dm_id :: u16
  dm_recursion :: bool
  dm_questions :: "question list"

definition query_types :: "int \<Rightarrow> question_type list" where
  "query_types ipv6Mode =
     (if ipv6Mode \<noteq> IPv6Only then [TypeA] else []) @ (if ipv6Mode \<noteq> IPv6Disable then [TypeAAAA] else [])"

definition absolute :: "string \<Rightarrow> string" where
  "absolute domain = (if has_suffix domain ''.'' then domain else domain @ ''.'')"

text \<open>\<open>EncodeDomainNameSystemQuery\<close>: \<open>name_fits\<close> is \<open>NewName\<close>, \<open>pack\<close> is \<open>Message.Pack\<close>; every question is of class INET.\<close>

datatype 'e encode_error = NameTooLong | PackError 'e

definition EncodeDomainNameSystemQuery :: "(string \<Rightarrow> bool) \<Rightarrow> (dns_message \<Rightarrow> 'e + bytes) \<Rightarrow> int \<Rightarrow> string \<Rightarrow> int \<Rightarrow> 'e encode_error + bytes" where
  "EncodeDomainNameSystemQuery name_fits pack i domain ipv6Mode =
     (let name = absolute domain
      in if \<not> name_fits name then Inl NameTooLong
         else case pack \<lparr>dm_id = uint16_of i, dm_recursion = True,
                dm_questions = map (\<lambda>t. \<lparr>qn_name = name, qn_type = t\<rparr>) (query_types ipv6Mode)\<rparr> of
                Inl e \<Rightarrow> Inl (PackError e)
              | Inr b \<Rightarrow> Inr b)"

text \<open>A packed message of valid names can be read again.\<close>

locale message_codec =
  fixes name_fits :: "string \<Rightarrow> bool" and pack :: "dns_message \<Rightarrow> 'e + bytes"
    and unpack :: "bytes \<Rightarrow> dns_message option" and valid_name :: "string \<Rightarrow> bool"
  assumes fits: "valid_name n \<Longrightarrow> name_fits n"
    and pack: "length (dm_questions m) < 65536 \<Longrightarrow> (\<And>q. q \<in> set (dm_questions m) \<Longrightarrow> valid_name (qn_name q)) \<Longrightarrow>
      \<exists>b. pack m = Inr b \<and> unpack b = Some m"
begin

lemma encoded_query:
  assumes "valid_name (absolute domain)"
  shows "\<exists>b. EncodeDomainNameSystemQuery name_fits pack i domain mode = Inr b \<and>
    unpack b = Some \<lparr>dm_id = uint16_of i, dm_recursion = True,
      dm_questions = map (\<lambda>t. \<lparr>qn_name = absolute domain, qn_type = t\<rparr>) (query_types mode)\<rparr>"
proof -
  let ?m = "\<lparr>dm_id = uint16_of i, dm_recursion = True,
      dm_questions = map (\<lambda>t. \<lparr>qn_name = absolute domain, qn_type = t\<rparr>) (query_types mode)\<rparr>"
  have "length (dm_questions ?m) < 65536" by (simp add: query_types_def)
  moreover have "valid_name (qn_name q)" if "q \<in> set (dm_questions ?m)" for q using that assms by auto
  ultimately obtain b where "pack ?m = Inr b" "unpack b = Some ?m" using pack by blast
  then show ?thesis using fits [OF assms] by (simp add: EncodeDomainNameSystemQuery_def)
qed

end

section \<open>Responses\<close>

text \<open>
  \<open>dnsmessage.Parser\<close>: its state is \<open>'p\<close>.  \<open>AnswerHeader\<close> reports the end of the section, an error, or
  the type of the next record.
\<close>

datatype record_type = RecordA | RecordAAAA | RecordOther
datatype ('p, 'e) answer_header = SectionDone | BadHeader 'e | Answer record_type 'p

record ('p, 'e) dns_parser =
  dp_start :: "bytes \<Rightarrow> 'e + nat \<times> 'p"
  dp_skip_questions :: "'p \<Rightarrow> 'e + 'p"
  dp_answer_header :: "'p \<Rightarrow> ('p, 'e) answer_header"
  dp_a_resource :: "'p \<Rightarrow> 'e + bytes \<times> 'p"
  dp_aaaa_resource :: "'p \<Rightarrow> 'e + bytes \<times> 'p"
  dp_skip_answer :: "'p \<Rightarrow> 'e + 'p"

datatype 'e decode_error = BadResponse 'e | BadRcode nat | BadQuestions 'e | BadAnswers 'e | BadA 'e | BadAAAA 'e | BadSkip 'e

text \<open>The loop over the answers; \<open>text_of\<close> prints a \<open>netip.Addr\<close>.  \<open>None\<close> is a loop that does not end.\<close>

partial_function (option) decode_loop :: "('p, 'e) dns_parser \<Rightarrow> (bytes \<Rightarrow> string) \<Rightarrow> 'p \<Rightarrow> string \<Rightarrow> (string \<times> 'e decode_error option) option" where
  "decode_loop P text_of p response =
     (case dp_answer_header P p of
        SectionDone \<Rightarrow> Some (response, None)
      | BadHeader e \<Rightarrow> Some (response, Some (BadAnswers e))
      | Answer RecordA p \<Rightarrow>
          (case dp_a_resource P p of
             Inl e \<Rightarrow> Some (response, Some (BadA e))
           | Inr (a, p) \<Rightarrow> decode_loop P text_of p (response @ '' '' @ text_of a))
      | Answer RecordAAAA p \<Rightarrow>
          (case dp_aaaa_resource P p of
             Inl e \<Rightarrow> Some (response, Some (BadAAAA e))
           | Inr (a, p) \<Rightarrow> decode_loop P text_of p (response @ '' '' @ text_of a))
      | Answer RecordOther p \<Rightarrow>
          (case dp_skip_answer P p of
             Inl e \<Rightarrow> Some (response, Some (BadSkip e))
           | Inr p \<Rightarrow> decode_loop P text_of p response))"

declare decode_loop.simps [code]

definition DecodeContentDomainNameSystemResponse :: "('p, 'e) dns_parser \<Rightarrow> (bytes \<Rightarrow> string) \<Rightarrow> bytes \<Rightarrow> (string \<times> 'e decode_error option) option" where
  "DecodeContentDomainNameSystemResponse P text_of content =
     (case dp_start P content of
        Inl e \<Rightarrow> Some ([], Some (BadResponse e))
      | Inr (rcode, p) \<Rightarrow>
          if rcode \<noteq> 0 then Some ([], Some (BadRcode rcode))
          else (case dp_skip_questions P p of
             Inl e \<Rightarrow> Some ([], Some (BadQuestions e))
           | Inr p \<Rightarrow> decode_loop P text_of p []))"

text \<open>
  What the loop relies on: reading or skipping a record makes progress, and a parser that
  stands before the records \<open>rs\<close> reads them one by one.
\<close>

datatype answer = AnswerA bytes | AnswerAAAA bytes | AnswerOther nat bytes

locale answer_parser =
  fixes P :: "('p, 'e) dns_parser" and remaining :: "'p \<Rightarrow> nat" and before :: "'p \<Rightarrow> answer list \<Rightarrow> bool"
  assumes progress: "dp_answer_header P p = Answer k q \<Longrightarrow>
      (\<And>a r. dp_a_resource P q = Inr (a, r) \<Longrightarrow> remaining r < remaining p)"
      "dp_answer_header P p = Answer k q \<Longrightarrow> (\<And>a r. dp_aaaa_resource P q = Inr (a, r) \<Longrightarrow> remaining r < remaining p)"
      "dp_answer_header P p = Answer k q \<Longrightarrow> (\<And>r. dp_skip_answer P q = Inr r \<Longrightarrow> remaining r < remaining p)"
    and before_none: "before p [] \<Longrightarrow> dp_answer_header P p = SectionDone"
    and before_a: "before p (AnswerA a # rs) \<Longrightarrow> \<exists>q r. dp_answer_header P p = Answer RecordA q \<and> dp_a_resource P q = Inr (a, r) \<and> before r rs"
    and before_aaaa: "before p (AnswerAAAA a # rs) \<Longrightarrow> \<exists>q r. dp_answer_header P p = Answer RecordAAAA q \<and> dp_aaaa_resource P q = Inr (a, r) \<and> before r rs"
    and before_other: "before p (AnswerOther n d # rs) \<Longrightarrow> \<exists>q r. dp_answer_header P p = Answer RecordOther q \<and> dp_skip_answer P q = Inr r \<and> before r rs"
begin

lemma decode_loop_ends: "decode_loop P text_of p response \<noteq> None"
proof (induction p arbitrary: response rule: measure_induct_rule [of remaining])
  case (less p)
  show ?case
  proof (cases "dp_answer_header P p")
    case (Answer k q)
    note next_record = less.IH [OF progress(1) [OF Answer]] less.IH [OF progress(2) [OF Answer]] less.IH [OF progress(3) [OF Answer]]
    show ?thesis
    proof (cases k)
      case RecordA
      then show ?thesis using Answer next_record(1) by (subst decode_loop.simps) (cases "dp_a_resource P q", auto)
    next
      case RecordAAAA
      then show ?thesis using Answer next_record(2) by (subst decode_loop.simps) (cases "dp_aaaa_resource P q", auto)
    next
      case RecordOther
      then show ?thesis using Answer next_record(3) by (subst decode_loop.simps) (cases "dp_skip_answer P q", auto)
    qed
  qed (subst decode_loop.simps, simp)+
qed

lemma decode_ends: "DecodeContentDomainNameSystemResponse P text_of content \<noteq> None"
  using decode_loop_ends by (auto simp: DecodeContentDomainNameSystemResponse_def split: sum.split)

end

fun answer_text :: "(bytes \<Rightarrow> string) \<Rightarrow> answer \<Rightarrow> string" where
  "answer_text text_of (AnswerA a) = '' '' @ text_of a"
| "answer_text text_of (AnswerAAAA a) = '' '' @ text_of a"
| "answer_text text_of (AnswerOther n d) = []"

context answer_parser
begin

lemma decode_loop_before: "before p rs \<Longrightarrow> decode_loop P text_of p response = Some (response @ concat (map (answer_text text_of) rs), None)"
proof (induction rs arbitrary: p response)
  case Nil
  then show ?case by (subst decode_loop.simps) (simp add: before_none)
next
  case (Cons r rs)
  show ?case
  proof (cases r)
    case (AnswerA a)
    then obtain q s where "dp_answer_header P p = Answer RecordA q" "dp_a_resource P q = Inr (a, s)" "before s rs"
      using before_a Cons.prems by blast
    then show ?thesis using Cons.IH [of s] AnswerA by (subst decode_loop.simps) simp
  next
    case (AnswerAAAA a)
    then obtain q s where "dp_answer_header P p = Answer RecordAAAA q" "dp_aaaa_resource P q = Inr (a, s)" "before s rs"
      using before_aaaa Cons.prems by blast
    then show ?thesis using Cons.IH [of s] AnswerAAAA by (subst decode_loop.simps) simp
  next
    case (AnswerOther n d)
    then obtain q s where "dp_answer_header P p = Answer RecordOther q" "dp_skip_answer P q = Inr s" "before s rs"
      using before_other Cons.prems by blast
    then show ?thesis using Cons.IH [of s] AnswerOther by (subst decode_loop.simps) simp
  qed
qed

lemma decode_answers:
  assumes "dp_start P content = Inr (0, p)" "dp_skip_questions P p = Inr q" "before q rs"
  shows "DecodeContentDomainNameSystemResponse P text_of content = Some (concat (map (answer_text text_of) rs), None)"
  using decode_loop_before [OF assms(3), of text_of "[]"] assms(1,2) by (simp add: DecodeContentDomainNameSystemResponse_def)

end

end
