(* ===== verification/DnsWire.thy ===== *)
theory DnsWire
  imports Dns
begin

text \<open>
  The message format of RFC 1035 as an instance of the interfaces of \<open>Dns\<close>: uncompressed
  names in queries, and a parser of responses that also follows the records past a
  compressed name.  The properties of the query and response functions follow.
\<close>

section \<open>Names\<close>

definition labels :: "string \<Rightarrow> string list" where
  "labels n = butlast (split_byte (CHR ''.'') n)"

definition dotted :: "string list \<Rightarrow> string" where
  "dotted ls = concat (map (\<lambda>l. l @ ''.'') ls)"

definition good_label :: "string \<Rightarrow> bool" where
  "good_label l \<longleftrightarrow> 0 < length l \<and> length l < 64"

definition rfc_name :: "string \<Rightarrow> bool" where
  "rfc_name n \<longleftrightarrow> n = dotted (labels n) \<and> list_all good_label (labels n) \<and> length n \<le> 255"

definition char_byte :: "char \<Rightarrow> byte" where
  "char_byte c = word_of_nat (of_char c)"

definition byte_char :: "byte \<Rightarrow> char" where
  "byte_char b = char_of (unat b)"

lemma byte_char_char_byte [simp]: "byte_char (char_byte c) = c"
proof -
  have "(of_char c :: nat) < 256" by simp
  then show ?thesis by (simp add: byte_char_def char_byte_def unat_of_nat)
qed

fun put_labels :: "string list \<Rightarrow> bytes" where
  "put_labels [] = [0]"
| "put_labels (l # ls) = word_of_nat (length l) # map char_byte l @ put_labels ls"

fun get_labels :: "bytes \<Rightarrow> (string list \<times> bytes) option" where
  "get_labels [] = None"
| "get_labels (n # bs) =
     (if n = 0 then Some ([], bs)
      else if length bs < unat n then None
      else map_option (\<lambda>(ls, r). (map byte_char (take (unat n) bs) # ls, r)) (get_labels (drop (unat n) bs)))"

lemma good_label_length: "good_label l \<Longrightarrow> unat (word_of_nat (length l) :: byte) = length l"
  by (simp add: good_label_def unat_of_nat)

lemma get_put_labels: "list_all good_label ls \<Longrightarrow> get_labels (put_labels ls @ r) = Some (ls, r)"
proof (induction ls)
  case (Cons l ls)
  then have "unat (word_of_nat (length l) :: byte) = length l" "0 < length l"
    by (simp_all add: good_label_length) (simp add: good_label_def)
  moreover have "(word_of_nat (length l) :: byte) \<noteq> 0" using calculation by force
  ultimately show ?case using Cons by (simp add: comp_def)
qed simp

section \<open>Queries\<close>

definition type_code :: "question_type \<Rightarrow> u16" where
  "type_code t = (case t of TypeA \<Rightarrow> 1 | TypeAAAA \<Rightarrow> 28)"

definition put_question :: "question \<Rightarrow> bytes" where
  "put_question q = put_labels (labels (qn_name q)) @ put_be16 (type_code (qn_type q)) @ put_be16 1"

definition rfc1035_pack :: "dns_message \<Rightarrow> unit + bytes" where
  "rfc1035_pack m =
     (if list_all (\<lambda>q. rfc_name (qn_name q)) (dm_questions m) \<and> length (dm_questions m) < 65536
      then Inr (put_be16 (dm_id m) @ [if dm_recursion m then 1 else 0, 0] @ put_be16 (word_of_nat (length (dm_questions m))) @
        [0, 0, 0, 0, 0, 0] @ concat (map put_question (dm_questions m)))
      else Inl ())"

fun get_questions :: "nat \<Rightarrow> bytes \<Rightarrow> question list option" where
  "get_questions 0 bs = Some []"
| "get_questions (Suc n) bs =
     (case get_labels bs of
        Some (ls, t1 # t2 # c1 # c2 # r) \<Rightarrow>
          (let code = be16 t1 t2
           in if code \<noteq> 1 \<and> code \<noteq> 28 then None
              else map_option (\<lambda>qs. \<lparr>qn_name = dotted ls, qn_type = if code = 1 then TypeA else TypeAAAA\<rparr> # qs) (get_questions n r))
      | _ \<Rightarrow> None)"

definition rfc1035_unpack :: "bytes \<Rightarrow> dns_message option" where
  "rfc1035_unpack b =
     (if length b < 12 then None
      else map_option (\<lambda>qs. \<lparr>dm_id = be16 (b ! 0) (b ! 1), dm_recursion = bit (b ! 2) 0, dm_questions = qs\<rparr>)
        (get_questions (unat (be16 (b ! 4) (b ! 5))) (drop 12 b)))"

lemma put_be16_bytes: obtains a b where "put_be16 x = [a, b]" "be16 a b = x"
  by (rule that [of "ucast (drop_bit 8 x)" "ucast x"]) (simp add: put_be16_def, rule be16_put_be16)

lemma get_question:
  assumes "get_labels bs = Some (ls, put_be16 (type_code t) @ put_be16 1 @ r)"
  shows "get_questions (Suc n) bs = map_option (\<lambda>qs. \<lparr>qn_name = dotted ls, qn_type = t\<rparr> # qs) (get_questions n r)"
proof -
  obtain a b where ab: "put_be16 (type_code t) = [a, b]" "be16 a b = type_code t" by (rule put_be16_bytes)
  obtain c d where "put_be16 1 = [c, d]" by (rule put_be16_bytes)
  then show ?thesis using assms ab by (cases t) (simp_all add: Let_def type_code_def)
qed

lemma get_put_questions:
  "list_all (\<lambda>q. rfc_name (qn_name q)) qs \<Longrightarrow> get_questions (length qs) (concat (map put_question qs)) = Some qs"
proof (induction qs)
  case (Cons q qs)
  then have good: "list_all good_label (labels (qn_name q))" and name: "dotted (labels (qn_name q)) = qn_name q"
    by (auto simp: rfc_name_def)
  have "get_questions (length qs) (concat (map put_question qs)) = Some qs" using Cons by simp
  moreover have "put_question q @ r = put_labels (labels (qn_name q)) @ put_be16 (type_code (qn_type q)) @ put_be16 1 @ r" for r
    by (simp add: put_question_def)
  ultimately show ?case
    using get_question [OF get_put_labels [OF good], where t = "qn_type q" and r = "concat (map put_question qs)" and n = "length qs"] name
    by (simp del: get_questions.simps)
qed simp

lemma unpack_pack:
  assumes "length (dm_questions m) < 65536" and "\<And>q. q \<in> set (dm_questions m) \<Longrightarrow> rfc_name (qn_name q)"
  shows "\<exists>b. rfc1035_pack m = Inr b \<and> rfc1035_unpack b = Some m"
proof -
  let ?qs = "dm_questions m"
  have names: "list_all (\<lambda>q. rfc_name (qn_name q)) ?qs" using assms(2) by (simp add: list_all_iff)
  obtain a b where ab: "put_be16 (dm_id m) = [a, b]" "be16 a b = dm_id m" by (rule put_be16_bytes)
  obtain c d where cd: "put_be16 (word_of_nat (length ?qs)) = [c, d]" "be16 c d = word_of_nat (length ?qs)" by (rule put_be16_bytes)
  have "unat (be16 c d) = length ?qs" using assms(1) by (simp add: cd(2) unat_of_nat)
  then have "rfc1035_unpack ([a, b, if dm_recursion m then 1 else 0, 0, c, d, 0, 0, 0, 0, 0, 0] @ concat (map put_question ?qs)) = Some m"
    using get_put_questions [OF names] ab(2) by (simp add: rfc1035_unpack_def)
  then show ?thesis using names assms(1) ab(1) cd(1) by (simp add: rfc1035_pack_def)
qed

interpretation rfc_codec: message_codec "\<lambda>n. length n \<le> 255" rfc1035_pack rfc1035_unpack rfc_name
  by unfold_locales (auto simp: rfc_name_def intro: unpack_pack)

section \<open>Responses\<close>

text \<open>The parser before an answer: answers left, and the bytes; after its header, at the data, whose length is known.\<close>

record parser_state =
  ps_questions :: nat
  ps_answers :: nat
  ps_data :: bytes
  ps_length :: nat

fun skip_name :: "bytes \<Rightarrow> bytes option" where
  "skip_name [] = None"
| "skip_name (n # bs) =
     (if n = 0 then Some bs
      else if 192 \<le> n then (case bs of [] \<Rightarrow> None | _ # r \<Rightarrow> Some r)
      else if 64 \<le> n \<or> length bs < unat n then None
      else skip_name (drop (unat n) bs))"

definition rfc_start :: "bytes \<Rightarrow> unit + nat \<times> parser_state" where
  "rfc_start b =
     (if length b < 12 then Inl ()
      else Inr (unat (b ! 3) mod 16, \<lparr>ps_questions = unat (be16 (b ! 4) (b ! 5)), ps_answers = unat (be16 (b ! 6) (b ! 7)),
        ps_data = drop 12 b, ps_length = 0\<rparr>))"

fun skip_questions :: "nat \<Rightarrow> bytes \<Rightarrow> bytes option" where
  "skip_questions 0 b = Some b"
| "skip_questions (Suc n) b =
     (case skip_name b of None \<Rightarrow> None | Some r \<Rightarrow> if length r < 4 then None else skip_questions n (drop 4 r))"

definition rfc_skip_questions :: "parser_state \<Rightarrow> unit + parser_state" where
  "rfc_skip_questions p =
     (case skip_questions (ps_questions p) (ps_data p) of
        None \<Rightarrow> Inl () | Some r \<Rightarrow> Inr (p\<lparr>ps_questions := 0, ps_data := r\<rparr>))"

definition record_kind :: "u16 \<Rightarrow> record_type" where
  "record_kind t = (if t = 1 then RecordA else if t = 28 then RecordAAAA else RecordOther)"

definition rfc_answer_header :: "parser_state \<Rightarrow> (parser_state, unit) answer_header" where
  "rfc_answer_header p =
     (if ps_answers p = 0 then SectionDone
      else case skip_name (ps_data p) of
        None \<Rightarrow> BadHeader ()
      | Some r \<Rightarrow>
          if length r < 10 then BadHeader ()
          else Answer (record_kind (be16 (r ! 0) (r ! 1))) (p\<lparr>ps_data := drop 10 r, ps_length := unat (be16 (r ! 8) (r ! 9))\<rparr>))"

definition rfc_skip :: "parser_state \<Rightarrow> unit + parser_state" where
  "rfc_skip p =
     (if ps_answers p = 0 \<or> length (ps_data p) < ps_length p then Inl ()
      else Inr (p\<lparr>ps_answers := ps_answers p - 1, ps_data := drop (ps_length p) (ps_data p), ps_length := 0\<rparr>))"

definition rfc_resource :: "nat \<Rightarrow> parser_state \<Rightarrow> unit + bytes \<times> parser_state" where
  "rfc_resource n p =
     (case rfc_skip p of Inl e \<Rightarrow> Inl e | Inr q \<Rightarrow> if ps_length p = n then Inr (take n (ps_data p), q) else Inl ())"

definition rfc_parser :: "(parser_state, unit) dns_parser" where
  "rfc_parser = \<lparr>dp_start = rfc_start, dp_skip_questions = rfc_skip_questions, dp_answer_header = rfc_answer_header,
     dp_a_resource = rfc_resource 4, dp_aaaa_resource = rfc_resource 16, dp_skip_answer = rfc_skip\<rparr>"

text \<open>Records on the wire: the name points back to the question, class INET, a minute to live.\<close>

fun answer_record :: "answer \<Rightarrow> u16 \<times> bytes" where
  "answer_record (AnswerA a) = (1, a)"
| "answer_record (AnswerAAAA a) = (28, a)"
| "answer_record (AnswerOther n d) = (word_of_nat n, d)"

definition put_answer :: "answer \<Rightarrow> bytes" where
  "put_answer r = [0xC0, 0x0C] @ put_be16 (fst (answer_record r)) @ put_be16 1 @ [0, 0, 0, 60] @
     put_be16 (word_of_nat (length (snd (answer_record r)))) @ snd (answer_record r)"

fun valid_answer :: "answer \<Rightarrow> bool" where
  "valid_answer (AnswerA a) = (length a = 4)"
| "valid_answer (AnswerAAAA a) = (length a = 16)"
| "valid_answer (AnswerOther n d) = (n < 65536 \<and> n \<noteq> 1 \<and> n \<noteq> 28 \<and> length d < 65536)"

definition before_answers :: "parser_state \<Rightarrow> answer list \<Rightarrow> bool" where
  "before_answers p rs \<longleftrightarrow> ps_answers p = length rs \<and> list_all valid_answer rs \<and>
     take (length (concat (map put_answer rs))) (ps_data p) = concat (map put_answer rs)"

lemma record_word:
  assumes "valid_answer r"
  shows "unat (word_of_nat (length (snd (answer_record r))) :: u16) = length (snd (answer_record r))"
  using assms by (cases r) (simp_all add: unat_of_nat)

lemma kind_of_answer:
  assumes "valid_answer r"
  shows "record_kind (fst (answer_record r)) = (case r of AnswerA _ \<Rightarrow> RecordA | AnswerAAAA _ \<Rightarrow> RecordAAAA | AnswerOther _ _ \<Rightarrow> RecordOther)"
proof (cases r)
  case (AnswerOther n d)
  then have n: "n < 65536" "n \<noteq> 1" "n \<noteq> 28" using assms by simp_all
  have big: "unat (28 :: u16) = 28" by simp
  have "unat (word_of_nat n :: u16) = n" using n(1) by (simp add: unat_of_nat)
  then have "(word_of_nat n :: u16) \<noteq> 1" "(word_of_nat n :: u16) \<noteq> 28"
    using n unat_1 [where 'a = 16] big by metis+
  then show ?thesis using AnswerOther by (simp add: record_kind_def)
qed (simp_all add: record_kind_def)

text \<open>One record: its header is read and its data is next.\<close>

lemma read_record:
  assumes "before_answers p (r # rs)"
  shows "\<exists>q s. rfc_answer_header p = Answer (record_kind (fst (answer_record r))) q \<and> rfc_skip q = Inr s \<and>
     ps_length q = length (snd (answer_record r)) \<and> take (ps_length q) (ps_data q) = snd (answer_record r) \<and> before_answers s rs"
proof -
  let ?d = "snd (answer_record r)"
  have p: "ps_answers p = Suc (length rs)" "valid_answer r" "list_all valid_answer rs"
    using assms by (simp_all add: before_answers_def)
  obtain tl where tl: "ps_data p = put_answer r @ concat (map put_answer rs) @ tl"
    using assms unfolding before_answers_def by (metis append_assoc append_take_drop_id concat.simps(2) list.map(2))
  obtain a b where ab: "put_be16 (fst (answer_record r)) = [a, b]" "be16 a b = fst (answer_record r)" by (rule put_be16_bytes)
  obtain c d where cd: "put_be16 1 = [c, d]" by (rule put_be16_bytes)
  obtain e f where ef: "put_be16 (word_of_nat (length ?d)) = [e, f]" "be16 e f = word_of_nat (length ?d)" by (rule put_be16_bytes)
  let ?r = "[a, b, c, d, 0, 0, 0, 60, e, f] @ ?d @ concat (map put_answer rs) @ tl"
  have "ps_data p = 0xC0 # 0x0C # ?r"
    by (simp add: tl put_answer_def ab cd ef)
  then have skip: "skip_name (ps_data p) = Some ?r" by simp
  have len: "unat (be16 e f) = length ?d" using record_word [OF p(2)] ef(2) by simp
  let ?q = "p\<lparr>ps_data := ?d @ concat (map put_answer rs) @ tl, ps_length := length ?d\<rparr>"
  have head: "rfc_answer_header p = Answer (record_kind (fst (answer_record r))) ?q"
    using p(1) ab(2) len by (simp add: rfc_answer_header_def skip)
  have "rfc_skip ?q = Inr (?q\<lparr>ps_answers := length rs, ps_data := concat (map put_answer rs) @ tl, ps_length := 0\<rparr>)"
    using p(1) by (simp add: rfc_skip_def)
  moreover have "before_answers (?q\<lparr>ps_answers := length rs, ps_data := concat (map put_answer rs) @ tl, ps_length := 0\<rparr>) rs"
    using p(3) by (simp add: before_answers_def)
  moreover have "ps_length ?q = length ?d" "take (ps_length ?q) (ps_data ?q) = ?d" by simp_all
  ultimately show ?thesis using head by blast
qed

lemma read_resource:
  assumes "rfc_skip q = Inr s" "ps_length q = n" "take (ps_length q) (ps_data q) = d" "length d = n"
  shows "rfc_resource n q = Inr (d, s)"
  using assms by (simp add: rfc_resource_def)

interpretation rfc_answers: answer_parser rfc_parser ps_answers before_answers
proof
  fix p q r :: parser_state and a k
  assume head: "dp_answer_header rfc_parser p = Answer k q"
  then have q: "ps_answers q = ps_answers p" "ps_answers p \<noteq> 0"
    by (auto simp: rfc_parser_def rfc_answer_header_def split: if_splits option.splits)
  have skip: "ps_answers r < ps_answers p" if "rfc_skip q = Inr r" for r
    using that q by (auto simp: rfc_skip_def split: if_splits)
  show "ps_answers r < ps_answers p" if "dp_a_resource rfc_parser q = Inr (a, r)"
    using that skip by (auto simp: rfc_parser_def rfc_resource_def split: if_splits sum.splits)
  show "ps_answers r < ps_answers p" if "dp_aaaa_resource rfc_parser q = Inr (a, r)"
    using that skip by (auto simp: rfc_parser_def rfc_resource_def split: if_splits sum.splits)
  show "ps_answers r < ps_answers p" if "dp_skip_answer rfc_parser q = Inr r"
    using that skip by (simp add: rfc_parser_def)
next
  fix p assume "before_answers p []"
  then show "dp_answer_header rfc_parser p = SectionDone"
    by (simp add: before_answers_def rfc_parser_def rfc_answer_header_def)
next
  fix p a rs assume prem: "before_answers p (AnswerA a # rs)"
  then have "length a = 4" by (simp add: before_answers_def)
  then show "\<exists>q r. dp_answer_header rfc_parser p = Answer RecordA q \<and> dp_a_resource rfc_parser q = Inr (a, r) \<and> before_answers r rs"
    using read_record [OF prem] by (auto simp: rfc_parser_def record_kind_def intro: read_resource)
next
  fix p a rs assume prem: "before_answers p (AnswerAAAA a # rs)"
  then have "length a = 16" by (simp add: before_answers_def)
  then show "\<exists>q r. dp_answer_header rfc_parser p = Answer RecordAAAA q \<and> dp_aaaa_resource rfc_parser q = Inr (a, r) \<and> before_answers r rs"
    using read_record [OF prem] by (auto simp: rfc_parser_def record_kind_def intro: read_resource)
next
  fix p n d rs assume prem: "before_answers p (AnswerOther n d # rs)"
  then have "valid_answer (AnswerOther n d)" by (simp add: before_answers_def)
  then show "\<exists>q r. dp_answer_header rfc_parser p = Answer RecordOther q \<and> dp_skip_answer rfc_parser q = Inr r \<and> before_answers r rs"
    using read_record [OF prem] kind_of_answer [of "AnswerOther n d"] by (auto simp: rfc_parser_def)
qed

section \<open>Properties\<close>

text \<open>
  C21.  A query made for a domain is read back as what was asked for: the low 16 bits of the id,
  recursion desired, the absolute name, and a question per address family of the mode.
\<close>

theorem encoded_query_is_read:
  assumes "message_codec name_fits pack unpack valid_name" and "valid_name (absolute domain)"
  shows "\<exists>b. EncodeDomainNameSystemQuery name_fits pack i domain mode = Inr b \<and>
    unpack b = Some \<lparr>dm_id = uint16_of i, dm_recursion = True,
      dm_questions = (if mode = IPv6Only then [] else [\<lparr>qn_name = absolute domain, qn_type = TypeA\<rparr>]) @
        (if mode = IPv6Disable then [] else [\<lparr>qn_name = absolute domain, qn_type = TypeAAAA\<rparr>])\<rparr>"
  using message_codec.encoded_query [OF assms, of i mode] by (auto simp: query_types_def)

theorem encoded_query_is_read_witness:
  "\<exists>b. EncodeDomainNameSystemQuery (\<lambda>n. length n \<le> 255) rfc1035_pack 65543 ''a.b'' IPv6Prefer = Inr b \<and>
    map_option (\<lambda>m. map qn_name (dm_questions m)) (rfc1035_unpack b) = Some [''a.b.'', ''a.b.'']"
proof -
  have "absolute ''a.b'' = ''a.b.''" by (simp add: absolute_def has_suffix_def)
  moreover have "rfc_name ''a.b.''" by (simp add: rfc_name_def labels_def dotted_def good_label_def)
  ultimately show ?thesis
    using encoded_query_is_read [OF rfc_codec.message_codec_axioms, of "''a.b''" 65543 IPv6Prefer] by (auto simp: comm_consts)
qed

text \<open>Decoding a response ends on every content, also on malformed ones.\<close>

theorem decoding_ends:
  assumes "answer_parser P remaining before"
  shows "\<exists>response err. DecodeContentDomainNameSystemResponse P text_of content = Some (response, err)"
  using answer_parser.decode_ends [OF assms, of text_of content] by auto

theorem decoding_ends_witness:
  "\<exists>response err. DecodeContentDomainNameSystemResponse rfc_parser text_of [0, 1, 0x81, 0x80, 0, 0, 255, 255, 0, 0, 0, 0, 7] = Some (response, err)"
  by (rule decoding_ends [OF rfc_answers.answer_parser_axioms])

text \<open>
  C34.  A response without an error code is decoded to the addresses of its A and AAAA records, in
  their order, each after a space; other records are passed over.
\<close>

theorem decoding_lists_addresses:
  assumes "answer_parser P remaining before"
    and "dp_start P content = Inr (0, p)" and "dp_skip_questions P p = Inr q" and "before q rs"
  shows "DecodeContentDomainNameSystemResponse P text_of content = Some (concat (map (answer_text text_of) rs), None)"
  using answer_parser.decode_answers [OF assms] .

theorem decoding_lists_addresses_witness:
  "DecodeContentDomainNameSystemResponse rfc_parser (\<lambda>a. itoa_nat (unat (a ! 0)))
     ([0, 1, 0x81, 0x80, 0, 1, 0, 2, 0, 0, 0, 0] @ [1, 97, 0, 0, 1, 0, 1] @ put_answer (AnswerOther 5 [0]) @ put_answer (AnswerA [8, 0, 0, 1]))
   = Some ('' 8'', None)"
proof -
  let ?rs = "[AnswerOther 5 [0], AnswerA [8, 0, 0, 1]]"
  let ?b = "put_answer (AnswerOther 5 [0]) @ put_answer (AnswerA [8, 0, 0, 1])"
  let ?p = "\<lparr>ps_questions = 1, ps_answers = 2, ps_data = [1, 97, 0, 0, 1, 0, 1] @ ?b, ps_length = 0\<rparr>"
  have start: "dp_start rfc_parser ([0, 1, 0x81, 0x80, 0, 1, 0, 2, 0, 0, 0, 0] @ [1, 97, 0, 0, 1, 0, 1] @ ?b) = Inr (0, ?p)"
    by (simp add: rfc_parser_def rfc_start_def be16_def)
  have skip: "dp_skip_questions rfc_parser ?p = Inr (?p\<lparr>ps_questions := 0, ps_data := ?b\<rparr>)"
    by (simp add: rfc_parser_def rfc_skip_questions_def word_le_nat_alt)
  have before: "before_answers (?p\<lparr>ps_questions := 0, ps_data := ?b\<rparr>) ?rs"
    by (simp add: before_answers_def)
  have "itoa_nat 8 = ''8''" by code_simp
  then show ?thesis
    using decoding_lists_addresses [OF rfc_answers.answer_parser_axioms start skip before, of "\<lambda>a. itoa_nat (unat (a ! 0))"] by simp
qed

text \<open>
  A lookup that the local resolver answers with lines of text: an address per line that is
  not blank, in order, and an error exactly when there is none.
\<close>

lemma split_byte_last: "c \<notin> set l \<Longrightarrow> split_byte c l = [l]"
  by (induction l) auto

lemma split_byte_append: "c \<notin> set l \<Longrightarrow> split_byte c (l @ c # r) = l # split_byte c r"
  by (induction l) auto

fun lines_text :: "string list \<Rightarrow> string" where
  "lines_text [] = []"
| "lines_text [l] = l"
| "lines_text (l # ls) = l @ CHR 0x0A # lines_text ls"

lemma split_lines: "ls \<noteq> [] \<Longrightarrow> list_all (\<lambda>l. CHR 0x0A \<notin> set l) ls \<Longrightarrow> split_byte (CHR 0x0A) (lines_text ls) = ls"
  by (induction ls rule: lines_text.induct) (simp_all add: split_byte_last split_byte_append)

theorem lookup_reads_lines:
  assumes "lr_lookup_ip l (lookup_network strategy) domain = ([CallSuccess (lines_text ls)], None)"
    and "ls \<noteq> []" and "list_all (\<lambda>s. CHR 0x0A \<notin> set s) ls"
  shows "Lookup False None parse_ip not_blank l domain strategy =
    (map parse_ip (filter not_blank ls), if filter not_blank ls = [] then Some EmptyResponse else None)"
  using assms by (simp add: Lookup_def return_after_def lookup_task_def answered_def new_query_def split_lines)

definition test_resolver :: "unit local_resolver" where
  "test_resolver = \<lparr>lr_raw = False, lr_query_raw = (\<lambda>_. ([], Some ())),
     lr_lookup_ip = (\<lambda>network domain. ([CallSuccess (lines_text [''8.8.8.8'', [], ''x''])], None))\<rparr>"

theorem lookup_reads_lines_witness:
  "Lookup False None (\<lambda>s. if s = ''x'' then None else Some s) (\<lambda>s. s \<noteq> []) test_resolver ''a.b'' USE_IP4 = ([Some ''8.8.8.8'', None], None)"
  using lookup_reads_lines [where l = test_resolver and strategy = USE_IP4 and domain = "''a.b''" and ls = "[''8.8.8.8'', [], ''x'']"
      and parse_ip = "\<lambda>s. if s = ''x'' then None else Some s" and not_blank = "\<lambda>s. s \<noteq> []"]
  by (simp add: test_resolver_def del: lines_text.simps)

text \<open>
  The answer is lost when the implementation reads \<open>response\<close> before it calls \<open>task.Run\<close>, which Go
  allows: a successful lookup then has neither addresses nor an error, and a successful
  exchange neither a message nor an error.
\<close>

theorem answer_lost_when_read_first:
  "fst (Lookup True None parse_ip not_blank l domain strategy) = [] \<and>
   snd (Lookup True None parse_ip not_blank l domain strategy) = snd (Lookup False None parse_ip not_blank l domain strategy) \<and>
   fst (ExchangeRaw True None l message) = None \<and>
   snd (ExchangeRaw True None l message) = snd (ExchangeRaw False None l message)"
  by (simp add: Lookup_def ExchangeRaw_def return_after_def)

end
