(* ===== verification/UrlTest.thy ===== *)
theory UrlTest
  imports Dns
begin

text \<open>
  \<open>urltest.go\<close>: the time a request takes through a started instance.  The HTTP client, the
  resolver and the clock are parameters.
\<close>

text \<open>The dialer of the transport: what is dispatched into the core, and with which inbound tag.\<close>

record test_dispatch =
  td_dest :: destination
  td_inbound :: "string option"
  td_prefer_ip :: bool

definition test_dial :: "(string \<Rightarrow> 'e + destination) \<Rightarrow> string \<Rightarrow> string \<Rightarrow> string \<Rightarrow> 'e + test_dispatch" where
  "test_dial parse inbound network addr =
     (case parse (network @ '':'' @ addr) of
        Inl e \<Rightarrow> Inl e
      | Inr dest \<Rightarrow> Inr \<lparr>td_dest = dest, td_inbound = (if inbound \<noteq> [] then Some inbound else None), td_prefer_ip = True\<rparr>)"

text \<open>The dialer of the resolver: the DNS server through the core, marked as DNS and without an inbound.\<close>

definition test_resolver_dial :: "(unit + 'l) \<Rightarrow> v2ray_instance \<Rightarrow> instance_error + 'l dns_conn" where
  "test_resolver_dial dispatch i =
     (case dialContext dispatch dnsDestination i of
        Inl e \<Rightarrow> Inl e
      | Inr (l, k) \<Rightarrow> Inr (PinnedPacketConn l k))"

datatype 'e url_test_error = BadLink 'e | LookupFailed 'e | RequestFailed 'e | UnexpectedStatus int

record ('u, 'e) test_env =
  te_parse :: "string \<Rightarrow> 'e + 'u"
  te_domain :: "'u \<Rightarrow> string option"
  te_lookup :: "string \<Rightarrow> 'e option"
  te_do :: "'u \<Rightarrow> 'e + int"
  te_elapsed :: int

text \<open>
  \<open>UrlTest\<close>: the result, the error, and whether a response was left open.  The client reports a
  response only together with no error, and the code never closes its body.
\<close>

definition UrlTest :: "('u, 'e) test_env \<Rightarrow> string \<Rightarrow> int \<times> 'e url_test_error option \<times> bool" where
  "UrlTest E link =
     (case te_parse E link of
        Inl e \<Rightarrow> (0, Some (BadLink e), False)
      | Inr connTestUrl \<Rightarrow>
          (case (case te_domain E connTestUrl of None \<Rightarrow> None | Some d \<Rightarrow> te_lookup E d) of
             Some e \<Rightarrow> (0, Some (LookupFailed e), False)
           | None \<Rightarrow>
               (case te_do E connTestUrl of
                  Inl e \<Rightarrow> (0, Some (RequestFailed e), False)
                | Inr code \<Rightarrow>
                    if code \<noteq> 204 \<and> code \<noteq> 200 then (0, Some (UnexpectedStatus code), True)
                    else (int32_of (te_elapsed E), None, True))))"

end
