(* ===== verification/Api.thy ===== *)
theory Api
  imports GoStrings
begin

text \<open>
  \<open>api.go\<close>: the UDP service that tells other programs how to connect.  \<open>Start\<close> and \<open>Close\<close> run
  under a mutex, the loops they start and stop do not take it: a step relation interleaves
  them.  The protocol library is a parameter.
\<close>

section \<open>Configuration and answers\<close>

record api_config =
  ac_device :: string
  ac_socks :: int
  ac_dns :: int
  ac_debug :: bool
  ac_bypass :: bool

record api_response =
  ar_device :: string
  ar_socks :: u16
  ar_dns :: u16
  ar_debug :: bool
  ar_bypass :: bool

text \<open>The body of \<open>loop\<close> on a datagram: the response to make, if any; \<open>parse\<close> is \<open>api.ParseQuery\<close> with the text of its error.\<close>

definition answer_to :: "api_config \<Rightarrow> (bytes \<Rightarrow> string + 'q) \<Rightarrow> bytes \<Rightarrow> api_response option" where
  "answer_to C parse datagram =
     (case parse (take 2048 datagram) of
        Inl err \<Rightarrow>
          if contains err ''upgrade''
          then Some \<lparr>ar_device = [], ar_socks = 0, ar_dns = 0, ar_debug = False, ar_bypass = False\<rparr> else None
      | Inr query \<Rightarrow>
          Some \<lparr>ar_device = ac_device C, ar_socks = uint16_of (ac_socks C), ar_dns = uint16_of (ac_dns C),
            ar_debug = ac_debug C, ar_bypass = ac_bypass C\<rparr>)"

section \<open>State\<close>

text \<open>
  A loop tests \<open>started\<close>, reads the field \<open>conn\<close> and waits on that connection, and answers through
  the field again.  Connections are numbered; \<open>a_open\<close> are those not closed.
\<close>

datatype loop_pc = Check | Reading "nat option" | Replying api_response nat | Ended

record api =
  a_started :: bool
  a_conn :: "nat option"
  a_open :: "nat set"
  a_next :: nat
  a_loops :: "loop_pc list"
  a_sent :: "(nat option \<times> api_response \<times> nat) list"

definition NewApiInstance :: api where
  "NewApiInstance = \<lparr>a_started = False, a_conn = None, a_open = {}, a_next = 0, a_loops = [], a_sent = []\<rparr>"

datatype start_error = AlreadyStarted | ListenFailed

definition Start :: "bool \<Rightarrow> api \<Rightarrow> start_error option \<times> api" where
  "Start listens s =
     (if a_started s then (Some AlreadyStarted, s)
      else if \<not> listens then (Some ListenFailed, s\<lparr>a_conn := None\<rparr>)
      else (None, s\<lparr>a_conn := Some (a_next s), a_open := insert (a_next s) (a_open s), a_next := Suc (a_next s),
        a_started := True, a_loops := a_loops s @ [Check]\<rparr>))"

definition Close :: "api \<Rightarrow> api" where
  "Close s = (if a_started s then s\<lparr>a_started := False, a_open := a_open s - set_option (a_conn s)\<rparr> else s)"

definition set_loop :: "nat \<Rightarrow> loop_pc \<Rightarrow> api \<Rightarrow> api" where
  "set_loop i pc s = s\<lparr>a_loops := (a_loops s)[i := pc]\<rparr>"

text \<open>
  One move of a loop.  A read returns a datagram only on an open connection; it may fail at
  any time, and does on a closed one or on the nil pointer.
\<close>

inductive loop_step :: "api_config \<Rightarrow> (bytes \<Rightarrow> string + 'q) \<Rightarrow> api \<Rightarrow> api \<Rightarrow> bool" for C parse where
  check: "i < length (a_loops s) \<Longrightarrow> a_loops s ! i = Check \<Longrightarrow>
    loop_step C parse s (set_loop i (if a_started s then Reading (a_conn s) else Ended) s)"
| read_error: "i < length (a_loops s) \<Longrightarrow> a_loops s ! i = Reading c \<Longrightarrow> loop_step C parse s (set_loop i Check s)"
| read_ignored: "i < length (a_loops s) \<Longrightarrow> a_loops s ! i = Reading (Some n) \<Longrightarrow> n \<in> a_open s \<Longrightarrow> answer_to C parse d = None \<Longrightarrow>
    loop_step C parse s (set_loop i Check s)"
| read_query: "i < length (a_loops s) \<Longrightarrow> a_loops s ! i = Reading (Some n) \<Longrightarrow> n \<in> a_open s \<Longrightarrow> answer_to C parse d = Some r \<Longrightarrow>
    loop_step C parse s (set_loop i (Replying r from) s)"
| reply: "i < length (a_loops s) \<Longrightarrow> a_loops s ! i = Replying r from \<Longrightarrow>
    loop_step C parse s ((set_loop i Check s)\<lparr>a_sent := a_sent s @ [(a_conn s, r, from)]\<rparr>)"

inductive api_reachable :: "api_config \<Rightarrow> (bytes \<Rightarrow> string + 'q) \<Rightarrow> api \<Rightarrow> bool" for C parse where
  new: "api_reachable C parse NewApiInstance"
| start: "api_reachable C parse s \<Longrightarrow> api_reachable C parse (snd (Start listens s))"
| close: "api_reachable C parse s \<Longrightarrow> api_reachable C parse (Close s)"
| loop: "api_reachable C parse s \<Longrightarrow> loop_step C parse s s' \<Longrightarrow> api_reachable C parse s'"

section \<open>Sockets\<close>

definition api_inv :: "api \<Rightarrow> bool" where
  "api_inv s \<longleftrightarrow> (if a_started s then \<exists>c. a_conn s = Some c \<and> a_open s = {c} else a_open s = {})"

lemma loop_step_keeps:
  "loop_step C parse s s' \<Longrightarrow> a_started s' = a_started s \<and> a_conn s' = a_conn s \<and> a_open s' = a_open s \<and> length (a_loops s') = length (a_loops s)"
  by (induction rule: loop_step.induct) (simp_all add: set_loop_def)

lemma api_inv_reachable: "api_reachable C parse s \<Longrightarrow> api_inv s"
proof (induction rule: api_reachable.induct)
  case (loop s s')
  then show ?case using loop_step_keeps [OF loop.hyps(2)] by (simp add: api_inv_def)
qed (auto simp: api_inv_def NewApiInstance_def Start_def Close_def split: if_splits)

section \<open>Loops\<close>

fun rank :: "loop_pc \<Rightarrow> nat" where
  "rank Ended = 0" | "rank Check = 1" | "rank (Reading c) = 2" | "rank (Replying r a) = 2"

definition work :: "api \<Rightarrow> nat" where
  "work s = sum_list (map rank (a_loops s))"

definition alive :: "api \<Rightarrow> nat" where
  "alive s = length (filter (\<lambda>pc. pc \<noteq> Ended) (a_loops s))"

lemma sum_list_update: "i < length xs \<Longrightarrow> sum_list (map f (xs[i := y])) + f (xs ! i) = sum_list (map f xs) + (f y :: nat)"
  by (induction xs arbitrary: i) (auto split: nat.split)

lemma work_set_loop: "i < length (a_loops s) \<Longrightarrow> rank pc < rank (a_loops s ! i) \<Longrightarrow> work (set_loop i pc s) < work s"
  using sum_list_update [of i "a_loops s" rank pc] by (simp add: work_def set_loop_def)

lemma work_sent [simp]: "work (s\<lparr>a_sent := x\<rparr>) = work s"
  by (simp add: work_def)

text \<open>Without an open socket every move of a loop brings it closer to its end.\<close>

lemma closed_loop_works:
  assumes "loop_step C parse s s'" "\<not> a_started s" "a_open s = {}"
  shows "work s' < work s"
  using assms by (induction rule: loop_step.induct) (auto intro: work_set_loop)

lemma work_le_alive: "work s \<le> 2 * alive s"
proof -
  have "sum_list (map rank xs) \<le> 2 * length (filter (\<lambda>pc. pc \<noteq> Ended) xs)" for xs
  proof (induction xs)
    case (Cons pc xs)
    then show ?case by (cases pc) auto
  qed simp
  then show ?thesis by (simp add: work_def alive_def)
qed

lemma alive_can_move: "alive s \<noteq> 0 \<Longrightarrow> \<exists>s'. loop_step C parse s s'"
proof -
  assume "alive s \<noteq> 0"
  then obtain i where i: "i < length (a_loops s)" "a_loops s ! i \<noteq> Ended"
    by (auto simp: alive_def filter_empty_conv in_set_conv_nth)
  then show ?thesis
    by (cases "a_loops s ! i") (blast intro: loop_step.intros)+
qed

lemma closed_run:
  assumes "(loop_step C parse ^^ n) s s'" "\<not> a_started s" "a_open s = {}"
  shows "n + work s' \<le> work s"
  using assms
proof (induction n arbitrary: s')
  case (Suc n)
  then obtain t where t: "(loop_step C parse ^^ n) s t" "loop_step C parse t s'" by auto
  have "\<not> a_started t \<and> a_open t = {}" using t(1) Suc.prems(2,3)
    by (induction n arbitrary: t) (auto dest: loop_step_keeps)
  then show ?case using Suc.IH [OF t(1) Suc.prems(2,3)] closed_loop_works [OF t(2)] by simp
qed simp

text \<open>A loop that ended stays so, and no step touches two loops.\<close>

inductive_cases loop_stepE: "loop_step C parse s s'"

lemma ended_stays: "loop_step C parse s s' \<Longrightarrow> i < length (a_loops s) \<Longrightarrow> a_loops s ! i = Ended \<Longrightarrow> a_loops s' ! i = Ended"
  by (elim loop_stepE) (auto simp: set_loop_def nth_list_update)

lemma one_loop_moves: "loop_step C parse s s' \<Longrightarrow> \<exists>i pc. a_loops s' = (a_loops s)[i := pc]"
  by (elim loop_stepE) (auto simp: set_loop_def)

section \<open>A quick restart\<close>

definition restarted :: api where
  "restarted = \<lparr>a_started = True, a_conn = Some 1, a_open = {1}, a_next = 2, a_loops = [Reading (Some 1), Reading (Some 1)], a_sent = []\<rparr>"

lemma restarted_reachable: "api_reachable C parse restarted"
proof -
  let ?s1 = "snd (Start True NewApiInstance)"
  let ?s2 = "set_loop 0 (Reading (Some 0)) ?s1"
  let ?s3 = "snd (Start True (Close ?s2))"
  let ?s4 = "set_loop 1 (Reading (Some 1)) (set_loop 0 (Reading (Some 1)) (set_loop 0 Check ?s3))"
  have "api_reachable C parse ?s2"
    using api_reachable.loop [OF api_reachable.start [OF api_reachable.new, of C parse True] loop_step.check [of 0]]
    by (simp add: Start_def NewApiInstance_def)
  then have r3: "api_reachable C parse ?s3" by (blast intro: api_reachable.intros)
  have r4: "api_reachable C parse (set_loop 0 Check ?s3)"
    by (rule api_reachable.loop [OF r3 loop_step.read_error [of 0 _ "Some 0"]])
      (simp_all add: Start_def Close_def NewApiInstance_def set_loop_def)
  have r5: "api_reachable C parse (set_loop 0 (Reading (Some 1)) (set_loop 0 Check ?s3))"
    using api_reachable.loop [OF r4 loop_step.check [of 0]] by (simp add: Start_def Close_def NewApiInstance_def set_loop_def)
  have "api_reachable C parse ?s4"
    using api_reachable.loop [OF r5 loop_step.check [of 1]] by (simp add: Start_def Close_def NewApiInstance_def set_loop_def)
  moreover have "?s4 = restarted"
    by (simp add: Start_def Close_def NewApiInstance_def set_loop_def restarted_def)
  ultimately show ?thesis by simp
qed

section \<open>Properties\<close>

text \<open>
  Whatever the order of calls and moves: while the service is started exactly one socket is
  open, the one new reads go to, and none is when it is not.
\<close>

theorem one_open_socket:
  assumes "api_reachable C parse s"
  shows "if a_started s then \<exists>c. a_conn s = Some c \<and> a_open s = {c} else a_open s = {}"
  using api_inv_reachable [OF assms] by (simp add: api_inv_def)

definition test_config :: api_config where
  "test_config = \<lparr>ac_device = ''phone'', ac_socks = 2080, ac_dns = 6450, ac_debug = False, ac_bypass = True\<rparr>"

theorem one_open_socket_witness: "a_conn restarted = Some 1 \<and> a_open restarted = {1}"
  using one_open_socket [OF restarted_reachable [of test_config "\<lambda>_. Inr ()"]] by (simp add: restarted_def)



text \<open>
  A restart while the loop of the first start still waits leaves two loops: both wait on the
  new socket, and neither ends while the service runs.
\<close>

theorem quick_restart_two_loops:
  "api_reachable C parse restarted \<and> alive restarted = 2 \<and> (\<forall>i < 2. a_loops restarted ! i = Reading (a_conn restarted))"
  using restarted_reachable by (auto simp: alive_def restarted_def less_2_cases_iff)

text \<open>
  A query that parses is answered with the settings, the ports cut to 16 bits; an outdated
  one with an empty answer; any other is not answered.
\<close>

theorem answers_carry_settings:
  "answer_to C parse d =
     (case parse (take 2048 d) of
        Inr q \<Rightarrow> Some \<lparr>ar_device = ac_device C, ar_socks = word_of_int (ac_socks C mod 65536), ar_dns = word_of_int (ac_dns C mod 65536),
            ar_debug = ac_debug C, ar_bypass = ac_bypass C\<rparr>
      | Inl err \<Rightarrow> if \<exists>a b. err = a @ ''upgrade'' @ b then Some \<lparr>ar_device = [], ar_socks = 0, ar_dns = 0, ar_debug = False, ar_bypass = False\<rparr> else None)"
proof -
  have "uint16_of x = word_of_int (x mod 65536)" for x
    by (simp add: uint16_of_def word_of_int_eq_iff take_bit_eq_mod)
  then show ?thesis by (auto simp: answer_to_def contains_iff split: sum.split)
qed

end
