(* ===== verification/AndroidLog.thy ===== *)
theory AndroidLog
  imports GoStrings
begin

text \<open>
  \<open>log.go\<close>: log entries of logrus, of the core and of Go's \<open>log\<close> package on their way to the log
  of the system.
\<close>

section \<open>Strings\<close>

text \<open>\<open>strings.Replace(s, p, "", 1)\<close>, \<open>strings.TrimSpace\<close> on ASCII text, and what a C function reads of a string.\<close>

fun remove_first :: "string \<Rightarrow> string \<Rightarrow> string" where
  "remove_first [] p = []"
| "remove_first (c # cs) p = (if has_prefix (c # cs) p then drop (length p) (c # cs) else c # remove_first cs p)"

definition trim_space :: "string \<Rightarrow> string" where
  "trim_space s = rev (dropWhile is_space (rev (dropWhile is_space s)))"

definition c_string :: "string \<Rightarrow> string" where
  "c_string s = takeWhile (\<lambda>c. c \<noteq> CHR 0x00) s"

lemma remove_first_split:
  assumes "contains s p" and "p \<noteq> []"
  shows "\<exists>a b. s = a @ p @ b \<and> remove_first s p = a @ b \<and> (\<forall>a' b'. s = a' @ p @ b' \<longrightarrow> length a \<le> length a')"
  using assms
proof (induction s)
  case (Cons c s)
  show ?case
  proof (cases "has_prefix (c # s) p")
    case True
    then obtain b where b: "c # s = p @ b" by (auto simp: has_prefix_iff)
    have "remove_first (c # s) p = drop (length p) (c # s)" using True by simp
    moreover have "drop (length p) (c # s) = b" unfolding b by simp
    ultimately have "remove_first (c # s) p = b" by (rule trans)
    with b have "c # s = [] @ p @ b \<and> remove_first (c # s) p = [] @ b" by (simp only: append_Nil)
    then show ?thesis by (metis le0 list.size(3))
  next
    case False
    then obtain a b where ab: "s = a @ p @ b" "remove_first s p = a @ b" "\<forall>a' b'. s = a' @ p @ b' \<longrightarrow> length a \<le> length a'"
      using Cons by auto
    have "length (c # a) \<le> length a'" if "c # s = a' @ p @ b'" for a' b'
      using that False ab(3) by (cases a') (auto simp: has_prefix_iff)
    then show ?thesis using ab False by (rule_tac x = "c # a" in exI, rule_tac x = b in exI) simp
  qed
qed simp

section \<open>Writers\<close>

datatype priority = LogDebug | LogInfo | LogWarn | LogError | LogFatal

text \<open>Priorities are ordered by severity, as in the system's header.\<close>

fun severity :: "priority \<Rightarrow> nat" where
  "severity LogDebug = 3" | "severity LogInfo = 4" | "severity LogWarn = 5" | "severity LogError = 6" | "severity LogFatal = 7"

instantiation priority :: linorder
begin

definition less_eq_priority :: "priority \<Rightarrow> priority \<Rightarrow> bool" where "less_eq_priority p q \<longleftrightarrow> severity p \<le> severity q"
definition less_priority :: "priority \<Rightarrow> priority \<Rightarrow> bool" where "less_priority p q \<longleftrightarrow> severity p < severity q"

instance
proof
  fix p q r :: priority
  show "(p < q) = (p \<le> q \<and> \<not> q \<le> p)" by (simp add: less_eq_priority_def less_priority_def less_le_not_le)
  show "p \<le> p" by (simp add: less_eq_priority_def)
  show "p \<le> q \<Longrightarrow> q \<le> r \<Longrightarrow> p \<le> r" by (simp add: less_eq_priority_def)
  show "p \<le> q \<Longrightarrow> q \<le> p \<Longrightarrow> p = q" by (cases p; cases q; simp add: less_eq_priority_def)
  show "p \<le> q \<or> q \<le> p" by (auto simp: less_eq_priority_def)
qed

end

datatype log_tag = TagLibcore | TagV2Ray

type_synonym log_line = "priority \<times> log_tag \<times> string"

datatype level = PanicLevel | FatalLevel | ErrorLevel | WarnLevel | InfoLevel | DebugLevel | TraceLevel

definition levels :: "level list" where
  "levels = [PanicLevel, FatalLevel, ErrorLevel, WarnLevel, InfoLevel, DebugLevel]"

text \<open>The switch of \<open>Fire\<close>, \<open>None\<close> for the unset priority; the hook fires on the entries of \<open>levels\<close> only.\<close>

definition priority_of :: "level \<Rightarrow> priority option" where
  "priority_of l =
     (case l of PanicLevel \<Rightarrow> Some LogFatal | FatalLevel \<Rightarrow> Some LogFatal | ErrorLevel \<Rightarrow> Some LogError
      | WarnLevel \<Rightarrow> Some LogWarn | InfoLevel \<Rightarrow> Some LogInfo | DebugLevel \<Rightarrow> Some LogDebug | TraceLevel \<Rightarrow> None)"

definition hook_Fire :: "level \<Rightarrow> string \<Rightarrow> priority option \<times> log_tag \<times> string" where
  "hook_Fire l message = (priority_of l, TagLibcore, c_string message)"

definition v2ray_Write :: "string \<Rightarrow> log_line" where
  "v2ray_Write s =
     (let (s, priority) =
        (if contains s ''[Debug]'' then (remove_first s ''[Debug]'', LogDebug)
         else if contains s ''[Info]'' then (remove_first s ''[Info]'', LogInfo)
         else if contains s ''[Warning]'' then (remove_first s ''[Warning]'', LogWarn)
         else if contains s ''[Error]'' then (remove_first s ''[Error]'', LogError)
         else (s, LogDebug))
      in (priority, TagV2Ray, c_string (trim_space s)))"

definition std_Write :: "string \<Rightarrow> log_line \<times> nat" where
  "std_Write p = ((LogInfo, TagLibcore, c_string p), length p)"

section \<open>Properties\<close>

fun severity_mark :: "priority \<Rightarrow> string" where
  "severity_mark LogDebug = ''[Debug]''" | "severity_mark LogInfo = ''[Info]''" | "severity_mark LogWarn = ''[Warning]''"
| "severity_mark LogError = ''[Error]''" | "severity_mark LogFatal = []"

definition marks :: "priority list" where "marks = [LogDebug, LogInfo, LogWarn, LogError]"

text \<open>
  A line of the core that carries marks is logged at the least severity among them, with the
  first occurrence of that mark cut out and the ends trimmed.
\<close>

theorem v2ray_line_logged:
  assumes "contains s (severity_mark q)" and "q \<in> set marks" and "\<And>r. r \<in> set marks \<Longrightarrow> contains s (severity_mark r) \<Longrightarrow> q \<le> r"
  shows "\<exists>a b. s = a @ severity_mark q @ b \<and> (\<forall>a' b'. s = a' @ severity_mark q @ b' \<longrightarrow> length a \<le> length a') \<and>
     v2ray_Write s = (q, TagV2Ray, c_string (trim_space (a @ b)))"
proof -
  have less: "\<not> contains s (severity_mark r)" if "r \<in> set marks" "r < q" for r
    using assms(3) [OF that(1)] that(2) by auto
  have "v2ray_Write s = (q, TagV2Ray, c_string (trim_space (remove_first s (severity_mark q))))"
    using assms(1,2) less [of LogDebug] less [of LogInfo] less [of LogWarn]
    by (cases q) (simp_all add: v2ray_Write_def marks_def less_priority_def)
  moreover have "severity_mark q \<noteq> []" using assms(2) by (auto simp: marks_def)
  ultimately show ?thesis using remove_first_split [OF assms(1)] by metis
qed

theorem v2ray_line_logged_witness:
  "\<exists>a b. v2ray_Write '' [Warning] lost'' = (LogWarn, TagV2Ray, c_string (trim_space (a @ b))) \<and> a @ ''[Warning]'' @ b = '' [Warning] lost''"
proof -
  have "contains '' [Warning] lost'' (severity_mark LogWarn)" "LogWarn \<in> set marks"
    "\<And>r. r \<in> set marks \<Longrightarrow> contains '' [Warning] lost'' (severity_mark r) \<Longrightarrow> LogWarn \<le> r"
    by (auto simp: marks_def has_prefix_def)
  from v2ray_line_logged [OF this] show ?thesis by (metis severity_mark.simps(3))
qed

text \<open>A more severe entry of logrus never gets a lower priority.\<close>

lemma levels_descend: "sorted_wrt (\<lambda>a b. \<exists>p q. priority_of a = Some p \<and> priority_of b = Some q \<and> q \<le> p) levels"
  by (simp add: levels_def priority_of_def less_eq_priority_def)

text \<open>So an error whose text quotes a debug mark is logged as a debug line, its own mark left in.\<close>

theorem quoted_mark_demotes:
  assumes "contains message ''[Debug]''"
  shows "fst (v2ray_Write (''[Error] '' @ message)) = LogDebug \<and>
     (\<exists>t. remove_first (''[Error] '' @ message) ''[Debug]'' = ''[Error] '' @ t)"
  using assms by (auto simp: v2ray_Write_def has_prefix_def)

theorem quoted_mark_demotes_witness:
  "v2ray_Write ''[Error] bad line: [Debug]'' = (LogDebug, TagV2Ray, ''[Error] bad line:'')"
proof -
  have "contains ''bad line: [Debug]'' ''[Debug]''" by (simp add: has_prefix_def)
  from quoted_mark_demotes [OF this] show ?thesis
    by (simp add: v2ray_Write_def has_prefix_def trim_space_def is_space_def c_string_def)
qed

end
