(* ===== verification/Plugins.thy ===== *)
theory Plugins
  imports GoStrings
begin

text \<open>
  The shadowsocks plugins of \<open>obfs.go\<close> and \<open>ssr.go\<close>: how they read their options, and the
  packets of the second.  The obfuscations and protocols themselves are third-party code and
  parameters.
\<close>

section \<open>obfs-local\<close>

record obfs_plugin =
  ob_tls :: bool
  ob_host :: string
  ob_port :: string

datatype 'e plugin_error = BadOptions 'e | UnknownMode string | BadFlags | NoObfs 'e | NoProtocol 'e

text \<open>\<open>Init\<close>: \<open>options\<close> is what \<open>ParsePluginOptions\<close> makes of the option string.\<close>

definition obfs_Init :: "'e + (string \<rightharpoonup> string) \<Rightarrow> string \<Rightarrow> obfs_plugin \<Rightarrow> obfs_plugin \<times> 'e plugin_error option" where
  "obfs_Init options remotePort p =
     (case options of
        Inl e \<Rightarrow> (p, Some (BadOptions e))
      | Inr get \<Rightarrow>
          (let mode = (case get ''obfs'' of Some s \<Rightarrow> s | None \<Rightarrow> ''http'');
               p = (case get ''obfs-host'' of Some s \<Rightarrow> p\<lparr>ob_host := s\<rparr> | None \<Rightarrow> p)
           in if mode = ''http'' then (p\<lparr>ob_port := remotePort\<rparr>, None)
              else if mode = ''tls'' then (p\<lparr>ob_tls := True, ob_port := remotePort\<rparr>, None)
              else (p, Some (UnknownMode mode))))"

datatype obfs_conn = HTTPObfs string string | TLSObfs string

definition obfs_StreamConn :: "obfs_plugin \<Rightarrow> obfs_conn" where
  "obfs_StreamConn p = (if \<not> ob_tls p then HTTPObfs (ob_host p) (ob_port p) else TLSObfs (ob_host p))"

section \<open>Flags\<close>

text \<open>
  \<open>FlagSet.Parse\<close> of Go's \<open>flag\<close> package on flags that take a string: what was set before an error
  stays set.  Parsing stops at the first argument that is no flag, and after \<open>--\<close>.
\<close>

datatype flag_error = BadSyntax string | NotDefined string | NeedsArgument string

fun parse_flags :: "string list \<Rightarrow> string list \<Rightarrow> (string \<rightharpoonup> string) \<Rightarrow> (string \<rightharpoonup> string) \<times> flag_error option" where
  "parse_flags names [] m = (m, None)"
| "parse_flags names (s # args) m =
     (if length s < 2 \<or> s ! 0 \<noteq> CHR ''-'' \<or> s = ''--'' then (m, None)
      else let name = (if s ! 1 = CHR ''-'' then drop 2 s else drop 1 s)
        in if name = [] \<or> name ! 0 = CHR ''-'' \<or> name ! 0 = CHR ''='' then (m, Some (BadSyntax s))
           else let (flag, v, hasValue) = cut_byte (CHR ''='') name
             in if flag \<notin> set names then (m, Some (NotDefined flag))
                else if hasValue then parse_flags names args (m(flag \<mapsto> v))
                else (case args of
                   [] \<Rightarrow> (m, Some (NeedsArgument flag))
                 | v # args \<Rightarrow> parse_flags names args (m(flag \<mapsto> v))))"

section \<open>shadowsocksr\<close>

record ('o, 'p) ssr_plugin =
  ss_host :: string
  ss_port :: int
  ss_obfs :: string
  ss_obfs_param :: string
  ss_protocol :: string
  ss_protocol_param :: string
  ss_o :: "'o option"
  ss_p :: "'p option"

definition ssr_flags :: "string list" where
  "ssr_flags = [''obfs'', ''obfs-param'', ''protocol'', ''protocol-param'']"

definition ssr_defaults :: "string \<rightharpoonup> string" where
  "ssr_defaults = [''obfs'' \<mapsto> ''origin'', ''obfs-param'' \<mapsto> [], ''protocol'' \<mapsto> ''origin'', ''protocol-param'' \<mapsto> []]"

definition take_flags :: "(string \<rightharpoonup> string) \<Rightarrow> ('o, 'p) ssr_plugin \<Rightarrow> ('o, 'p) ssr_plugin" where
  "take_flags m p = p\<lparr>ss_obfs := the (m ''obfs''), ss_obfs_param := the (m ''obfs-param''),
     ss_protocol := the (m ''protocol''), ss_protocol_param := the (m ''protocol-param'')\<rparr>"

text \<open>\<open>Init\<close>; the obfuscation's overhead goes to the protocol.\<close>

definition ssr_Init :: "(string \<Rightarrow> string \<Rightarrow> int \<Rightarrow> string \<Rightarrow> 'e + 'o \<times> int) \<Rightarrow> (string \<Rightarrow> int \<Rightarrow> string \<Rightarrow> 'e + 'p)
    \<Rightarrow> string \<Rightarrow> string \<Rightarrow> string list \<Rightarrow> ('o, 'p) ssr_plugin \<Rightarrow> ('o, 'p) ssr_plugin \<times> 'e plugin_error option" where
  "ssr_Init pick_obfs pick_protocol remoteHost remotePort pluginArgs p =
     (case parse_flags ssr_flags pluginArgs ssr_defaults of
        (m, Some e) \<Rightarrow> (take_flags m p, Some BadFlags)
      | (m, None) \<Rightarrow>
          (let p = (take_flags m p)\<lparr>ss_host := remoteHost, ss_port := fst (atoi remotePort)\<rparr>
           in case pick_obfs (ss_obfs p) (ss_host p) (ss_port p) (ss_obfs_param p) of
                Inl e \<Rightarrow> (p, Some (NoObfs e))
              | Inr (ob, overhead) \<Rightarrow>
                  (case pick_protocol (ss_protocol p) overhead (ss_protocol_param p) of
                     Inl e \<Rightarrow> (p, Some (NoProtocol e))
                   | Inr pr \<Rightarrow> (p\<lparr>ss_o := Some ob, ss_p := Some pr\<rparr>, None))))"

text \<open>\<open>ProtocolConn\<close>: a protocol that gives the connection back leaves the original reader and writer in place.\<close>

datatype 'c protocol_io = Direct | Wrapped 'c

definition ProtocolConn :: "('c \<Rightarrow> 'c) \<Rightarrow> 'c \<Rightarrow> 'c protocol_io" where
  "ProtocolConn stream_conn upstream =
     (let downstream = stream_conn upstream in if upstream = downstream then Direct else Wrapped downstream)"

text \<open>
  \<open>EncodePacket\<close> and \<open>DecodePacket\<close>: \<open>encode\<close> and \<open>decode\<close> are the protocol's, and \<open>put d b\<close> the content of
  a buffer after \<open>Write(d)\<close>, whose result is not looked at.  The first \<open>ivLen\<close> bytes are not
  encoded.
\<close>

definition EncodePacket :: "(bytes \<Rightarrow> 'e + bytes) \<Rightarrow> (bytes \<Rightarrow> bytes \<Rightarrow> bytes) \<Rightarrow> bytes \<Rightarrow> nat \<Rightarrow> ('e + bytes) go" where
  "EncodePacket encode put buffer ivLen = do {
     payload \<leftarrow> slice ivLen (length buffer) buffer;
     Some (case encode payload of
        Inl e \<Rightarrow> Inl e
      | Inr packet \<Rightarrow> Inr (if 0 < ivLen then put packet (put (take ivLen buffer) []) else packet))
   }"

definition DecodePacket :: "(bytes \<Rightarrow> 'e + bytes) \<Rightarrow> (bytes \<Rightarrow> bytes \<Rightarrow> bytes) \<Rightarrow> bytes \<times> 'a \<Rightarrow> 'e + bytes \<times> 'a" where
  "DecodePacket decode put buffer =
     (case decode (fst buffer) of Inl e \<Rightarrow> Inl e | Inr packet \<Rightarrow> Inr (put packet [], snd buffer))"

text \<open>A buffer of size \<open>S\<close> keeps what fits and never more than \<open>S\<close> bytes; the protocol undoes itself.\<close>

locale packet_protocol =
  fixes S :: nat and put :: "bytes \<Rightarrow> bytes \<Rightarrow> bytes" and encode decode :: "bytes \<Rightarrow> 'e + bytes"
  assumes put_fits: "length b + length d \<le> S \<Longrightarrow> put d b = b @ d"
    and put_size: "length b \<le> S \<Longrightarrow> length (put d b) \<le> S"
    and inverse: "encode d = Inr c \<Longrightarrow> decode c = Inr d"
begin

lemma encode_decode:
  assumes "encode payload = Inr c" "length iv + length c \<le> S" "length payload \<le> S"
  shows "\<exists>b. EncodePacket encode put (iv @ payload) (length iv) = Some (Inr b) \<and> b = iv @ c \<and>
    DecodePacket decode put (drop (length iv) b, a) = Inr (payload, a)"
  using assms inverse [OF assms(1)]
  by (cases iv) (simp_all add: EncodePacket_def DecodePacket_def slice_def put_fits)

lemma encode_cuts:
  assumes "encode payload = Inr c" "iv \<noteq> []" "length iv \<le> S" "S < length iv + length c"
  shows "\<exists>b. EncodePacket encode put (iv @ payload) (length iv) = Some (Inr b) \<and> length b < length (iv @ c)"
proof -
  have "length (put c iv) \<le> S" by (rule put_size [OF assms(3)])
  then show ?thesis
    using assms put_fits [of "[]" iv] by (simp add: EncodePacket_def slice_def)
qed

end

text \<open>A buffer that copies what fits, and a protocol that puts the length before the payload.\<close>

definition copy_put :: "nat \<Rightarrow> bytes \<Rightarrow> bytes \<Rightarrow> bytes" where
  "copy_put S d b = b @ take (S - length b) d"

definition length_encode :: "bytes \<Rightarrow> unit + bytes" where
  "length_encode d = Inr (put_be16 (word_of_nat (length d)) @ d)"

definition length_decode :: "bytes \<Rightarrow> unit + bytes" where
  "length_decode c = (if length c < 2 then Inl () else Inr (drop 2 c))"

interpretation copying: packet_protocol S "copy_put S" length_encode length_decode for S
  by unfold_locales (auto simp: copy_put_def length_encode_def length_decode_def put_be16_def)

section \<open>Properties\<close>

text \<open>
  Options written as flags are read back: with any values for the four options, in order and
  with the last one counting.
\<close>

definition flag_text :: "string \<times> string \<Rightarrow> string" where
  "flag_text nv = ''--'' @ fst nv @ ''='' @ snd nv"

lemma parse_one_flag:
  assumes "n \<in> set ssr_flags"
  shows "parse_flags ssr_flags (flag_text (n, v) # args) m = parse_flags ssr_flags args (m(n \<mapsto> v))"
proof -
  have "n \<noteq> []" "n ! 0 \<noteq> CHR ''-''" "n ! 0 \<noteq> CHR ''=''" "CHR ''='' \<notin> set n" using assms by (auto simp: ssr_flags_def)
  then show ?thesis using assms cut_byte_append [of "CHR ''=''" n v] by (simp add: flag_text_def nth_append)
qed

theorem flags_are_read_back:
  assumes "list_all (\<lambda>nv. fst nv \<in> set ssr_flags) nvs"
  shows "parse_flags ssr_flags (map flag_text nvs) m = (m ++ map_of (rev nvs), None)"
  using assms
proof (induction nvs arbitrary: m)
  case (Cons nv nvs)
  then show ?case by (cases nv) (simp add: parse_one_flag map_add_def fun_eq_iff del: parse_flags.simps(2) split: option.split)
qed simp

theorem flags_are_read_back_witness:
  "fst (parse_flags ssr_flags [''--obfs=plain'', ''--protocol=auth_aes'', ''--obfs=tls''] ssr_defaults) ''obfs'' = Some ''tls''"
proof -
  have "list_all (\<lambda>nv. fst nv \<in> set ssr_flags) [(''obfs'', ''plain''), (''protocol'', ''auth_aes''), (''obfs'', ''tls'')]"
    by (simp add: ssr_flags_def)
  from flags_are_read_back [OF this, of ssr_defaults] show ?thesis by (simp add: flag_text_def)
qed

text \<open>
  A packet that fits the buffer when encoded goes through the plugin and its peer unchanged, behind its vector.
\<close>

theorem packet_round_trip:
  assumes "packet_protocol S put encode decode"
    and "encode payload = Inr c" and "length iv + length c \<le> S" and "length payload \<le> S"
  shows "\<exists>b. EncodePacket encode put (iv @ payload) (length iv) = Some (Inr b) \<and> take (length iv) b = iv \<and>
    DecodePacket decode put (drop (length iv) b, a) = Inr (payload, a)"
  using packet_protocol.encode_decode [OF assms, of a] by auto

theorem packet_round_trip_witness:
  "\<exists>b. EncodePacket length_encode (copy_put 2048) [1, 2, 3, 4, 9, 9] 4 = Some (Inr b) \<and>
     DecodePacket length_decode (copy_put 2048) (drop 4 b, ()) = Inr ([9, 9], ())"
proof -
  have four: "Suc (Suc (Suc (Suc 0))) = 4" by simp
  show ?thesis
    using packet_round_trip [OF copying.packet_protocol_axioms, of "[9, 9]" _ "[1, 2, 3, 4]" 2048 "()"]
      by (simp add: length_encode_def put_be16_def four) blast
qed

text \<open>One that does not fit is cut, and reported as encoded.\<close>

theorem long_packet_is_cut:
  assumes "packet_protocol S put encode decode"
    and "encode payload = Inr c" and "iv \<noteq> []" and "length iv \<le> S" and "S < length iv + length c"
  shows "\<exists>b. EncodePacket encode put (iv @ payload) (length iv) = Some (Inr b) \<and> length b < length (iv @ c)"
  using packet_protocol.encode_cuts [OF assms] .

theorem long_packet_is_cut_witness:
  "\<exists>b. EncodePacket length_encode (copy_put 8) [1, 2, 3, 4, 9, 9, 9] 4 = Some (Inr b) \<and> length b < 9"
proof -
  have four: "Suc (Suc (Suc (Suc 0))) = 4" by simp
  show ?thesis
    using long_packet_is_cut [OF copying.packet_protocol_axioms, of "[9, 9, 9]" _ "[1, 2, 3, 4]" 8]
      by (simp add: length_encode_def put_be16_def four)
qed

end
