(* ===== verification/Observatory.thy ===== *)
theory Observatory
  imports V2Ray
begin

text \<open>
  \<open>observatory.go\<close>: the status of the outbounds, read from and written to the observatory
  features of a core.  A feature is found by its tag and is a pointer into \<open>features\<close>; the
  methods of the core's own types and the marshalling are parameters.
\<close>

datatype 'l feature = Observer "'l option" | OtherObservatory | OtherFeature

datatype 'e observatory_error = Unavailable | NoFeature 'e | NoObservation 'e | BadStatus 'e

record ('l, 'e) observatory =
  ob_find :: "string \<Rightarrow> 'e + nat"
  ob_features :: "nat \<Rightarrow> 'l feature"

text \<open>
  The three methods, on the instance's field, nil when the configuration has no observatory.
  A type assertion on another type panics, and so does a call through the nil field.
\<close>

definition GetObservatoryStatus :: "(nat \<Rightarrow> 'e + 's) \<Rightarrow> ('s \<Rightarrow> 'e observatory_error + bytes) \<Rightarrow> ('l, 'e) observatory option \<Rightarrow> string
    \<Rightarrow> ('e observatory_error + bytes) go" where
  "GetObservatoryStatus observe marshal ob tag =
     (case ob of
        None \<Rightarrow> Some (Inl Unavailable)
      | Some m \<Rightarrow>
          (case ob_find m tag of
             Inl e \<Rightarrow> Some (Inl (NoFeature e))
           | Inr f \<Rightarrow>
               (case ob_features m f of
                  OtherFeature \<Rightarrow> panic
                | _ \<Rightarrow> (case observe f of Inl e \<Rightarrow> Some (Inl (NoObservation e)) | Inr s \<Rightarrow> Some (marshal s)))))"

text \<open>\<open>UpdateStatus\<close> returns the feature whose status is updated, with the status.\<close>

definition UpdateStatus :: "(bytes \<Rightarrow> 'e + 's) \<Rightarrow> ('l, 'e) observatory option \<Rightarrow> string \<Rightarrow> bytes \<Rightarrow> ('e observatory_error + nat \<times> 's) go" where
  "UpdateStatus unmarshal ob tag status =
     (case ob of
        None \<Rightarrow> Some (Inl Unavailable)
      | Some m \<Rightarrow>
          (case unmarshal status of
             Inl e \<Rightarrow> Some (Inl (BadStatus e))
           | Inr s \<Rightarrow>
               (case ob_find m tag of
                  Inl e \<Rightarrow> Some (Inl (NoFeature e))
                | Inr f \<Rightarrow> (case ob_features m f of Observer _ \<Rightarrow> Some (Inr (f, s)) | _ \<Rightarrow> panic))))"

definition SetStatusUpdateListener :: "('l, 'e) observatory option \<Rightarrow> string \<Rightarrow> 'l option \<Rightarrow> (('l, 'e) observatory option \<times> 'e observatory_error option) go" where
  "SetStatusUpdateListener ob tag listener =
     (case ob of
        None \<Rightarrow> panic
      | Some m \<Rightarrow>
          (case ob_find m tag of
             Inl e \<Rightarrow> Some (ob, Some (NoFeature e))
           | Inr f \<Rightarrow>
               (case ob_features m f of
                  Observer _ \<Rightarrow> Some (Some (m\<lparr>ob_features := (ob_features m)(f := Observer listener)\<rparr>), None)
                | _ \<Rightarrow> panic)))"

text \<open>What a status update does to its listener: a failed marshalling passes no bytes; a listener's error is logged.\<close>

definition notify :: "('s \<Rightarrow> 'e + bytes) \<Rightarrow> 'l feature \<Rightarrow> 's \<Rightarrow> ('l \<times> bytes) option" where
  "notify marshal f s =
     (case f of
        Observer (Some l) \<Rightarrow> Some (l, case marshal s of Inl _ \<Rightarrow> [] | Inr b \<Rightarrow> b)
      | _ \<Rightarrow> None)"

text \<open>
  Setting a listener, also clearing it, panics exactly when the configuration has no
  observatory, which the other two methods report as an error, or the tag names a feature
  that is not the core's own observer.
\<close>

theorem set_listener_panics_iff:
  "(SetStatusUpdateListener ob tag listener = panic \<longleftrightarrow>
     ob = None \<or> (\<exists>m f. ob = Some m \<and> ob_find m tag = Inr f \<and> (\<forall>l. ob_features m f \<noteq> Observer l))) \<and>
   UpdateStatus unmarshal None tag status = Some (Inl Unavailable) \<and>
   GetObservatoryStatus observe marshal (None :: ('l, 'e) observatory option) tag = Some (Inl Unavailable)"
  by (auto simp: SetStatusUpdateListener_def UpdateStatus_def GetObservatoryStatus_def split: option.splits sum.splits feature.splits)

text \<open>
  After a listener was set for a tag, the updates of that feature reach it and no other, and
  after it was cleared none; other features keep their listeners.
\<close>

theorem listener_gets_updates:
  assumes "ob_find m tag = Inr f" and "ob_features m f = Observer l0"
  shows "\<exists>m1 m2. SetStatusUpdateListener (Some m) tag (Some l) = Some (Some m1, None) \<and>
     SetStatusUpdateListener (Some m1) tag None = Some (Some m2, None) \<and>
     notify (\<lambda>s. Inr s) (ob_features m1 f) s = Some (l, s) \<and> notify (\<lambda>s. Inr s) (ob_features m2 f) s = None \<and>
     (\<forall>g. g \<noteq> f \<longrightarrow> ob_features m1 g = ob_features m g \<and> ob_features m2 g = ob_features m g)"
  using assms by (simp add: SetStatusUpdateListener_def notify_def)

theorem listener_gets_updates_witness:
  "\<exists>m1 m2. SetStatusUpdateListener (Some \<lparr>ob_find = (\<lambda>_. Inr 0 :: unit + nat), ob_features = (\<lambda>_. Observer None)\<rparr>) ''o'' (Some (7 :: nat)) = Some (Some m1, None) \<and>
     SetStatusUpdateListener (Some m1) ''o'' None = Some (Some m2, None) \<and>
     notify (\<lambda>s. Inr s) (ob_features m1 0) [1] = Some (7, [1])"
  using listener_gets_updates [of "\<lparr>ob_find = (\<lambda>_. Inr 0 :: unit + nat), ob_features = (\<lambda>_. Observer None)\<rparr>" "''o''" 0 None 7 "[1]"]
  by auto

end
