(* ===== verification/Settings.thy ===== *)
theory Settings
  imports GoStrings
begin

text \<open>
  The settings the application sets while it runs (\<open>route.go\<close>, \<open>bind.go\<close>), the function that
  binds a socket to the upstream network, and the closing of \<open>comm/base.go\<close>.
\<close>

record settings =
  networkType :: string
  wifiSSID :: string
  upstreamNetworkName :: string

definition no_settings :: settings where
  "no_settings = \<lparr>networkType = [], wifiSSID = [], upstreamNetworkName = []\<rparr>"

definition SetNetworkType :: "string \<Rightarrow> settings \<Rightarrow> settings" where
  "SetNetworkType network s = (if network \<noteq> networkType s then s\<lparr>networkType := network\<rparr> else s)"

definition SetWifiSSID :: "string \<Rightarrow> settings \<Rightarrow> settings" where
  "SetWifiSSID ssid s = (if ssid \<noteq> wifiSSID s then s\<lparr>wifiSSID := ssid\<rparr> else s)"

definition BindNetworkName :: "string \<Rightarrow> settings \<Rightarrow> settings" where
  "BindNetworkName name s = (if name \<noteq> upstreamNetworkName s then s\<lparr>upstreamNetworkName := name\<rparr> else s)"

text \<open>\<open>bindToUpstream\<close>: the device a socket is bound to, \<open>None\<close> when it stays unbound; both failures are only logged.\<close>

definition bindToUpstream :: "(int \<Rightarrow> string \<Rightarrow> bool) \<Rightarrow> settings \<Rightarrow> int \<Rightarrow> string option" where
  "bindToUpstream bind_to_device s fd =
     (if upstreamNetworkName s = [] then None
      else if bind_to_device fd (upstreamNetworkName s) then Some (upstreamNetworkName s) else None)"

text \<open>\<open>CloseIgnore\<close>: an interruptible value is interrupted instead of closed; a \<open>comm.Closer\<close> is closable.\<close>

datatype closer = NilCloser | InterruptibleCloser nat | ClosableCloser nat | OtherValue
datatype close_call = Interrupt nat | CloseCall nat

fun CloseIgnore :: "closer list \<Rightarrow> close_call list" where
  "CloseIgnore [] = []"
| "CloseIgnore (NilCloser # cs) = CloseIgnore cs"
| "CloseIgnore (InterruptibleCloser n # cs) = Interrupt n # CloseIgnore cs"
| "CloseIgnore (ClosableCloser n # cs) = CloseCall n # CloseIgnore cs"
| "CloseIgnore (OtherValue # cs) = CloseIgnore cs"

text \<open>The settings do not depend on the order in which different ones are set, and the last value of one counts.\<close>

lemma settings_commute:
  "SetNetworkType a (SetWifiSSID b s) = SetWifiSSID b (SetNetworkType a s)"
  "SetNetworkType a (BindNetworkName b s) = BindNetworkName b (SetNetworkType a s)"
  "SetWifiSSID a (BindNetworkName b s) = BindNetworkName b (SetWifiSSID a s)"
  by (cases s; simp add: SetNetworkType_def SetWifiSSID_def BindNetworkName_def)+

lemma settings_last:
  "networkType (SetNetworkType a s) = a" "wifiSSID (SetWifiSSID a s) = a" "upstreamNetworkName (BindNetworkName a s) = a"
  by (simp_all add: SetNetworkType_def SetWifiSSID_def BindNetworkName_def)

lemma CloseIgnore_append: "CloseIgnore (as @ bs) = CloseIgnore as @ CloseIgnore bs"
  by (induction as rule: CloseIgnore.induct) simp_all

end
