(* ===== verification/TunLife.thy ===== *)
theory TunLife
  imports TunAttr Settings
begin

text \<open>
  What \<open>NewTun2ray\<close> and \<open>Close\<close> of \<open>tun.go\<close> change in the process: the dialers of the core's
  transports and of its local DNS client, the control function of ping sockets, and the open
  devices; and \<open>SetUidDumper\<close> of \<open>uid.go\<close>.
\<close>

section \<open>The process\<close>

text \<open>A dialer is the protector it dials with, \<open>None\<close> the default one, which protects nothing.\<close>

record process =
  pr_dialer :: "protector option"
  pr_dns_dialer :: "protector option"
  pr_ping :: "ping_control option"
  pr_open :: "device list"

definition fresh_process :: process where
  "fresh_process = \<lparr>pr_dialer = None, pr_dns_dialer = None, pr_ping = None, pr_open = []\<rparr>"

text \<open>The whole of \<open>NewTun2ray\<close>: the device first, then, when there was no error, the registrations.\<close>

definition open_tun :: "tun_env \<Rightarrow> tun_config \<Rightarrow> process \<Rightarrow> (tun_error + tun2ray) \<times> process" where
  "open_tun E cfg pr =
     (case NewTun2ray E cfg of
        Inl e \<Rightarrow> (Inl e, pr)
      | Inr (t, p, ctl) \<Rightarrow>
          (Inr t, pr\<lparr>pr_dialer := Some p, pr_dns_dialer := Some p, pr_ping := Some ctl,
             pr_open := (if dev t = NoDevice then pr_open pr else dev t # pr_open pr)\<rparr>))"

definition close_tun :: "tun2ray \<Rightarrow> process \<Rightarrow> process" where
  "close_tun t pr = pr\<lparr>pr_dialer := None, pr_dns_dialer := None, pr_ping := None,
     pr_open := (if dev t = NoDevice then pr_open pr else remove1 (dev t) (pr_open pr))\<rparr>"

text \<open>
  The control function on the socket of a ping: the calls on the application's callbacks, and
  the device the socket is bound to.  Without a control function a socket is left as it is.
\<close>

datatype fd_call = BindUpstreamCall int | ProtectCallback protector int

definition ping_socket :: "(int \<Rightarrow> string \<Rightarrow> bool) \<Rightarrow> settings \<Rightarrow> ping_control option \<Rightarrow> int \<Rightarrow> fd_call list \<times> string option" where
  "ping_socket bind_to_device s ctl fd =
     (case ctl of
        None \<Rightarrow> ([], None)
      | Some PingBindUpstream \<Rightarrow> ([BindUpstreamCall fd], None)
      | Some (PingProtect p) \<Rightarrow> ([ProtectCallback p fd], bindToUpstream bind_to_device s fd))"

text \<open>\<open>SetUidDumper\<close>.\<close>

record 'd uid_source =
  uidDumper :: "'d option"
  useProcfs :: bool

definition SetUidDumper :: "'d option \<Rightarrow> bool \<Rightarrow> 'd uid_source" where
  "SetUidDumper dumper procfs = \<lparr>uidDumper = dumper, useProcfs = procfs\<rparr>"

section \<open>Properties\<close>

text \<open>
  A device that opens installs the configured protector everywhere, one that fails changes
  nothing, and closing the device undoes what opening it did.
\<close>

theorem open_close:
  "(case open_tun E cfg pr of
      (Inl e, pr') \<Rightarrow> pr' = pr
    | (Inr t, pr') \<Rightarrow>
        pr_dialer pr' = Some (if cfg_protect cfg then ConfigProtector else NoopProtector) \<and> pr_dns_dialer pr' = pr_dialer pr' \<and>
        fst (ping_socket b s (pr_ping pr') fd) \<noteq> [] \<and>
        close_tun t pr' = fresh_process\<lparr>pr_open := pr_open pr\<rparr>)"
proof (cases "open_tun E cfg pr")
  case (Pair r pr')
  then show ?thesis
    by (cases r) (auto simp: open_tun_def NewTun2ray_def close_tun_def fresh_process_def ping_socket_def Let_def split: sum.splits if_splits)
qed

text \<open>
  The registrations belong to the process, not to the device: closing the older of two open
  devices takes them from the younger one, whose sockets are no longer protected.
\<close>

theorem closing_older_unprotects_younger:
  assumes "open_tun E1 cfg1 fresh_process = (Inr t1, pr1)" and "open_tun E2 cfg2 pr1 = (Inr t2, pr2)"
    and "dev t1 = NatDevice" and "dev t2 = GVisorDevice"
  shows "pr_dialer pr2 \<noteq> None \<and> pr_open (close_tun t1 pr2) = [GVisorDevice] \<and>
     pr_dialer (close_tun t1 pr2) = None \<and> fst (ping_socket b s (pr_ping (close_tun t1 pr2)) fd) = []"
  using assms by (auto simp: open_tun_def close_tun_def fresh_process_def ping_socket_def split: sum.splits)

definition good_env :: tun_env where
  "good_env = \<lparr>env_mkdir = True, env_create = True, env_gvisor = True, env_nat = True, env_default_wireguard = False\<rparr>"

definition plain_config :: "int \<Rightarrow> tun_config" where
  "plain_config implementation =
     \<lparr>cfg_protect = True, cfg_router = [], cfg_bind_upstream = False, cfg_implementation = implementation, cfg_sniffing = False,
      cfg_override = False, cfg_debug = False, cfg_dump_uid = False, cfg_traffic_stats = False, cfg_pcap = False\<rparr>"

theorem closing_older_unprotects_younger_witness:
  "\<exists>t1 pr1 t2 pr2. open_tun good_env (plain_config TunImplementationSystem) fresh_process = (Inr t1, pr1) \<and>
     open_tun good_env (plain_config TunImplementationGVisor) pr1 = (Inr t2, pr2) \<and>
     pr_dialer pr2 \<noteq> None \<and> pr_open (close_tun t1 pr2) = [GVisorDevice] \<and> pr_dialer (close_tun t1 pr2) = None"
proof -
  obtain t1 pr1 where one: "open_tun good_env (plain_config TunImplementationSystem) fresh_process = (Inr t1, pr1)" "dev t1 = NatDevice"
    by (simp add: open_tun_def NewTun2ray_def new_device_def good_env_def plain_config_def comm_consts Let_def)
  obtain t2 pr2 where two: "open_tun good_env (plain_config TunImplementationGVisor) pr1 = (Inr t2, pr2)" "dev t2 = GVisorDevice"
    by (simp add: open_tun_def NewTun2ray_def new_device_def good_env_def plain_config_def comm_consts Let_def)
  show ?thesis
    using closing_older_unprotects_younger [OF one(1) two(1) one(2) two(2)] one two by blast
qed


section \<open>While a device opens\<close>

text \<open>
  What \<open>NewTun2ray\<close> does to the process, call by call, in the order of the source.  The read
  loop of the device runs as soon as the device is open.
\<close>

definition open_steps :: "tun_env \<Rightarrow> tun_config \<Rightarrow> tun_error + (process \<Rightarrow> process) list" where
  "open_steps E cfg =
     (case NewTun2ray E cfg of
        Inl e \<Rightarrow> Inl e
      | Inr (t, p, ctl) \<Rightarrow> Inr
          [\<lambda>pr. pr\<lparr>pr_open := (if dev t = NoDevice then pr_open pr else dev t # pr_open pr)\<rparr>,
           \<lambda>pr. pr\<lparr>pr_dialer := Some p\<rparr>,
           \<lambda>pr. pr\<lparr>pr_ping := Some ctl\<rparr>,
           \<lambda>pr. pr\<lparr>pr_dns_dialer := Some p\<rparr>])"

definition after_steps :: "nat \<Rightarrow> (process \<Rightarrow> process) list \<Rightarrow> process \<Rightarrow> process" where
  "after_steps k fs pr = foldl (\<lambda>pr f. f pr) pr (take k fs)"

text \<open>Together the calls are \<open>open_tun\<close>.\<close>

lemma open_steps_are_open_tun:
  "open_tun E cfg pr = (case open_steps E cfg of
     Inl e \<Rightarrow> (Inl e, pr)
   | Inr fs \<Rightarrow> (map_sum id fst (NewTun2ray E cfg), after_steps (length fs) fs pr))"
  by (simp add: open_tun_def open_steps_def after_steps_def split: sum.split prod.split)

text \<open>
  The first device of a process: between its opening and the last registration packets are
  read, but sockets for the core's transports, for pings and for the core's DNS client are
  made without the protector, each until its own call.
\<close>

theorem opening_window:
  assumes "open_tun E cfg fresh_process = (Inr t, pr')" and "dev t \<noteq> NoDevice"
  shows "\<exists>fs. open_steps E cfg = Inr fs \<and> after_steps (length fs) fs fresh_process = pr' \<and>
     pr_open (after_steps 1 fs fresh_process) = [dev t] \<and>
     pr_dialer (after_steps 1 fs fresh_process) = None \<and>
     fst (ping_socket b s (pr_ping (after_steps 2 fs fresh_process)) fd) = [] \<and>
     pr_dns_dialer (after_steps 3 fs fresh_process) = None"
proof -
  obtain p ctl where new: "NewTun2ray E cfg = Inr (t, p, ctl)"
    using assms(1) by (auto simp: open_tun_def split: sum.splits)
  obtain fs where fs: "open_steps E cfg = Inr fs" by (simp add: open_steps_def new)
  have "after_steps (length fs) fs fresh_process = pr'"
    using assms(1) by (simp add: open_steps_are_open_tun fs)
  moreover have "pr_open (after_steps 1 fs fresh_process) = [dev t]" "pr_dialer (after_steps 1 fs fresh_process) = None"
     "fst (ping_socket b s (pr_ping (after_steps 2 fs fresh_process)) fd) = []" "pr_dns_dialer (after_steps 3 fs fresh_process) = None"
    using fs assms(2) by (auto simp: open_steps_def new after_steps_def fresh_process_def ping_socket_def numeral_2_eq_2 numeral_3_eq_3)
  ultimately show ?thesis using fs by blast
qed

theorem opening_window_witness:
  "\<exists>fs. open_steps good_env (plain_config TunImplementationSystem) = Inr fs \<and>
     pr_open (after_steps 1 fs fresh_process) = [NatDevice] \<and> pr_dialer (after_steps 1 fs fresh_process) = None"
proof -
  obtain t pr where "open_tun good_env (plain_config TunImplementationSystem) fresh_process = (Inr t, pr)" "dev t = NatDevice"
    by (simp add: open_tun_def NewTun2ray_def new_device_def good_env_def plain_config_def comm_consts Let_def)
  then show ?thesis
    using opening_window [where E = good_env and cfg = "plain_config TunImplementationSystem" and t = t and pr' = pr
      and b = "\<lambda>_ _. True" and s = no_settings and fd = 0] by force
qed

end
