(* ===== verification/AssetsBoot.thy ===== *)
theory AssetsBoot
  imports Assets
begin

text \<open>
  The start-up of \<open>InitializeV2Ray\<close> and the calls of \<open>NewFileSeeker\<close> that run beside it.  The
  goroutine holds the mutex \<open>assetsAccess\<close> while it extracts; a seeker whose name is not yet
  in \<open>extracted\<close> passes once it has locked and unlocked it.  Every access to a file, to the
  mutex or to the map is a step of its own.
\<close>

section \<open>An extraction step by step\<close>

text \<open>\<open>extractAssetName\<close> between its file operations; \<open>v\<close> is the version to be written in the end.\<close>

datatype extraction =
    CheckVersion
  | LoadVersion
  | CopyPacked string
  | Unpack string
  | Rename string
  | WriteVersion string
  | Extracted "asset_error option"

fun extraction_step :: "asset_env \<Rightarrow> string \<Rightarrow> bool \<Rightarrow> extraction \<Rightarrow> fs \<Rightarrow> extraction \<times> fs" where
  "extraction_step A name force CheckVersion s =
     (case check_version A name force s of
        (s, Inl e) \<Rightarrow> (Extracted (Some e), s)
      | (s, Inr (False, _)) \<Rightarrow> (Extracted None, s)
      | (s, Inr (True, v)) \<Rightarrow> (if v = '''' then LoadVersion else CopyPacked v, s))"
| "extraction_step A name force LoadVersion s =
     (case loadAssetVersion A name of Inl e \<Rightarrow> (Extracted (Some e), s) | Inr v \<Rightarrow> (CopyPacked v, s))"
| "extraction_step A name force (CopyPacked v) s =
     (case extractAsset A (ae_prefix A @ name @ ''.xz'') (dir_of A name @ name) s of
        (s, Some e) \<Rightarrow> (Extracted (Some e), s)
      | (s, None) \<Rightarrow> (Unpack v, s))"
| "extraction_step A name force (Unpack v) s =
     (case Unxz A (dir_of A name @ name) ((dir_of A name @ name) @ ''.tmp'') s of
        (s, Some e) \<Rightarrow> (Extracted (Some e), s)
      | (s, None) \<Rightarrow> (Rename v, s))"
| "extraction_step A name force (Rename v) s =
     (case rename ((dir_of A name @ name) @ ''.tmp'') (dir_of A name @ name) s of
        (s, Some e) \<Rightarrow> (Extracted (Some e), s)
      | (s, None) \<Rightarrow> (WriteVersion v, s))"
| "extraction_step A name force (WriteVersion v) s =
     (if \<not> ae_create A (dir_of A name @ version_of name) then (Extracted (Some CreateFile), s)
      else (Extracted None, put_file (dir_of A name @ version_of name) v s))"
| "extraction_step A name force (Extracted e) s = (Extracted e, s)"

text \<open>What an extraction comes to when nobody else touches the files.\<close>

definition finish_extraction :: "asset_env \<Rightarrow> string \<Rightarrow> bool \<Rightarrow> extraction \<Rightarrow> fs \<Rightarrow> fs \<times> asset_error option" where
  "finish_extraction A name force x s =
     (let version = (\<lambda>v s. if \<not> ae_create A (dir_of A name @ version_of name) then (s, Some CreateFile)
                           else (put_file (dir_of A name @ version_of name) v s, None));
          renamed = (\<lambda>v s. case rename ((dir_of A name @ name) @ ''.tmp'') (dir_of A name @ name) s of
                             (s, Some e) \<Rightarrow> (s, Some e) | (s, None) \<Rightarrow> version v s);
          unpacked = (\<lambda>v s. case Unxz A (dir_of A name @ name) ((dir_of A name @ name) @ ''.tmp'') s of
                              (s, Some e) \<Rightarrow> (s, Some e) | (s, None) \<Rightarrow> renamed v s)
      in case x of
           CheckVersion \<Rightarrow> extractAssetName A name force s
         | LoadVersion \<Rightarrow> (case loadAssetVersion A name of Inl e \<Rightarrow> (s, Some e) | Inr v \<Rightarrow> write_asset A name v s)
         | CopyPacked v \<Rightarrow> write_asset A name v s
         | Unpack v \<Rightarrow> unpacked v s
         | Rename v \<Rightarrow> renamed v s
         | WriteVersion v \<Rightarrow> version v s
         | Extracted e \<Rightarrow> (s, e))"

lemma finish_step:
  assumes "extraction_step A name force x s = (x', s')"
  shows "finish_extraction A name force x' s' = finish_extraction A name force x s"
  using assms
  by (cases x) (auto simp: finish_extraction_def extractAssetName_def write_asset_def unxz_in_place_def Let_def
      split: prod.splits sum.splits option.splits bool.splits if_splits)

text \<open>The steps left are counted, so an extraction ends.\<close>

fun extraction_rank :: "extraction \<Rightarrow> nat" where
  "extraction_rank CheckVersion = 6"
| "extraction_rank LoadVersion = 5"
| "extraction_rank (CopyPacked v) = 4"
| "extraction_rank (Unpack v) = 3"
| "extraction_rank (Rename v) = 2"
| "extraction_rank (WriteVersion v) = 1"
| "extraction_rank (Extracted e) = 0"

lemma extraction_rank_decreases:
  "extraction_step A name force x s = (x', s') \<Longrightarrow> extraction_rank x' < extraction_rank x \<or> extraction_rank x = 0"
  by (cases x) (auto split: prod.splits sum.splits option.splits bool.splits if_splits)

section \<open>The start-up and its seekers\<close>

text \<open>The goroutine of \<open>InitializeV2Ray\<close>.\<close>

datatype startup =
    AskOfficial
  | Extracting extraction "string list"  \<comment> \<open>the extraction of the head of the list\<close>
  | ExtractCerts
  | SwitchRoots
  | Unlocking
  | Ended

text \<open>A call of \<open>NewFileSeeker\<close>: the two tries of the two paths, and what lies between.\<close>

datatype seeking =
    LookExtracted
  | AwaitMutex
  | TryPaths bool "string list"   \<comment> \<open>\<open>os.Stat\<close> of the first path left; the first round or the second\<close>
  | OpenPath string
  | TryPacked
  | FallBack extraction
  | Found "asset_error + opened"

record 'c boot =
  bo_files :: fs
  bo_extracted :: "string list"
  bo_locked :: bool
  bo_official :: bool
  bo_roots :: "'c roots"
  bo_startup :: startup
  bo_seekers :: "nat \<rightharpoonup> string \<times> seeking"

record 'c boot_env =
  be_assets :: asset_env
  be_parse_pem :: "string \<Rightarrow> 'c option"
  be_official :: bool
  be_system_certs :: bool

abbreviation env_of :: "'c boot_env \<Rightarrow> 'c boot \<Rightarrow> asset_env" where
  "env_of E b \<equiv> be_assets E\<lparr>ae_official := bo_official b\<rparr>"

text \<open>\<open>InitializeV2Ray\<close>, up to its return; \<open>useOfficialAssets\<close> keeps its value.\<close>

definition InitializeV2Ray :: "bool \<Rightarrow> bool \<Rightarrow> fs \<Rightarrow> 'c roots \<Rightarrow> 'c boot" where
  "InitializeV2Ray skipExtract official s r =
     \<lparr>bo_files = s, bo_extracted = [], bo_locked = \<not> skipExtract, bo_official = official, bo_roots = r,
      bo_startup = (if skipExtract then Ended else AskOfficial), bo_seekers = Map.empty\<rparr>"

text \<open>
  One step of the goroutine.  An extraction without error enters its name into \<open>extracted\<close>, an
  error is logged; without the certificates the switch is not asked for.
\<close>

definition next_names :: "string list \<Rightarrow> startup" where
  "next_names ns = (if ns = [] then ExtractCerts else Extracting CheckVersion ns)"

definition startup_step :: "'c boot_env \<Rightarrow> 'c boot \<Rightarrow> 'c boot option" where
  "startup_step E b = (case bo_startup b of
     AskOfficial \<Rightarrow> Some (b\<lparr>bo_official := be_official E, bo_startup := next_names [geoipDat, geositeDat, browserForwarder]\<rparr>)
   | Extracting x ns \<Rightarrow>
       (case ns of
          [] \<Rightarrow> Some (b\<lparr>bo_startup := ExtractCerts\<rparr>)
        | n # ns' \<Rightarrow>
            (case x of
               Extracted e \<Rightarrow>
                 Some (b\<lparr>bo_extracted := (if e = None then n # bo_extracted b else bo_extracted b), bo_startup := next_names ns'\<rparr>)
             | _ \<Rightarrow>
                 (case extraction_step (env_of E b) n False x (bo_files b) of
                    (x', s) \<Rightarrow> Some (b\<lparr>bo_files := s, bo_startup := Extracting x' ns\<rparr>))))
   | ExtractCerts \<Rightarrow>
       (case extractRootCACertsPem (env_of E b) (bo_files b) of
          (s, e) \<Rightarrow> Some (b\<lparr>bo_files := s, bo_startup := (if e = None then SwitchRoots else Unlocking)\<rparr>))
   | SwitchRoots \<Rightarrow>
       Some (b\<lparr>bo_roots := UpdateSystemRoots (env_of E b) (be_parse_pem E) (bo_files b) (be_system_certs E) (bo_roots b),
              bo_startup := Unlocking\<rparr>)
   | Unlocking \<Rightarrow> Some (b\<lparr>bo_locked := False, bo_startup := Ended\<rparr>)
   | Ended \<Rightarrow> None)"

text \<open>
  One step of a seeker.  The mutex is locked and unlocked at once.  The second round of tries
  ends in an error where the first goes on to the packed asset.
\<close>

definition seek_paths :: "asset_env \<Rightarrow> string \<Rightarrow> string list" where
  "seek_paths A name = [ae_internal A @ name, ae_external A @ name]"

definition open_path :: "asset_env \<Rightarrow> string \<Rightarrow> fs \<Rightarrow> asset_error + opened" where
  "open_path A p s = (case read_file A s p of None \<Rightarrow> Inl OpenFile | Some c \<Rightarrow> Inr (OpenedFile p c))"

definition seeking_step :: "asset_env \<Rightarrow> bool \<Rightarrow> string \<Rightarrow> seeking \<Rightarrow> fs \<Rightarrow> string list \<Rightarrow> (seeking \<times> fs \<times> string list) option" where
  "seeking_step A locked name q s ex = (case q of
     LookExtracted \<Rightarrow> Some (if name \<in> set ex then TryPaths True (seek_paths A name) else AwaitMutex, s, ex)
   | AwaitMutex \<Rightarrow> if locked then None else Some (TryPaths True (seek_paths A name), s, ex)
   | TryPaths first (p # ps) \<Rightarrow> Some (if stat_ok s p then OpenPath p else TryPaths first ps, s, ex)
   | TryPaths first [] \<Rightarrow> Some (if first then TryPacked else Found (Inl NotFound), s, ex)
   | OpenPath p \<Rightarrow> Some (Found (open_path A p s), s, ex)
   | TryPacked \<Rightarrow>
       Some (case ae_assets A (ae_prefix A @ name) of
               Some i \<Rightarrow> (Found (Inr (OpenedAsset (as_content i))), s, name # ex)
             | None \<Rightarrow> (FallBack CheckVersion, s, ex))
   | FallBack (Extracted e) \<Rightarrow>
       Some (case e of Some e \<Rightarrow> Found (Inl e) | None \<Rightarrow> TryPaths False (seek_paths A name), s, ex)
   | FallBack x \<Rightarrow> (case extraction_step A name False x s of (x', s') \<Rightarrow> Some (FallBack x', s', ex))
   | Found r \<Rightarrow> None)"

inductive boot_step :: "'c boot_env \<Rightarrow> 'c boot \<Rightarrow> 'c boot \<Rightarrow> bool" for E where
  startup: "startup_step E b = Some b' \<Longrightarrow> boot_step E b b'"
| call: "bo_seekers b t = None \<Longrightarrow> boot_step E b (b\<lparr>bo_seekers := (bo_seekers b)(t \<mapsto> (name, LookExtracted))\<rparr>)"
| seek: "bo_seekers b t = Some (name, q) \<Longrightarrow>
    seeking_step (env_of E b) (bo_locked b) name q (bo_files b) (bo_extracted b) = Some (q', s, ex) \<Longrightarrow>
    boot_step E b (b\<lparr>bo_files := s, bo_extracted := ex, bo_seekers := (bo_seekers b)(t \<mapsto> (name, q'))\<rparr>)"

inductive boot_reach :: "'c boot_env \<Rightarrow> 'c boot \<Rightarrow> 'c boot \<Rightarrow> bool" for E where
  here: "boot_reach E b b"
| step: "boot_reach E b c \<Longrightarrow> boot_step E c d \<Longrightarrow> boot_reach E b d"

text \<open>Runs are computed from a list of events.\<close>

datatype boot_event = GoOn | Call nat string | Continue nat

fun boot_do :: "'c boot_env \<Rightarrow> boot_event \<Rightarrow> 'c boot \<Rightarrow> 'c boot option" where
  "boot_do E GoOn b = startup_step E b"
| "boot_do E (Call t name) b =
     (if bo_seekers b t = None then Some (b\<lparr>bo_seekers := (bo_seekers b)(t \<mapsto> (name, LookExtracted))\<rparr>) else None)"
| "boot_do E (Continue t) b = do {
     (name, q) \<leftarrow> bo_seekers b t;
     (q', s, ex) \<leftarrow> seeking_step (env_of E b) (bo_locked b) name q (bo_files b) (bo_extracted b);
     Some (b\<lparr>bo_files := s, bo_extracted := ex, bo_seekers := (bo_seekers b)(t \<mapsto> (name, q'))\<rparr>)
   }"

fun boot_run :: "'c boot_env \<Rightarrow> boot_event list \<Rightarrow> 'c boot \<Rightarrow> 'c boot option" where
  "boot_run E [] b = Some b"
| "boot_run E (e # es) b = Option.bind (boot_do E e b) (boot_run E es)"

lemma boot_do_step: "boot_do E e b = Some c \<Longrightarrow> boot_step E b c"
  by (cases e) (auto simp: bind_eq_Some_conv intro: boot_step.intros split: if_splits)

lemma boot_reach_trans: "boot_reach E c d \<Longrightarrow> boot_reach E b c \<Longrightarrow> boot_reach E b d"
  by (induction rule: boot_reach.induct) (auto intro: boot_reach.intros)

lemma boot_run_reach: "boot_run E es b = Some c \<Longrightarrow> boot_reach E b c"
proof (induction es arbitrary: b)
  case Nil
  then show ?case by (simp add: boot_reach.here)
next
  case (Cons e es)
  then obtain d where d: "boot_do E e b = Some d" "boot_run E es d = Some c"
    by (auto simp: bind_eq_Some_conv)
  show ?case
    using boot_reach_trans [OF Cons.IH [OF d(2)]] boot_reach.step [OF boot_reach.here boot_do_step [OF d(1)]] .
qed

end
