(* ===== verification/AssetsBootSafe.thy ===== *)
theory AssetsBootSafe
  imports AssetsBoot
begin

text \<open>
  What the openings of data files see while the start-up runs (\<open>AssetsBoot\<close>): the invariant
  behind the mutex and the map of extracted names, and where neither helps.
\<close>

section \<open>What a step leaves alone\<close>

text \<open>The last letters of a path tell the files of the start-up apart, whatever the directories.\<close>

definition ending :: "string \<Rightarrow> string" where
  "ending p = take 5 (rev p)"

lemma ending_append: "5 \<le> length p \<Longrightarrow> ending (d @ p) = ending p"
  by (simp add: ending_def)

lemma name_endings:
  "ending (d @ geoipDat) = ''tad.p''" "ending (d @ geositeDat) = ''tad.e''" "ending (d @ browserForwarder) = ''sj.xe''"
  "ending (d @ mozillaIncludedPem) = ''mep.d''" "ending (d @ ''.sha256sum'') = ''mus65''"
  by (simp_all add: ending_append asset_names mozillaIncludedPem_def) (simp_all add: ending_def)

lemma tmp_ending: "n \<in> set asset_list \<Longrightarrow> take 4 (ending ((d @ n) @ ''.tmp'')) = ''pmt.''"
  by (simp add: ending_def)

lemma version_of_simps:
  "version_of geoipDat = geoipVersion" "version_of geositeDat = geositeVersion" "version_of browserForwarder = coreVersion"
  by (simp_all add: version_of_def asset_names)

lemma version_endings:
  "ending (d @ geoipVersion) = ''txt.n''" "ending (d @ geositeVersion) = ''txt.n''" "ending (d @ coreVersion) = ''txt.n''"
  by (simp_all add: ending_append geoipVersion_def geositeVersion_def coreVersion_def) (simp_all add: ending_def)

lemma version_ending: "n \<in> set asset_list \<Longrightarrow> ending (d @ version_of n) = ''txt.n''"
  by (auto simp: asset_list_def version_of_simps version_endings)

lemma own_ending: "n \<in> set asset_list \<Longrightarrow> ending (d @ n) = ending n"
  using name_endings [of d] name_endings [of "[]"] by (auto simp: asset_list_def)

text \<open>The extraction of \<open>n\<close> writes files with these endings only.\<close>

definition written_by :: "string \<Rightarrow> string \<Rightarrow> bool" where
  "written_by n p \<longleftrightarrow> ending p = ending n \<or> take 4 (ending p) = ''pmt.'' \<or> ending p = ''txt.n''"

lemma written_by_own:
  assumes "n \<in> set asset_list"
  shows "written_by n (d @ n)" "written_by n ((d @ n) @ ''.tmp'')" "written_by n (d @ version_of n)" "written_by n (version_of n)"
  using own_ending [OF assms, of d] tmp_ending [OF assms, of d] version_ending [OF assms, of d] version_ending [OF assms, of "[]"]
  by (simp_all add: written_by_def)

lemma other_name_kept:
  assumes "n \<in> set asset_list" "m \<in> set asset_list" "n \<noteq> m"
  shows "\<not> written_by m (d @ n)"
  using assms name_endings [of d] name_endings [of "[]"] by (auto simp: written_by_def asset_list_def)

lemma extraction_frame:
  assumes "n \<in> set asset_list" "extraction_step A n force x s = (x', s')"
  shows "fs_dirs s' = fs_dirs s" "\<not> written_by n p \<Longrightarrow> fs_files s' p = fs_files s p"
proof -
  note own = written_by_own [OF assms(1)]
  show "fs_dirs s' = fs_dirs s"
    using assms(2) by (cases x) (auto simp: check_version_def os_RemoveAll_def extractAsset_def Unxz_def rename_def put_file_def
        split: prod.splits sum.splits option.splits bool.splits if_splits)
  assume p: "\<not> written_by n p"
  have d: "p \<noteq> d @ n" "p \<noteq> (d @ n) @ ''.tmp''" "p \<noteq> d @ version_of n" "p \<noteq> version_of n" for d
    using p own by (metis)+
  show "fs_files s' p = fs_files s p"
    using assms(2) d
    by (cases x) (auto simp: check_version_def os_RemoveAll_def extractAsset_def Unxz_def rename_def
        split: prod.splits sum.splits option.splits bool.splits if_splits)
qed

lemma finish_extraction_frame:
  assumes "n \<in> set asset_list"
  shows "fs_dirs (fst (finish_extraction A n force x s)) = fs_dirs s \<and>
     (\<not> written_by n p \<longrightarrow> fs_files (fst (finish_extraction A n force x s)) p = fs_files s p)"
proof (induction "extraction_rank x" arbitrary: x s rule: less_induct)
  case less
  obtain x' s' where step: "extraction_step A n force x s = (x', s')" by fastforce
  note frame = extraction_frame [OF assms step]
  show ?case
  proof (cases "extraction_rank x = 0")
    case True
    then show ?thesis by (cases x) (simp_all add: finish_extraction_def)
  next
    case False
    then have "extraction_rank x' < extraction_rank x"
      using extraction_rank_decreases [OF step] by simp
    from less.hyps [OF this, of s'] show ?thesis
      using frame finish_step [OF step] by auto
  qed
qed

lemma certs_frame:
  "fs_dirs (fst (extractRootCACertsPem A s)) = fs_dirs s"
  "ending p \<noteq> ''mep.d'' \<Longrightarrow> ending p \<noteq> ''mus65'' \<Longrightarrow> fs_files (fst (extractRootCACertsPem A s)) p = fs_files s p"
proof -
  show "fs_dirs (fst (extractRootCACertsPem A s)) = fs_dirs s"
    by (simp add: extractRootCACertsPem_def Let_def split: option.split)
  assume "ending p \<noteq> ''mep.d''" "ending p \<noteq> ''mus65''"
  moreover have "ending (d @ mozillaIncludedPem) = ''mep.d''" "ending ((d @ mozillaIncludedPem) @ ''.sha256sum'') = ''mus65''" for d
    using name_endings(4) [of d] name_endings(5) [of "d @ mozillaIncludedPem"] by simp_all
  ultimately have "p \<noteq> d @ mozillaIncludedPem" "p \<noteq> (d @ mozillaIncludedPem) @ ''.sha256sum''" for d
    by (metis)+
  then show "fs_files (fst (extractRootCACertsPem A s)) p = fs_files s p"
    by (simp add: extractRootCACertsPem_def Let_def split: option.split)
qed

section \<open>What the start-up comes to\<close>

abbreviation asked_env :: "'c boot_env \<Rightarrow> asset_env" where
  "asked_env E \<equiv> be_assets E\<lparr>ae_official := be_official E\<rparr>"

definition finish_names :: "asset_env \<Rightarrow> string list \<Rightarrow> fs \<Rightarrow> fs" where
  "finish_names A ns s = fst (extractRootCACertsPem A (fst (extract_all A ns s [])))"

definition finish_startup :: "'c boot_env \<Rightarrow> 'c boot \<Rightarrow> fs" where
  "finish_startup E b = (let A = asked_env E; s = bo_files b in case bo_startup b of
     AskOfficial \<Rightarrow> finish_names A asset_list s
   | Extracting x [] \<Rightarrow> finish_names A [] s
   | Extracting x (n # ns) \<Rightarrow> finish_names A ns (fst (finish_extraction A n False x s))
   | ExtractCerts \<Rightarrow> finish_names A [] s
   | _ \<Rightarrow> s)"

lemma extract_all_files: "fst (extract_all A ns s ex) = fst (extract_all A ns s [])"
  by (induction ns arbitrary: s ex) (auto split: prod.split option.split, metis)

lemma initialize_files: "fst (initialize A parse_pem sys s r) = finish_names A asset_list s"
  by (simp add: initialize_def finish_names_def asset_list_def split: prod.split option.split del: extract_all.simps)

lemma finish_names_Cons: "finish_names A (n # ns) s = finish_names A ns (fst (finish_extraction A n False CheckVersion s))"
  by (simp add: finish_names_def finish_extraction_def extract_all_files [where ex = "[n]"] split: prod.split option.split)

lemma finish_next_names: "finish_startup E (b\<lparr>bo_startup := next_names ns\<rparr>) = finish_names (asked_env E) ns (bo_files b)"
  by (cases ns) (simp_all add: finish_startup_def next_names_def finish_names_Cons Let_def)

lemma finish_names_frame:
  assumes "set ns \<subseteq> set asset_list" "\<forall>n \<in> set ns. \<not> written_by n p" "ending p \<noteq> ''mep.d''" "ending p \<noteq> ''mus65''"
  shows "fs_dirs (finish_names A ns s) = fs_dirs s \<and> fs_files (finish_names A ns s) p = fs_files s p"
  using assms(1,2)
proof (induction ns arbitrary: s)
  case Nil
  then show ?case using assms(3,4) by (simp add: finish_names_def certs_frame)
next
  case (Cons n ns)
  then show ?case
    using finish_extraction_frame [of n A False CheckVersion s p] by (simp add: finish_names_Cons)
qed

text \<open>The names that are still to be extracted.\<close>

fun names_of :: "startup \<Rightarrow> string list" where
  "names_of AskOfficial = asset_list"
| "names_of (Extracting x ns) = ns"
| "names_of u = []"

abbreviation names_left :: "'c boot \<Rightarrow> string list" where
  "names_left b \<equiv> names_of (bo_startup b)"

lemma names_of_next [simp]: "names_of (next_names ns) = ns" "next_names ns \<noteq> Ended"
  by (simp_all add: next_names_def)

lemma finish_startup_frame:
  assumes "set (names_left b) \<subseteq> set asset_list" "\<forall>n \<in> set (names_left b). \<not> written_by n p"
    and "ending p \<noteq> ''mep.d''" "ending p \<noteq> ''mus65''"
  shows "fs_dirs (finish_startup E b) = fs_dirs (bo_files b) \<and> fs_files (finish_startup E b) p = fs_files (bo_files b) p"
proof -
  note names = finish_names_frame [OF _ _ assms(3,4)]
  show ?thesis
  proof (cases "bo_startup b")
    case AskOfficial
    then show ?thesis
      using assms names [of asset_list] by (simp add: finish_startup_def Let_def)
  next
    case (Extracting x ns)
    show ?thesis
    proof (cases ns)
      case Nil
      then show ?thesis using Extracting names [of "[]"] by (simp add: finish_startup_def Let_def)
    next
      case (Cons m ms)
      then show ?thesis
        using assms Extracting names [of ms] finish_extraction_frame [of m "asked_env E" False x "bo_files b" p]
        by (simp add: finish_startup_def Let_def)
    qed
  qed (use names [of "[]"] in \<open>simp_all add: finish_startup_def Let_def\<close>)
qed

text \<open>A step of the goroutine does not change what its work comes to.\<close>

lemma startup_step_finish:
  assumes "startup_step E b = Some b'" "bo_startup b = AskOfficial \<or> bo_official b = be_official E"
  shows "finish_startup E b' = finish_startup E b"
proof (cases "bo_startup b")
  case AskOfficial
  then have b': "b' = b\<lparr>bo_official := be_official E, bo_startup := next_names asset_list\<rparr>"
    using assms(1) by (simp add: startup_step_def asset_list_def)
  show ?thesis
    using AskOfficial finish_next_names [where E = E and b = "b\<lparr>bo_official := be_official E\<rparr>" and ns = asset_list]
    by (simp add: b' finish_startup_def [of E b])
next
  case (Extracting x ns)
  have env: "env_of E b = asked_env E" using assms(2) Extracting by simp
  show ?thesis
  proof (cases ns)
    case Nil
    then show ?thesis using assms(1) Extracting by (auto simp: startup_step_def finish_startup_def)
  next
    case (Cons n ms)
    show ?thesis
    proof (cases "\<exists>e. x = Extracted e")
      case True
      then obtain e where x: "x = Extracted e" by blast
      then have "b' = b\<lparr>bo_extracted := (if e = None then n # bo_extracted b else bo_extracted b)\<rparr>\<lparr>bo_startup := next_names ms\<rparr>"
        using assms(1) Extracting Cons by (auto simp: startup_step_def)
      then show ?thesis
        using Extracting Cons x finish_next_names [where E = E and b = "b\<lparr>bo_extracted := (if e = None then n # bo_extracted b else bo_extracted b)\<rparr>" and ns = ms]
        by (simp add: finish_startup_def [of E b] finish_extraction_def)
    next
      case False
      obtain x' s' where step: "extraction_step (asked_env E) n False x (bo_files b) = (x', s')" by fastforce
      have "b' = b\<lparr>bo_files := s', bo_startup := Extracting x' ns\<rparr>"
        using False assms(1) Extracting Cons step env by (cases x) (simp_all add: startup_step_def del: extraction_step.simps)
      then show ?thesis
        using Extracting Cons finish_step [OF step] by (simp add: finish_startup_def)
    qed
  qed
next
  case ExtractCerts
  then have env: "env_of E b = asked_env E" using assms(2) by simp
  obtain s e where certs: "extractRootCACertsPem (asked_env E) (bo_files b) = (s, e)" by fastforce
  then show ?thesis
    using ExtractCerts env assms(1) by (auto simp: startup_step_def finish_startup_def finish_names_def)
qed (use assms(1) in \<open>auto simp: startup_step_def finish_startup_def\<close>)

section \<open>What a seeker finds\<close>

definition seek_result :: "asset_env \<Rightarrow> string \<Rightarrow> fs \<Rightarrow> asset_error + opened" where
  "seek_result A name s = snd (snd (NewFileSeeker A name [] s))"

text \<open>What a seeker comes to when the files stay as they are.\<close>

definition seek_again :: "asset_env \<Rightarrow> string list \<Rightarrow> fs \<Rightarrow> asset_error + opened" where
  "seek_again A ps s = (case first_file A s ps of Some r \<Rightarrow> r | None \<Rightarrow> Inl NotFound)"

definition seek_fallen :: "asset_env \<Rightarrow> string \<Rightarrow> extraction \<Rightarrow> fs \<Rightarrow> asset_error + opened" where
  "seek_fallen A name x s =
     (case finish_extraction A name False x s of
        (s, Some e) \<Rightarrow> Inl e | (s, None) \<Rightarrow> seek_again A (seek_paths A name) s)"

definition seek_packed :: "asset_env \<Rightarrow> string \<Rightarrow> fs \<Rightarrow> asset_error + opened" where
  "seek_packed A name s =
     (case ae_assets A (ae_prefix A @ name) of
        Some i \<Rightarrow> Inr (OpenedAsset (as_content i)) | None \<Rightarrow> seek_fallen A name CheckVersion s)"

fun finish_seeking :: "asset_env \<Rightarrow> string \<Rightarrow> seeking \<Rightarrow> fs \<Rightarrow> asset_error + opened" where
  "finish_seeking A name (TryPaths first ps) s =
     (if first then case first_file A s ps of Some r \<Rightarrow> r | None \<Rightarrow> seek_packed A name s else seek_again A ps s)"
| "finish_seeking A name (OpenPath p) s = open_path A p s"
| "finish_seeking A name TryPacked s = seek_packed A name s"
| "finish_seeking A name (FallBack x) s = seek_fallen A name x s"
| "finish_seeking A name (Found r) s = r"
| "finish_seeking A name q s = seek_result A name s"

lemma finish_first_round: "finish_seeking A name (TryPaths True (seek_paths A name)) s = seek_result A name s"
  by (simp add: seek_result_def NewFileSeeker_def seek_paths_def finish_extraction_def seek_packed_def seek_fallen_def seek_again_def
      split: option.split prod.split)

lemma open_first: "stat_ok s p \<Longrightarrow> first_file A s (p # ps) = Some (open_path A p s)"
  by (simp add: open_path_def)

lemma seeking_step_finish:
  assumes "seeking_step A locked name q s ex = Some (q', s', ex')"
  shows "finish_seeking A name q' s' = finish_seeking A name q s"
proof (cases q)
  case (FallBack x)
  show ?thesis
  proof (cases "\<exists>e. x = Extracted e")
    case True
    then show ?thesis
      using assms FallBack
      by (auto simp: seeking_step_def seek_fallen_def finish_extraction_def simp del: first_file.simps split: option.splits)
  next
    case False
    obtain y t where step: "extraction_step A name False x s = (y, t)" by fastforce
    then have "q' = FallBack y" "s' = t"
      using False assms FallBack by (cases x; simp add: seeking_step_def del: extraction_step.simps)+
    then show ?thesis
      using FallBack finish_step [OF step] by (simp add: seek_fallen_def)
  qed
next
  case (TryPaths first ps)
  show ?thesis
  proof (cases ps)
    case Nil
    then show ?thesis
      using assms TryPaths by (auto simp: seeking_step_def seek_again_def)
  next
    case (Cons p ps')
    then have "s' = s" "q' = (if stat_ok s p then OpenPath p else TryPaths first ps')"
      using assms TryPaths by (auto simp: seeking_step_def)
    then show ?thesis
      using TryPaths Cons open_first [of s p A ps'] by (simp add: seek_again_def)
  qed
next
  case LookExtracted
  then show ?thesis
    using assms finish_first_round [of A name s] by (auto simp: seeking_step_def simp del: finish_seeking.simps(1))
next
  case AwaitMutex
  then show ?thesis
    using assms finish_first_round [of A name s]
    by (auto simp: seeking_step_def simp del: finish_seeking.simps(1) split: if_splits)
next
  case TryPacked
  then show ?thesis
    using assms by (auto simp: seeking_step_def seek_packed_def split: option.splits)
qed (use assms in \<open>auto simp: seeking_step_def\<close>)

text \<open>Once past the mutex: names of the start-up find their file, other names change nothing.\<close>

definition seeker_at :: "asset_env \<Rightarrow> fs \<Rightarrow> string \<Rightarrow> seeking \<Rightarrow> bool" where
  "seeker_at A s name q \<longleftrightarrow>
     (if name \<in> set asset_list
      then case q of
             TryPaths first ps \<Rightarrow> first \<and> set ps \<subseteq> set (seek_paths A name) \<and> (\<exists>p \<in> set ps. stat_ok s p)
           | OpenPath p \<Rightarrow> p \<in> set (seek_paths A name)
           | Found r \<Rightarrow> True
           | _ \<Rightarrow> False
      else case q of
             FallBack x \<Rightarrow> x = CheckVersion \<or> x = LoadVersion \<or> (\<exists>e. x = Extracted e)
           | LookExtracted \<Rightarrow> False
           | AwaitMutex \<Rightarrow> False
           | _ \<Rightarrow> True)"

definition agree_on :: "string list \<Rightarrow> fs \<Rightarrow> fs \<Rightarrow> bool" where
  "agree_on ps s t \<longleftrightarrow> fs_dirs s = fs_dirs t \<and> (\<forall>p \<in> set ps. fs_files s p = fs_files t p)"

lemma first_file_agree: "agree_on ps s t \<Longrightarrow> first_file A s ps = first_file A t ps"
  by (induction ps) (auto simp: agree_on_def stat_ok_def read_file_def split: option.split)

lemma first_file_present: "\<exists>p \<in> set ps. stat_ok s p \<Longrightarrow> first_file A s ps \<noteq> None"
  by (induction ps) auto

lemma stat_agree: "agree_on ps s t \<Longrightarrow> p \<in> set ps \<Longrightarrow> stat_ok s p = stat_ok t p"
  by (simp add: agree_on_def stat_ok_def)

lemma seeker_at_agree:
  assumes "agree_on (seek_paths A name) s t" "name \<in> set asset_list"
  shows "seeker_at A s name q = seeker_at A t name q"
proof (cases q)
  case (TryPaths first ps)
  have "(\<exists>p \<in> set ps. stat_ok s p) = (\<exists>p \<in> set ps. stat_ok t p)" if "set ps \<subseteq> set (seek_paths A name)"
    using that stat_agree [OF assms(1)] by (meson subsetD)
  then show ?thesis
    using assms(2) TryPaths by (auto simp: seeker_at_def)
qed (simp_all add: seeker_at_def assms(2))

lemma finish_seeking_agree:
  assumes "name \<in> set asset_list" "seeker_at A s name q" "agree_on (seek_paths A name) s t"
  shows "finish_seeking A name q s = finish_seeking A name q t"
proof (cases q)
  case (TryPaths first ps)
  then have ps: "first" "set ps \<subseteq> set (seek_paths A name)" "\<exists>p \<in> set ps. stat_ok s p"
    using assms(1,2) by (simp_all add: seeker_at_def)
  then have "agree_on ps s t"
    using assms(3) by (auto simp: agree_on_def)
  from first_file_agree [OF this] first_file_present [OF ps(3), of A] show ?thesis
    using TryPaths ps(1) by auto
qed (use assms in \<open>auto simp: seeker_at_def agree_on_def open_path_def read_file_def\<close>)

lemma seeking_step_at_asset:
  assumes "name \<in> set asset_list" "seeker_at A s name q" "seeking_step A locked name q s ex = Some (q', s', ex')"
  shows "seeker_at A s name q' \<and> s' = s \<and> ex' = ex"
  using assms by (cases q) (auto simp: seeker_at_def seeking_step_def neq_Nil_conv split: list.splits if_splits)

lemma version_of_other: "name \<notin> set asset_list \<Longrightarrow> version_of name = ''''"
  by (auto simp: asset_list_def version_of_def)

lemma seeking_step_at_other:
  assumes "name \<notin> set asset_list" "seeker_at A s name q" "seeking_step A locked name q s ex = Some (q', s', ex')"
    and "ae_assets A (ae_prefix A) = None" "fs_files s '''' = None"
  shows "seeker_at A s name q' \<and> s' = s"
proof (cases q)
  case (FallBack x)
  have load: "loadAssetVersion A name = Inl OpenVersion"
    using assms(4) version_of_other [OF assms(1)] by (simp add: loadAssetVersion_def)
  have "os_RemoveAll '''' s = s"
    using assms(5) by (simp add: os_RemoveAll_def fun_upd_idem)
  then have "\<exists>v. check_version A name False s = (s, v) \<and> (\<forall>w. v = Inr (True, w) \<longrightarrow> w = '''')"
    using load by (auto simp: check_version_def version_of_other [OF assms(1)] split: option.split)
  then show ?thesis
    using assms(1-3) FallBack load
    by (auto simp: seeker_at_def seeking_step_def split: sum.splits prod.splits bool.splits option.splits)
qed (use assms(1-3) in \<open>auto simp: seeker_at_def seeking_step_def split: list.splits if_splits option.splits\<close>)

section \<open>The invariant\<close>

definition settled :: "'c boot \<Rightarrow> string \<Rightarrow> bool" where
  "settled b name \<longleftrightarrow> \<not> bo_locked b \<or> name \<in> set asset_list - set (names_left b)"

definition seeker_fine :: "'c boot_env \<Rightarrow> fs \<Rightarrow> 'c boot \<Rightarrow> string \<Rightarrow> seeking \<Rightarrow> bool" where
  "seeker_fine E F b name q \<longleftrightarrow> q = LookExtracted \<or> q = AwaitMutex \<or>
     (settled b name \<and> seeker_at (asked_env E) F name q \<and>
      finish_seeking (asked_env E) name q F = seek_result (asked_env E) name F)"

lemma seeker_fine_mono: "seeker_fine E F b name q \<Longrightarrow> (settled b name \<Longrightarrow> settled b' name) \<Longrightarrow> seeker_fine E F b' name q"
  by (auto simp: seeker_fine_def)

definition boot_inv :: "'c boot_env \<Rightarrow> fs \<Rightarrow> 'c boot \<Rightarrow> bool" where
  "boot_inv E F b \<longleftrightarrow>
     bo_locked b = (bo_startup b \<noteq> Ended) \<and>
     (bo_startup b = AskOfficial \<or> bo_official b = be_official E) \<and>
     finish_startup E b = F \<and>
     distinct (names_left b) \<and> set (names_left b) \<subseteq> set asset_list \<and>
     (bo_locked b \<longrightarrow> set (bo_extracted b) \<subseteq> set asset_list - set (names_left b)) \<and>
     (\<forall>t name q. bo_seekers b t = Some (name, q) \<longrightarrow> seeker_fine E F b name q)"

text \<open>The files of a settled name are already what they will be.\<close>

lemma settled_agree:
  assumes "boot_inv E F b" "settled b name" "name \<in> set asset_list"
  shows "agree_on (seek_paths A name) (bo_files b) F"
proof (cases "bo_locked b")
  case False
  then have "bo_startup b = Ended" using assms(1) by (simp add: boot_inv_def)
  then have "F = bo_files b" using assms(1) by (auto simp: boot_inv_def finish_startup_def)
  then show ?thesis by (simp add: agree_on_def)
next
  case True
  then have left: "name \<notin> set (names_left b)" "set (names_left b) \<subseteq> set asset_list" "finish_startup E b = F"
    using assms(1,2) by (auto simp: settled_def boot_inv_def)
  have "fs_dirs F = fs_dirs (bo_files b) \<and> fs_files F (d @ name) = fs_files (bo_files b) (d @ name)" for d
  proof -
    have "\<forall>n \<in> set (names_left b). \<not> written_by n (d @ name)"
      using left other_name_kept [OF assms(3)] by blast
    moreover have "ending (d @ name) \<noteq> ''mep.d''" "ending (d @ name) \<noteq> ''mus65''"
      using assms(3) by (auto simp: asset_list_def name_endings)
    ultimately show ?thesis
      using finish_startup_frame [OF left(2), of "d @ name" E] left(3) by simp
  qed
  then show ?thesis by (simp add: agree_on_def seek_paths_def)
qed

lemma startup_step_names:
  assumes "startup_step E b = Some b'" "bo_locked b = (bo_startup b \<noteq> Ended)"
    and "bo_startup b = AskOfficial \<or> bo_official b = be_official E"
    and "distinct (names_left b)" "set (names_left b) \<subseteq> set asset_list" "set (bo_extracted b) \<subseteq> set asset_list - set (names_left b)"
  shows "bo_locked b' = (bo_startup b' \<noteq> Ended) \<and> bo_official b' = be_official E \<and> bo_seekers b' = bo_seekers b \<and>
     distinct (names_left b') \<and> set (names_left b') \<subseteq> set (names_left b) \<and>
     set (bo_extracted b') \<subseteq> set asset_list - set (names_left b')"
proof (cases "bo_startup b")
  case (Extracting x ns)
  show ?thesis
  proof (cases ns)
    case Nil
    then show ?thesis using assms Extracting by (auto simp: startup_step_def)
  next
    case (Cons n ms)
    show ?thesis
    proof (cases "\<exists>e. x = Extracted e")
      case True
      then obtain e where "x = Extracted e" by blast
      then have "b' = b\<lparr>bo_extracted := (if e = None then n # bo_extracted b else bo_extracted b), bo_startup := next_names ms\<rparr>"
        using assms(1) Extracting Cons by (simp add: startup_step_def)
      moreover have "set (bo_extracted b) \<subseteq> set asset_list - set ms" "n \<in> set asset_list - set ms" "set ms \<subseteq> set asset_list"
        using assms(4-6) Extracting Cons by auto
      ultimately show ?thesis
        using assms(2-5) Extracting Cons by (cases e) (simp_all add: subset_insertI)
    next
      case False
      obtain x' s' where "extraction_step (env_of E b) n False x (bo_files b) = (x', s')" by fastforce
      then have "b' = b\<lparr>bo_files := s', bo_startup := Extracting x' ns\<rparr>"
        using False assms(1) Extracting Cons by (cases x) (simp_all add: startup_step_def del: extraction_step.simps)
      then show ?thesis using assms Extracting by simp
    qed
  qed
next
  case AskOfficial
  then have "b' = b\<lparr>bo_official := be_official E, bo_startup := next_names asset_list\<rparr>"
    using assms(1) by (simp add: startup_step_def asset_list_def)
  then show ?thesis using assms AskOfficial by (auto simp: asset_list_def asset_names)
qed (use assms in \<open>auto simp: startup_step_def split: prod.splits if_splits\<close>)

lemma boot_inv_startup:
  assumes "startup_step E b = Some b'" "boot_inv E F b"
  shows "boot_inv E F b'"
proof -
  have "bo_startup b \<noteq> Ended"
    using assms(1) by (auto simp: startup_step_def)
  then have lock: "bo_locked b" using assms(2) by (simp add: boot_inv_def)
  have names: "bo_locked b' = (bo_startup b' \<noteq> Ended)" "bo_official b' = be_official E" "bo_seekers b' = bo_seekers b"
     "distinct (names_left b')" "set (names_left b') \<subseteq> set (names_left b)"
     "set (bo_extracted b') \<subseteq> set asset_list - set (names_left b')"
    using startup_step_names [OF assms(1)] assms(2) lock by (auto simp: boot_inv_def)
  have "settled b name \<Longrightarrow> settled b' name" for name
    using names(5) lock by (auto simp: settled_def)
  then have "seeker_fine E F b name q \<Longrightarrow> seeker_fine E F b' name q" for name q
    using seeker_fine_mono by blast
  moreover have "finish_startup E b' = F" "set (names_left b) \<subseteq> set asset_list"
    using startup_step_finish [OF assms(1)] assms(2) by (auto simp: boot_inv_def)
  ultimately show ?thesis
    using names assms(2) by (auto simp: boot_inv_def)
qed

text \<open>
  Hypotheses: the three files are there after the start-up, the directory of the packed assets
  is no asset, and the empty path no file.
\<close>

definition boot_ok :: "'c boot_env \<Rightarrow> fs \<Rightarrow> bool" where
  "boot_ok E F \<longleftrightarrow> (\<forall>n \<in> set asset_list. stat_ok F (dir_of (be_assets E) n @ n)) \<and>
     ae_assets (be_assets E) (ae_prefix (be_assets E)) = None \<and> fs_files F '''' = None"

lemma first_round_at:
  assumes "boot_ok E F"
  shows "seeker_at (asked_env E) F name (TryPaths True (seek_paths (env_of E b) name))"
proof -
  have "stat_ok F (ae_internal (be_assets E) @ name) \<or> stat_ok F (ae_external (be_assets E) @ name)" if "name \<in> set asset_list"
    using assms that by (cases "name = browserForwarder") (auto simp: boot_ok_def dir_of_def)
  then show ?thesis by (simp add: seeker_at_def seek_paths_def)
qed

lemma seeker_step_inv:
  assumes inv: "boot_inv E F b" and ok: "boot_ok E F"
    and q: "bo_seekers b t = Some (name, q)"
    and step: "seeking_step (env_of E b) (bo_locked b) name q (bo_files b) (bo_extracted b) = Some (q', s, ex)"
  shows "s = bo_files b \<and> (bo_locked b \<longrightarrow> ex = bo_extracted b) \<and> seeker_fine E F b name q'"
proof (cases "q = LookExtracted \<or> q = AwaitMutex")
  case True
  have "settled b name" if "name \<in> set (bo_extracted b) \<or> \<not> bo_locked b"
    using that inv by (auto simp: boot_inv_def settled_def)
  moreover have "finish_seeking (asked_env E) name (TryPaths True (seek_paths (env_of E b) name)) F = seek_result (asked_env E) name F"
    using finish_first_round [of "asked_env E" name F] by (simp add: seek_paths_def del: finish_seeking.simps)
  ultimately show ?thesis
    using True step first_round_at [OF ok, of name b]
    by (auto simp: seeking_step_def seeker_fine_def simp del: finish_seeking.simps split: if_splits)
next
  case False
  then have s: "settled b name" and at: "seeker_at (asked_env E) F name q"
    and fin: "finish_seeking (asked_env E) name q F = seek_result (asked_env E) name F"
    using inv q by (auto simp: boot_inv_def seeker_fine_def)
  have "bo_startup b \<noteq> AskOfficial"
    using s inv by (auto simp: settled_def boot_inv_def)
  then have env: "env_of E b = asked_env E" using inv by (auto simp: boot_inv_def)
  note step = step [unfolded env]
  show ?thesis
  proof (cases "name \<in> set asset_list")
    case True
    note agree = settled_agree [OF inv s True]
    have at': "seeker_at (asked_env E) (bo_files b) name q"
      using at seeker_at_agree [OF agree True] by simp
    from seeking_step_at_asset [OF True this step]
    have q': "seeker_at (asked_env E) (bo_files b) name q'" "s = bo_files b" "ex = bo_extracted b" by auto
    then have "seeker_at (asked_env E) F name q'"
      using seeker_at_agree [OF agree True] by simp
    moreover have "finish_seeking (asked_env E) name q' F = finish_seeking (asked_env E) name q F"
      using finish_seeking_agree [OF True q'(1) agree] finish_seeking_agree [OF True at' agree] seeking_step_finish [OF step] q'(2) by simp
    ultimately show ?thesis using q' s fin by (simp add: seeker_fine_def)
  next
    case other: False
    then have unlocked: "\<not> bo_locked b" using s by (simp add: settled_def)
    then have F: "bo_files b = F" using inv by (auto simp: boot_inv_def finish_startup_def)
    have "seeker_at (asked_env E) F name q' \<and> s = F"
      using seeking_step_at_other [OF other at] step ok by (simp add: F boot_ok_def)
    then show ?thesis
      using s fin F unlocked seeking_step_finish [OF step] by (simp add: seeker_fine_def)
  qed
qed

lemma finish_startup_cong:
  "bo_files c = bo_files b \<Longrightarrow> bo_startup c = bo_startup b \<Longrightarrow> finish_startup E c = finish_startup E b"
  by (simp add: finish_startup_def)

lemma boot_inv_step:
  assumes "boot_step E b b'" "boot_inv E F b" "boot_ok E F"
  shows "boot_inv E F b'"
  using assms(1)
proof cases
  case startup
  then show ?thesis using boot_inv_startup assms(2) by blast
next
  case (call t name)
  have "finish_startup E b' = finish_startup E b"
    by (rule finish_startup_cong) (simp_all add: call)
  moreover have "seeker_fine E F b n q \<Longrightarrow> seeker_fine E F b' n q" for n q
    by (rule seeker_fine_mono) (simp_all add: settled_def call(1))
  ultimately show ?thesis
    using assms(2) by (auto simp: boot_inv_def call(1) seeker_fine_def)
next
  case (seek t name q q' s ex)
  note q' = seeker_step_inv [OF assms(2,3) seek(2,3)]
  have "finish_startup E b' = finish_startup E b"
    by (rule finish_startup_cong) (simp_all add: seek(1) q')
  moreover have "seeker_fine E F b n r \<Longrightarrow> seeker_fine E F b' n r" for n r
    by (rule seeker_fine_mono) (simp_all add: settled_def seek(1))
  ultimately show ?thesis
    using assms(2) q' by (auto simp: boot_inv_def seek(1))
qed

lemma boot_inv_init: "boot_inv E (finish_names (asked_env E) asset_list s) (InitializeV2Ray False official s r)"
  by (simp add: boot_inv_def InitializeV2Ray_def finish_startup_def asset_list_def asset_names)

lemma boot_reach_inv: "boot_reach E b c \<Longrightarrow> boot_inv E F b \<Longrightarrow> boot_ok E F \<Longrightarrow> boot_inv E F c"
  by (induction rule: boot_reach.induct) (auto intro: boot_inv_step)


text \<open>All three files are packed, with the certificates.\<close>

definition boot_test_env :: "string boot_env" where
  "boot_test_env = \<lparr>be_assets =
     \<lparr>ae_assets = (\<lambda>p. if p = ''mozilla_included.pem'' \<or> p = ''mozilla_included.pem.sha256sum'' \<or> p = ''geoip.dat.xz'' \<or> p = ''geosite.dat.xz'' \<or>
            p = ''index.js.xz'' \<or> p = ''geoip.version.txt'' \<or> p = ''geosite.version.txt'' \<or> p = ''core.version.txt''
          then Some \<lparr>as_content = ''7'', as_ok = True\<rparr> else None),
      ae_create = (\<lambda>_. True), ae_read = (\<lambda>_. True), ae_unxz = (\<lambda>c. Some (''rules'', True)),
      ae_prefix = '''', ae_internal = ''i/'', ae_external = ''e/'', ae_official = True\<rparr>,
     be_parse_pem = Some, be_official = True, be_system_certs = False\<rparr>"

definition boot_test_state :: "string boot" where
  "boot_test_state = InitializeV2Ray False False no_files \<lparr>ro_disableSystem = False, ro_roots = None\<rparr>"

text \<open>The seeker opens one file while the next one is there, but still packed.\<close>

definition boot_test_run :: "boot_event list" where
  "boot_test_run = replicate 8 GoOn @ [Call 0 geoipDat, Continue 0] @ replicate 3 GoOn @ [Continue 0, Continue 0, Continue 0]"

lemma boot_test_ok: "boot_ok boot_test_env (fst (initialize (be_assets boot_test_env\<lparr>ae_official := be_official boot_test_env\<rparr>)
      (be_parse_pem boot_test_env) (be_system_certs boot_test_env) no_files \<lparr>ro_disableSystem = False, ro_roots = None\<rparr>))"
  by code_simp

lemma boot_test_found: "map_option (\<lambda>b. (bo_seekers b 0, fs_files (bo_files b) ''e/geosite.dat'')) (boot_run boot_test_env boot_test_run boot_test_state) =
   Some (Some (geoipDat, Found (Inr (OpenedFile ''e/geoip.dat'' ''rules''))), Some ''7'')"
  by code_simp


section \<open>Without the start-up\<close>

text \<open>
  With \<open>skipExtract\<close> a missing file is extracted by the seekers themselves, which then hold no
  mutex: while one is between copying and unpacking, another one opens the packed bytes
  under the name of the data file.
\<close>

theorem unguarded_extraction_races:
  assumes "name \<in> set asset_list" and "loadAssetVersion A name = Inr v" and "ae_assets A (ae_prefix A @ name) = None"
    and "ae_assets A (ae_prefix A @ name @ ''.xz'') = Some \<lparr>as_content = packed, as_ok = True\<rparr>"
    and "ae_create A (dir_of A name @ name)" and "ae_read A (dir_of A name @ name)"
    and "\<not> stat_ok s (dir_of A name @ version_of name)" and "\<not> stat_ok s (ae_internal A @ name)" and "\<not> stat_ok s (ae_external A @ name)"
    and "ae_internal A \<noteq> ae_external A"
    and "A = be_assets E\<lparr>ae_official := official\<rparr>"
  shows "\<exists>b. boot_reach E (InitializeV2Ray True official s r) b \<and>
     bo_seekers b 1 = Some (name, Found (Inr (OpenedFile (dir_of A name @ name) packed)))"
proof -
  let ?es = "[Call 0 name] @ replicate 9 (Continue 0) @ [Call 1 name] @ replicate (if name = browserForwarder then 4 else 5) (Continue 1)"
  let ?p = "dir_of A name @ name"
  have paths: "ae_internal A @ name \<noteq> ae_external A @ name"
    using assms(10) by simp
  have stat: "stat_ok (put_file q c s) p = (p = q \<or> stat_ok s p)" for p q c
    by (auto simp: stat_ok_def)
  have check: "check_version A name False s = (s, Inr (True, ''''))"
    using assms(7-9) by (cases "name = browserForwarder") (simp_all add: check_version_def dir_of_def)
  have copy: "extractAsset A (ae_prefix A @ name @ ''.xz'') ?p s = (put_file ?p packed s, None)"
    using assms(4,5) by (simp add: extractAsset_def)
  have opened: "open_path A ?p (put_file ?p packed s) = Inr (OpenedFile ?p packed)"
    using assms(6) by (simp add: open_path_def read_file_def)
  have "\<exists>b. boot_run E ?es (InitializeV2Ray True official s r) = Some b \<and> bo_seekers b 1 = Some (name, Found (Inr (OpenedFile ?p packed)))"
    using paths opened assms(2,3,8,9) check copy
    by (cases "name = browserForwarder")
      (simp_all add: InitializeV2Ray_def seeking_step_def seek_paths_def numeral_eq_Suc stat assms(11) [symmetric] dir_of_def)
  then show ?thesis using boot_run_reach by blast
qed

theorem unguarded_extraction_races_witness:
  "\<exists>b. boot_reach boot_test_env (InitializeV2Ray True True no_files \<lparr>ro_disableSystem = False, ro_roots = None\<rparr>) b \<and>
     bo_seekers b 1 = Some (geoipDat, Found (Inr (OpenedFile ''e/geoip.dat'' ''7'')))"
proof -
  have "dir_of (be_assets boot_test_env) geoipDat @ geoipDat = ''e/geoip.dat''"
    by (simp add: dir_of_def boot_test_env_def asset_names)
  with unguarded_extraction_races [where name = geoipDat and E = boot_test_env and official = True and A = "be_assets boot_test_env"
      and v = "''7''" and packed = "''7''" and s = no_files and r = "\<lparr>ro_disableSystem = False, ro_roots = None\<rparr>"]
  show ?thesis
    by (simp add: boot_test_env_def asset_list_def loadAssetVersion_def stat_ok_def no_files_def dir_of_def version_of_def asset_names)
qed


section \<open>The map of extracted names\<close>

text \<open>
  What the next step of the start-up or of a seeker does to the map \<open>extracted\<close>.  A Go map
  allows concurrent reads; a write beside any other access ends the process.
\<close>

datatype map_access = Reads | Writes

fun startup_access :: "startup \<Rightarrow> map_access option" where
  "startup_access (Extracting (Extracted None) (n # ns)) = Some Writes"
| "startup_access u = None"

definition seeker_access :: "asset_env \<Rightarrow> string \<times> seeking \<Rightarrow> map_access option" where
  "seeker_access A k = (case snd k of
     LookExtracted \<Rightarrow> Some Reads
   | TryPacked \<Rightarrow> if ae_assets A (ae_prefix A @ fst k) = None then None else Some Writes
   | _ \<Rightarrow> None)"

definition access_of :: "'c boot_env \<Rightarrow> 'c boot \<Rightarrow> nat option \<Rightarrow> map_access option" where
  "access_of E b t = (case t of
     None \<Rightarrow> startup_access (bo_startup b)
   | Some t \<Rightarrow> Option.bind (bo_seekers b t) (seeker_access (env_of E b)))"

definition map_race :: "'c boot_env \<Rightarrow> 'c boot \<Rightarrow> nat option \<Rightarrow> nat option \<Rightarrow> bool" where
  "map_race E b t u \<longleftrightarrow> t \<noteq> u \<and> access_of E b t = Some Writes \<and> access_of E b u \<noteq> None"

text \<open>The accesses are the ones the steps make: a step that is none leaves the map as it is.\<close>

lemma seeker_access_sound:
  "seeking_step A locked name q s ex = Some (q', s', ex') \<Longrightarrow> seeker_access A (name, q) \<noteq> Some Writes \<Longrightarrow> ex' = ex"
  by (cases q) (auto simp: seeking_step_def seeker_access_def split: list.splits option.splits extraction.splits prod.splits if_splits)

lemma startup_access_sound:
  "startup_step E b = Some b' \<Longrightarrow> startup_access (bo_startup b) = None \<Longrightarrow> bo_extracted b' = bo_extracted b"
  by (cases "bo_startup b" rule: startup_access.cases)
     (auto simp: startup_step_def simp del: extraction_step.simps split: list.splits extraction.splits prod.splits if_splits option.splits)

text \<open>
  A seeker that is called while the start-up publishes a name reads the map while it is
  written, and two seekers of a packed asset write it at once.
\<close>

lemma first_race: "map_option (\<lambda>b. map_race boot_test_env b None (Some 0)) (boot_run boot_test_env (replicate 7 GoOn @ [Call 0 geositeDat]) boot_test_state) = Some True"
  by code_simp

theorem extracted_map_is_raced:
  "\<exists>b. boot_reach boot_test_env boot_test_state b \<and> map_race boot_test_env b None (Some 0)"
  using first_race boot_run_reach by fastforce

end
