(* ===== verification/Checksum.thy ===== *)
theory Checksum
  imports Prelude
begin

text \<open>
  The arithmetic of the Internet checksum (RFC 1071): 16-bit ones'-complement
  addition.  The packet code calls gVisor's \<open>header.Checksum\<close>,
  \<open>header.ChecksumCombine\<close> and \<open>CalculateChecksum\<close>; what they promise is stated with
  \<open>ocadd\<close> in the interfaces of the theory \<open>Wire\<close>.  Here are the facts about \<open>ocadd\<close>
  that make a checksum written as the complement of a sum verify, and that make the
  incremental update of RFC 1624 agree with a full recomputation.
\<close>

section \<open>Ones'-complement addition\<close>

definition ocadd :: "u16 \<Rightarrow> u16 \<Rightarrow> u16" where
  "ocadd a b = (let s = unat a + unat b in word_of_nat (if 65536 \<le> s then s - 65535 else s))"

lemma unat_u16_bound [simp]: "unat (a :: u16) < 65536"
  using unsigned_less [of a] by simp

lemma unat_ocadd: "unat (ocadd a b) =
    (if 65536 \<le> unat a + unat b then unat a + unat b - 65535 else unat a + unat b)"
proof -
  have "unat a + unat b - 65535 < 65536"
    using unat_u16_bound [of a] unat_u16_bound [of b] by linarith
  then have "(unat a + unat b - 65535) mod 65536 = unat a + unat b - 65535"
    by (rule mod_less)
  then show ?thesis
    by (simp add: ocadd_def Let_def unat_of_nat)
qed

lemma unat_NOT_u16: "unat (NOT (a :: u16)) = 65535 - unat a"
proof -
  have "NOT a = - 1 - a" by (simp add: not_eq_complement)
  moreover have "unat (- 1 - a) = unat (- 1 :: u16) - unat a"
    by (rule unat_sub) simp
  moreover have "unat (- 1 :: u16) = 65535"
    by (simp add: unsigned_minus_1_eq_mask mask_eq_exp_minus_1)
  ultimately show ?thesis by simp
qed

text \<open>A word is its residue modulo 65535 and whether it is zero.\<close>

lemma oc_eqI:
  assumes "unat a mod 65535 = unat b mod 65535" and "a = 0 \<longleftrightarrow> b = 0"
  shows "a = (b :: u16)"
proof -
  have z: "unat a = 0 \<longleftrightarrow> unat b = 0"
    using assms(2) by (simp add: unat_eq_0)
  have bound: "unat a \<le> 65535" "unat b \<le> 65535"
    using unat_u16_bound [of a] unat_u16_bound [of b] by linarith+
  have "n mod 65535 = (if n = 65535 then 0 else n)" if "n \<le> 65535" for n :: nat
    using that by auto
  then have "unat a = unat b"
    using assms(1) z bound by (auto split: if_splits)
  then show ?thesis by (simp add: word_unat_eq_iff)
qed

lemma ocadd_mod: "unat (ocadd a b) mod 65535 = (unat a + unat b) mod 65535"
proof (cases "65536 \<le> unat a + unat b")
  case True
  then have "(unat a + unat b) mod 65535 = (unat a + unat b - 65535) mod 65535"
    by (intro le_mod_geq) simp
  with True show ?thesis by (simp add: unat_ocadd)
qed (simp add: unat_ocadd)

lemma ocadd_zero: "ocadd a b = 0 \<longleftrightarrow> a = 0 \<and> b = 0"
proof -
  have "ocadd a b = 0 \<longleftrightarrow> unat (ocadd a b) = 0" by (simp add: unat_eq_0)
  also have "\<dots> \<longleftrightarrow> unat a = 0 \<and> unat b = 0" by (auto simp: unat_ocadd)
  finally show ?thesis by (simp add: unat_eq_0)
qed

lemma ocadd_commute: "ocadd a b = ocadd b a"
  by (simp add: ocadd_def add.commute)

lemma ocadd_assoc: "ocadd (ocadd a b) c = ocadd a (ocadd b c)"
proof (rule oc_eqI)
  have "unat (ocadd (ocadd a b) c) mod 65535 = (unat a + unat b + unat c) mod 65535"
    unfolding ocadd_mod by (rule mod_add_cong [OF ocadd_mod refl])
  also have "\<dots> = unat (ocadd a (ocadd b c)) mod 65535"
    unfolding ocadd_mod [of a] add.assoc by (rule mod_add_cong [OF refl ocadd_mod [symmetric]])
  finally show "unat (ocadd (ocadd a b) c) mod 65535 = unat (ocadd a (ocadd b c)) mod 65535" .
qed (auto simp: ocadd_zero)

lemma ocadd_left_commute: "ocadd a (ocadd b c) = ocadd b (ocadd a c)"
  by (metis ocadd_assoc ocadd_commute)

lemmas ocadd_ac = ocadd_assoc ocadd_commute ocadd_left_commute

lemma ocadd_0 [simp]: "ocadd 0 a = a" "ocadd a 0 = a"
  by (simp_all add: word_unat_eq_iff unat_ocadd)
     (use unat_u16_bound [of a] in linarith)+

text \<open>A sum plus its complement is all ones: the checksum verifies.\<close>

lemma ocadd_NOT: "ocadd a (NOT a) = 0xFFFF"
proof -
  have "unat a + (65535 - unat a) = 65535"
    using unat_u16_bound [of a] by linarith
  then show ?thesis
    by (simp add: word_unat_eq_iff unat_ocadd unat_NOT_u16)
qed

lemma ocadd_ones: "a \<noteq> 0 \<Longrightarrow> ocadd 0xFFFF a = a"
proof -
  assume "a \<noteq> 0"
  then have "unat a \<noteq> 0" by (simp add: unat_eq_0)
  then show ?thesis by (simp add: word_unat_eq_iff unat_ocadd)
qed

section \<open>The incremental update of RFC 1624\<close>

text \<open>
  \<open>HC' = ~(~HC + m' + ~m)\<close>: if the header verified with the field \<open>m\<close> and the
  checksum \<open>hc\<close>, it verifies with \<open>m'\<close> and the updated checksum, provided some other
  word of the header is not zero.
\<close>

lemma uint_ocadd: "\<exists>k. uint (ocadd a b) = uint a + uint b - 65535 * k"
proof (cases "65536 \<le> unat a + unat b")
  case True
  then have "unat (ocadd a b) + 65535 = unat a + unat b" by (simp add: unat_ocadd)
  from arg_cong [OF this, of int] have "uint (ocadd a b) = uint a + uint b - 65535 * 1" by simp
  then show ?thesis by blast
next
  case False
  then have "unat (ocadd a b) = unat a + unat b" by (simp add: unat_ocadd)
  from arg_cong [OF this, of int] have "uint (ocadd a b) = uint a + uint b - 65535 * 0" by simp
  then show ?thesis by blast
qed

lemma uint_NOT_u16: "uint (NOT (a :: u16)) = 65535 - uint a"
proof -
  have "unat (NOT a) + unat a = 65535"
    using unat_u16_bound [of a] unat_NOT_u16 [of a] by linarith
  from arg_cong [OF this, of int] show ?thesis by simp
qed

lemma all_ones_iff:
  assumes "a \<noteq> (0 :: u16)"
  shows "(\<exists>k. uint a = 65535 * k) \<longleftrightarrow> a = 0xFFFF"
proof
  assume "\<exists>k. uint a = 65535 * k"
  then obtain k where k: "uint a = 65535 * k" by blast
  have "0 < uint a" "uint a < 65536"
    using assms uint_bounded [of a] uint_ge_0 [of a] by (simp_all add: order_less_le uint_0_iff)
  then have "0 < k" "k < 2" using k by linarith+
  then have "uint a = 65535" using k by simp
  then show "a = 0xFFFF" by (simp add: word_uint_eq_iff)
next
  assume "a = 0xFFFF"
  then have "uint a = 65535 * 1" by simp
  then show "\<exists>k. uint a = 65535 * k" by blast
qed

lemma incremental_update:
  assumes valid: "ocadd rest (ocadd m hc) = 0xFFFF" and "rest \<noteq> 0"
  shows "ocadd rest (ocadd m' (NOT (ocadd (NOT hc) (ocadd m' (NOT m))))) = 0xFFFF"
proof -
  define x where "x = ocadd (NOT hc) (ocadd m' (NOT m))"
  obtain a b where old: "uint (ocadd rest (ocadd m hc)) = uint rest + (uint m + uint hc - 65535 * a) - 65535 * b"
    using uint_ocadd [of rest "ocadd m hc"] uint_ocadd [of m hc] by auto
  obtain c d where x: "uint x = (65535 - uint hc) + (uint m' + (65535 - uint m) - 65535 * c) - 65535 * d"
    using uint_ocadd [of "NOT hc" "ocadd m' (NOT m)"] uint_ocadd [of m' "NOT m"]
    by (auto simp: x_def uint_NOT_u16)
  obtain e f where new: "uint (ocadd rest (ocadd m' (NOT x)))
      = uint rest + (uint m' + (65535 - uint x) - 65535 * e) - 65535 * f"
    using uint_ocadd [of rest "ocadd m' (NOT x)"] uint_ocadd [of m' "NOT x"] by (auto simp: uint_NOT_u16)
  have v: "uint (ocadd rest (ocadd m hc)) = 65535"
    by (simp add: valid)
  have "uint (ocadd rest (ocadd m' (NOT x))) = 65535 * (a + b + c + d - e - f)"
    using old x new v by algebra
  moreover have "ocadd rest (ocadd m' (NOT x)) \<noteq> 0"
    using \<open>rest \<noteq> 0\<close> by (simp add: ocadd_zero)
  ultimately have "ocadd rest (ocadd m' (NOT x)) = 0xFFFF"
    using all_ones_iff by blast
  then show ?thesis by (simp only: x_def)
qed

end
