(* ===== verification/Wire.thy ===== *)
theory Wire
  imports Checksum
begin

text \<open>
  The packet code reads and rewrites headers through gVisor's \<open>header\<close> package, which
  is not part of the repository.  Here its accessors are parameters: one record of
  operations per header type, each \<open>panic\<close> where the Go method indexes out of range,
  and one locale per record that states what the package documents: an accessor
  works on a header that is long enough, a setter changes its own field and nothing
  else, and the checksum methods sum 16-bit words in ones' complement.

  A transport header is a slice \<^emph>\<open>of the same array\<close> as the packet (\<open>ipHdr.Payload()\<close>),
  so it is a window (offset, length) into the packet; \<open>on_window\<close> runs a setter on
  it and writes the bytes through.

  The theory \<open>WireRfc\<close> gives the wire layouts of RFC 791, RFC 8200 and RFC 793 as
  instances of the interfaces and interprets the locales on them.
\<close>

section \<open>Windows\<close>

type_synonym window = "nat \<times> nat"

definition view :: "window \<Rightarrow> bytes \<Rightarrow> bytes" where
  "view w p = take (snd w) (drop (fst w) p)"

definition splice :: "window \<Rightarrow> bytes \<Rightarrow> bytes \<Rightarrow> bytes" where
  "splice w v p = take (fst w) p @ v @ drop (fst w + snd w) p"

definition on_window :: "window \<Rightarrow> (bytes \<Rightarrow> bytes go) \<Rightarrow> bytes \<Rightarrow> bytes go" where
  "on_window w f p = do { v \<leftarrow> f (view w p); Some (splice w v p) }"

definition window_in :: "window \<Rightarrow> bytes \<Rightarrow> bool" where
  "window_in w p \<longleftrightarrow> fst w + snd w \<le> length p"

lemma length_view: "window_in w p \<Longrightarrow> length (view w p) = snd w"
  by (simp add: window_in_def view_def)

lemma view_splice: "window_in w p \<Longrightarrow> length v = snd w \<Longrightarrow> view w (splice w v p) = v"
  by (simp add: window_in_def view_def splice_def)

lemma length_splice: "window_in w p \<Longrightarrow> length v = snd w \<Longrightarrow> length (splice w v p) = length p"
  by (simp add: window_in_def splice_def)

section \<open>Interfaces\<close>

text \<open>\<open>header.Network\<close>: what IPv4 and IPv6 headers share.\<close>

record ip_ops =
  ip_source :: "bytes \<Rightarrow> bytes go"
  ip_destination :: "bytes \<Rightarrow> bytes go"
  ip_set_source :: "bytes \<Rightarrow> bytes \<Rightarrow> bytes go"
  ip_set_destination :: "bytes \<Rightarrow> bytes \<Rightarrow> bytes go"
  ip_payload :: "bytes \<Rightarrow> window go"

text \<open>\<open>header.IPv4\<close>.\<close>

record ip4_ops = ip_ops +
  ip4_protocol :: "bytes \<Rightarrow> byte go"
  ip4_header_length :: "bytes \<Rightarrow> nat go"
  ip4_total_length :: "bytes \<Rightarrow> u16 go"
  ip4_set_total_length :: "u16 \<Rightarrow> bytes \<Rightarrow> bytes go"
  ip4_checksum :: "bytes \<Rightarrow> u16 go"
  ip4_set_checksum :: "u16 \<Rightarrow> bytes \<Rightarrow> bytes go"
  ip4_calculate_checksum :: "bytes \<Rightarrow> u16 go"

text \<open>The ports and the checksum of \<open>header.TCP\<close>.\<close>

record tcp_ops =
  tcp_source_port :: "bytes \<Rightarrow> u16 go"
  tcp_destination_port :: "bytes \<Rightarrow> u16 go"
  tcp_set_source_port :: "u16 \<Rightarrow> bytes \<Rightarrow> bytes go"
  tcp_set_destination_port :: "u16 \<Rightarrow> bytes \<Rightarrow> bytes go"
  tcp_payload :: "bytes \<Rightarrow> bytes go"
  tcp_set_checksum :: "u16 \<Rightarrow> bytes \<Rightarrow> bytes go"
  tcp_calculate_checksum :: "bytes \<Rightarrow> u16 \<Rightarrow> u16 go"

text \<open>\<open>header.Checksum\<close>, \<open>header.ChecksumCombine\<close>, \<open>header.PseudoHeaderChecksum\<close>.\<close>

record csum_ops =
  cs_checksum :: "bytes \<Rightarrow> u16 \<Rightarrow> u16"
  cs_combine :: "u16 \<Rightarrow> u16 \<Rightarrow> u16"
  cs_pseudo :: "byte \<Rightarrow> bytes \<Rightarrow> bytes \<Rightarrow> u16 \<Rightarrow> u16"

text \<open>
  \<open>valid\<close> is the package's own validity test (\<open>IsValid\<close>), which this program never
  calls; \<open>alen\<close> is the address length.  \<open>ip_frame p q\<close> says that two packets agree on
  everything but what a setter names.
\<close>

locale ip_header =
  fixes H :: "'m ip_ops_scheme" and valid :: "bytes \<Rightarrow> bool" and alen :: nat
  assumes source_total: "valid p \<Longrightarrow> \<exists>a. ip_source H p = Some a \<and> length a = alen"
    and destination_total: "valid p \<Longrightarrow> \<exists>a. ip_destination H p = Some a \<and> length a = alen"
    and payload_total: "valid p \<Longrightarrow> \<exists>w. ip_payload H p = Some w \<and> window_in w p"
    and set_source: "valid p \<Longrightarrow> length a = alen \<Longrightarrow>
      \<exists>q. ip_set_source H a p = Some q \<and> valid q \<and> length q = length p \<and> ip_source H q = Some a \<and>
        ip_destination H q = ip_destination H p \<and> ip_payload H q = ip_payload H p \<and>
        (\<forall>w. ip_payload H p = Some w \<longrightarrow> view w q = view w p)"
    and set_destination: "valid p \<Longrightarrow> length a = alen \<Longrightarrow>
      \<exists>q. ip_set_destination H a p = Some q \<and> valid q \<and> length q = length p \<and> ip_destination H q = Some a \<and>
        ip_source H q = ip_source H p \<and> ip_payload H q = ip_payload H p \<and>
        (\<forall>w. ip_payload H p = Some w \<longrightarrow> view w q = view w p)"
    and splice_payload: "valid p \<Longrightarrow> ip_payload H p = Some w \<Longrightarrow> length v = snd w \<Longrightarrow>
      valid (splice w v p) \<and> ip_source H (splice w v p) = ip_source H p \<and>
      ip_destination H (splice w v p) = ip_destination H p \<and> ip_payload H (splice w v p) = ip_payload H p"

text \<open>
  The IPv4 checksum field is one of the 16-bit words the header sum runs over, and
  so is the total length; the sum is never zero, because the version nibble is not.
\<close>

locale ip4_header = ip_header H valid alen
  for H :: "'m ip4_ops_scheme" and valid alen +
  assumes set_checksum: "valid p \<Longrightarrow>
      \<exists>q. ip4_set_checksum H c p = Some q \<and> valid q \<and> length q = length p \<and> ip4_checksum H q = Some c \<and>
        ip_source H q = ip_source H p \<and> ip_destination H q = ip_destination H p \<and>
        ip_payload H q = ip_payload H p \<and> ip4_total_length H q = ip4_total_length H p \<and>
        (\<forall>w. ip_payload H p = Some w \<longrightarrow> view w q = view w p)"
    and calculate: "valid p \<Longrightarrow> \<exists>s. ip4_calculate_checksum H p = Some s"
    and calculate_set: "valid p \<Longrightarrow> ip4_set_checksum H 0 p = Some p0 \<Longrightarrow> ip4_set_checksum H c p = Some p1 \<Longrightarrow>
      ip4_calculate_checksum H p0 = Some s \<Longrightarrow> ip4_calculate_checksum H p1 = Some (ocadd s c)"
    and set_set: "valid p \<Longrightarrow> ip4_set_checksum H c p = Some q \<Longrightarrow> ip4_set_checksum H d q = ip4_set_checksum H d p"
    and calculate_splice: "valid p \<Longrightarrow> ip_payload H p = Some w \<Longrightarrow> length v = snd w \<Longrightarrow>
      ip4_calculate_checksum H (splice w v p) = ip4_calculate_checksum H p"

locale tcp_header =
  fixes T :: "'m tcp_ops_scheme" and tvalid :: "bytes \<Rightarrow> bool"
  assumes ports_total: "tvalid v \<Longrightarrow> \<exists>sp dp. tcp_source_port T v = Some sp \<and> tcp_destination_port T v = Some dp"
    and tcp_payload_total: "tvalid v \<Longrightarrow> \<exists>b. tcp_payload T v = Some b"
    and set_source_port: "tvalid v \<Longrightarrow>
      \<exists>u. tcp_set_source_port T x v = Some u \<and> tvalid u \<and> length u = length v \<and>
        tcp_source_port T u = Some x \<and> tcp_destination_port T u = tcp_destination_port T v \<and>
        tcp_payload T u = tcp_payload T v"
    and set_destination_port: "tvalid v \<Longrightarrow>
      \<exists>u. tcp_set_destination_port T x v = Some u \<and> tvalid u \<and> length u = length v \<and>
        tcp_destination_port T u = Some x \<and> tcp_source_port T u = tcp_source_port T v \<and>
        tcp_payload T u = tcp_payload T v"
    and set_tcp_checksum: "tvalid v \<Longrightarrow>
      \<exists>u. tcp_set_checksum T c v = Some u \<and> tvalid u \<and> length u = length v \<and>
        tcp_source_port T u = tcp_source_port T v \<and> tcp_destination_port T u = tcp_destination_port T v \<and>
        tcp_payload T u = tcp_payload T v"
    and tcp_calculate: "tvalid v \<Longrightarrow> \<exists>s. tcp_calculate_checksum T v i = Some s"
    and tcp_calculate_set: "tvalid v \<Longrightarrow> tcp_set_checksum T 0 v = Some v0 \<Longrightarrow> tcp_set_checksum T c v = Some v1 \<Longrightarrow>
      tcp_calculate_checksum T v0 i = Some s \<Longrightarrow> tcp_calculate_checksum T v1 i = Some (ocadd s c)"
    and tcp_set_set: "tvalid v \<Longrightarrow> tcp_set_checksum T c v = Some u \<Longrightarrow> tcp_set_checksum T d u = tcp_set_checksum T d v"

section \<open>Packets with a transport header\<close>

text \<open>A \<open>segment\<close> is a valid packet with a valid transport header in its payload window.\<close>

definition segment :: "'m ip_ops_scheme \<Rightarrow> (bytes \<Rightarrow> bool) \<Rightarrow> (bytes \<Rightarrow> bool) \<Rightarrow> window \<Rightarrow> bytes \<Rightarrow> bool" where
  "segment H valid tvalid w p \<longleftrightarrow> valid p \<and> ip_payload H p = Some w \<and> tvalid (view w p)"

locale ip_window = ip_header H valid alen
  for H :: "'m ip_ops_scheme" and valid alen +
  fixes tvalid :: "bytes \<Rightarrow> bool"
begin

abbreviation seg :: "window \<Rightarrow> bytes \<Rightarrow> bool" where
  "seg \<equiv> segment H valid tvalid"

lemma segment_window: "seg w p \<Longrightarrow> window_in w p"
  using payload_total by (fastforce simp: segment_def)

text \<open>A setter of the TCP header through the window leaves the IP header alone.\<close>

lemma on_window_ok:
  assumes "seg w p" "f (view w p) = Some v" "tvalid v" "length v = length (view w p)"
  shows "\<exists>q. on_window w f p = Some q \<and> q = splice w v p \<and> seg w q \<and> length q = length p \<and> view w q = v \<and>
     ip_source H q = ip_source H p \<and> ip_destination H q = ip_destination H p"
proof -
  have v: "length v = snd w"
    using assms(4) length_view [OF segment_window [OF assms(1)]] by simp
  with assms segment_window [OF assms(1)] splice_payload [of p w v] show ?thesis
    by (simp add: on_window_def segment_def view_splice length_splice)
qed

lemma set_source_ok:
  assumes "seg w p" "length a = alen"
  shows "\<exists>q. ip_set_source H a p = Some q \<and> seg w q \<and> length q = length p \<and> view w q = view w p \<and>
     ip_source H q = Some a \<and> ip_destination H q = ip_destination H p"
  using assms set_source [of p a] by (fastforce simp: segment_def)

lemma set_destination_ok:
  assumes "seg w p" "length a = alen"
  shows "\<exists>q. ip_set_destination H a p = Some q \<and> seg w q \<and> length q = length p \<and> view w q = view w p \<and>
     ip_destination H q = Some a \<and> ip_source H q = ip_source H p"
  using assms set_destination [of p a] by (fastforce simp: segment_def)

end

text \<open>Both handlers recompute the IPv4 header checksum the same way.\<close>

definition ip4_write_checksum :: "ip4_ops \<Rightarrow> bytes \<Rightarrow> bytes go" where
  "ip4_write_checksum H p = do {
     p \<leftarrow> ip4_set_checksum H 0 p;
     c \<leftarrow> ip4_calculate_checksum H p;
     ip4_set_checksum H (NOT c) p
   }"

locale ip4_window = ip_window H valid alen tvalid + ip4_header H valid alen
  for H :: ip4_ops and valid alen tvalid
begin

text \<open>The header checksum verifies after \<open>ip4_write_checksum\<close>, and the TCP step keeps it.\<close>

lemma write_checksum_ok:
  assumes p: "seg w p"
  shows "\<exists>q. ip4_write_checksum H p = Some q \<and> seg w q \<and> view w q = view w p \<and>
     ip_source H q = ip_source H p \<and> ip_destination H q = ip_destination H p \<and>
     ip4_calculate_checksum H q = Some 0xFFFF \<and> ip4_total_length H q = ip4_total_length H p"
proof -
  have v: "valid p" and w: "ip_payload H p = Some w"
    using p by (auto simp: segment_def)
  obtain p0 where p0: "ip4_set_checksum H 0 p = Some p0" "valid p0"
    using set_checksum [OF v, of 0] by blast
  obtain c where c: "ip4_calculate_checksum H p0 = Some c"
    using calculate [OF p0(2)] by blast
  obtain q where q: "ip4_set_checksum H (NOT c) p = Some q" "valid q" "ip_source H q = ip_source H p"
      "ip_destination H q = ip_destination H p" "ip_payload H q = ip_payload H p" "view w q = view w p"
      "ip4_total_length H q = ip4_total_length H p"
    using set_checksum [OF v, of "NOT c"] w by blast
  have "ip4_set_checksum H (NOT c) p0 = Some q"
    using set_set [OF v p0(1)] q(1) by simp
  moreover have "ip4_calculate_checksum H q = Some 0xFFFF"
    using calculate_set [OF v p0(1) q(1) c] by (simp add: ocadd_NOT)
  ultimately show ?thesis
    using p0 c q p by (auto simp: ip4_write_checksum_def segment_def)
qed

end

end
