(* ===== verification/NatTcp.thy ===== *)
theory NatTcp
  imports Wire Net
begin

text \<open>
  \<open>nat/peer.go\<close> and \<open>nat/tcp.go\<close>: the TCP forwarder of the system tun.  A packet of an
  application is sent back into the device, re-addressed to the forwarder's own
  listener; the listener's answers are re-addressed to the application.  A session
  table remembers, per (destination address, source port), where the flow came from
  and which port it asked for.
\<close>

section \<open>State\<close>

record peerKey =
  destinationAddress :: bytes
  sourcePort :: u16

record peerValue =
  sourceAddress :: bytes
  destinationPort :: u16

text \<open>
  The session table is an \<open>LruCache\<close> of the clash library: a parameter.  Reading
  refreshes the entry, so \<open>Get\<close> returns the table as well.
\<close>

record 's lru_ops =
  lru_get :: "peerKey \<Rightarrow> 's \<Rightarrow> peerValue option \<times> 's"
  lru_set :: "peerKey \<Rightarrow> peerValue \<Rightarrow> 's \<Rightarrow> 's"
  lru_delete :: "peerKey \<Rightarrow> 's \<Rightarrow> 's"

text \<open>\<open>look s k\<close> is what the table answers for \<open>k\<close> at the present moment.\<close>

locale session_table =
  fixes L :: "'s lru_ops" and look :: "'s \<Rightarrow> peerKey \<Rightarrow> peerValue option"
  assumes get_look: "fst (lru_get L k s) = look s k" "look (snd (lru_get L k s)) = look s"
    and set_look: "look (lru_set L k v s) = (look s)(k \<mapsto> v)"
    and delete_look: "look (lru_delete L k s) = (look s)(k := None)"

record 's tcpForwarder =
  tf_port :: u16
  tf_sessions :: 's

definition vlanClient4 :: bytes where
  "vlanClient4 = [172, 19, 0, 1]"

definition vlanClient6 :: bytes where
  "vlanClient6 = [0xfd, 0xfe, 0xdc, 0xba, 0x98, 0x76, 0, 0, 0, 0, 0, 0, 0, 0, 0, 0x1]"

definition TCPProtocolNumber :: byte where
  "TCPProtocolNumber = 6"

text \<open>
  \<open>newTcpForwarder\<close>: with IPv6 disabled it listens on the IPv4 address of the device,
  otherwise on the unspecified IPv6 address.  \<open>listen\<close> is \<open>net.ListenTCP\<close>, which
  answers the port it bound, \<open>sessions0\<close> the new table.
\<close>

definition newTcpForwarder :: "(string \<Rightarrow> bytes \<Rightarrow> 'e + int) \<Rightarrow> 's \<Rightarrow> int \<Rightarrow> 'e + 's tcpForwarder" where
  "newTcpForwarder listen sessions0 ipv6Mode =
     (let (network, ip) = (if ipv6Mode = IPv6Disable then (''tcp4'', vlanClient4)
                           else (''tcp'', replicate 16 0))
      in case listen network ip of
           Inl e \<Rightarrow> Inl e
         | Inr port \<Rightarrow> Inr \<lparr>tf_port = uint16_of port, tf_sessions = sessions0\<rparr>)"

section \<open>Rewriting a packet\<close>

text \<open>
  The tail of both handlers: the TCP checksum is cleared, computed over the
  pseudo header, the payload and the header, and stored complemented.
\<close>

definition tcp_checksum :: "'m ip_ops_scheme \<Rightarrow> tcp_ops \<Rightarrow> csum_ops \<Rightarrow> window \<Rightarrow> bytes \<Rightarrow> bytes go" where
  "tcp_checksum H T C w p = do {
     p \<leftarrow> on_window w (tcp_set_checksum T 0) p;
     src \<leftarrow> ip_source H p;
     dst \<leftarrow> ip_destination H p;
     payload \<leftarrow> tcp_payload T (view w p);
     c \<leftarrow> tcp_calculate_checksum T (view w p)
            (cs_combine C (cs_pseudo C TCPProtocolNumber src dst (word_of_nat (snd w)))
               (cs_checksum C payload 0));
     on_window w (tcp_set_checksum T (NOT c)) p
   }"

text \<open>
  \<open>processIPv4\<close>: the packet handed to \<open>writeBuffer\<close> (\<open>None\<close> when the handler returns
  early) and the forwarder with its table.  \<open>w\<close> is the window of \<open>tcpHdr\<close> in \<open>p\<close>.
\<close>

definition processIPv4 :: "'s lru_ops \<Rightarrow> ip4_ops \<Rightarrow> tcp_ops \<Rightarrow> csum_ops \<Rightarrow> 's tcpForwarder \<Rightarrow> bytes \<Rightarrow> window
    \<Rightarrow> (bytes option \<times> 's tcpForwarder) go" where
  "processIPv4 L H T C t p w = do {
     src \<leftarrow> ip_source H p;
     dst \<leftarrow> ip_destination H p;
     sp \<leftarrow> tcp_source_port T (view w p);
     dp \<leftarrow> tcp_destination_port T (view w p);
     if sp \<noteq> tf_port t then do {
       let key = \<lparr>destinationAddress = dst, sourcePort = sp\<rparr>;
       let (found, ss) = lru_get L key (tf_sessions t);
       let ss = (case found of Some session \<Rightarrow> ss
                  | None \<Rightarrow> lru_set L key \<lparr>sourceAddress = src, destinationPort = dp\<rparr> ss);
       p \<leftarrow> ip_set_source H dst p;
       p \<leftarrow> ip_set_destination H vlanClient4 p;
       p \<leftarrow> on_window w (tcp_set_destination_port T (tf_port t)) p;
       p \<leftarrow> ip4_write_checksum H p;
       p \<leftarrow> tcp_checksum H T C w p;
       Some (Some p, t\<lparr>tf_sessions := ss\<rparr>)
     } else do {
       let (found, ss) = lru_get L \<lparr>destinationAddress = dst, sourcePort = dp\<rparr> (tf_sessions t);
       (case found of
          None \<Rightarrow> Some (None, t\<lparr>tf_sessions := ss\<rparr>)
        | Some session \<Rightarrow> do {
            p \<leftarrow> ip_set_source H dst p;
            p \<leftarrow> on_window w (tcp_set_source_port T (destinationPort session)) p;
            p \<leftarrow> ip_set_destination H (sourceAddress session) p;
            p \<leftarrow> ip4_write_checksum H p;
            p \<leftarrow> tcp_checksum H T C w p;
            Some (Some p, t\<lparr>tf_sessions := ss\<rparr>)
          })
     }
   }"

text \<open>\<open>processIPv6\<close>: the same, with no header checksum.\<close>

definition processIPv6 :: "'s lru_ops \<Rightarrow> 'm ip_ops_scheme \<Rightarrow> tcp_ops \<Rightarrow> csum_ops \<Rightarrow> 's tcpForwarder \<Rightarrow> bytes \<Rightarrow> window
    \<Rightarrow> (bytes option \<times> 's tcpForwarder) go" where
  "processIPv6 L H T C t p w = do {
     src \<leftarrow> ip_source H p;
     dst \<leftarrow> ip_destination H p;
     sp \<leftarrow> tcp_source_port T (view w p);
     dp \<leftarrow> tcp_destination_port T (view w p);
     if sp \<noteq> tf_port t then do {
       let key = \<lparr>destinationAddress = dst, sourcePort = sp\<rparr>;
       let (found, ss) = lru_get L key (tf_sessions t);
       let ss = (case found of Some session \<Rightarrow> ss
                  | None \<Rightarrow> lru_set L key \<lparr>sourceAddress = src, destinationPort = dp\<rparr> ss);
       p \<leftarrow> ip_set_source H dst p;
       p \<leftarrow> ip_set_destination H vlanClient6 p;
       p \<leftarrow> on_window w (tcp_set_destination_port T (tf_port t)) p;
       p \<leftarrow> tcp_checksum H T C w p;
       Some (Some p, t\<lparr>tf_sessions := ss\<rparr>)
     } else do {
       let (found, ss) = lru_get L \<lparr>destinationAddress = dst, sourcePort = dp\<rparr> (tf_sessions t);
       (case found of
          None \<Rightarrow> Some (None, t\<lparr>tf_sessions := ss\<rparr>)
        | Some session \<Rightarrow> do {
            p \<leftarrow> ip_set_source H dst p;
            p \<leftarrow> on_window w (tcp_set_source_port T (destinationPort session)) p;
            p \<leftarrow> ip_set_destination H (sourceAddress session) p;
            p \<leftarrow> tcp_checksum H T C w p;
            Some (Some p, t\<lparr>tf_sessions := ss\<rparr>)
          })
     }
   }"

section \<open>Accepting connections\<close>

text \<open>
  What \<open>AcceptTCP\<close> gives: an error, which is \<open>net.ErrClosed\<close> or not, or a
  connection, of which the forwarder looks at the remote address.
\<close>

datatype accept = AcceptError bool | Accepted bytes int

text \<open>\<open>net.IP.To4\<close>: four bytes, or sixteen with the IPv4-mapped prefix.\<close>

definition to4 :: "bytes \<Rightarrow> bytes option" where
  "to4 ip = (if length ip = 4 then Some ip
     else if length ip = 16 \<and> take 10 ip = replicate 10 0 \<and> ip ! 10 = 0xff \<and> ip ! 11 = 0xff
     then Some (drop 12 ip) else None)"

datatype dispatched =
    DispatchStop bool
  | DispatchDropped
  | DispatchServed destination destination peerKey

text \<open>
  \<open>dispatch\<close>.  A served connection is handed to \<open>NewConnection\<close> in a goroutine that
  deletes the session of its key five seconds after the handler returned
  (\<open>session_over\<close>).  \<open>mk\<close> is \<open>v2rayNet.IPAddress\<close>.
\<close>

definition dispatch :: "'s lru_ops \<Rightarrow> (bytes \<Rightarrow> address) \<Rightarrow> 's tcpForwarder \<Rightarrow> accept \<Rightarrow> dispatched \<times> 's tcpForwarder" where
  "dispatch L mk t a =
     (case a of
        AcceptError closed \<Rightarrow> (DispatchStop closed, t)
      | Accepted ip port \<Rightarrow>
          (let ip = (case to4 ip of Some ip4 \<Rightarrow> ip4 | None \<Rightarrow> ip);
               key = \<lparr>destinationAddress = ip, sourcePort = uint16_of port\<rparr>;
               (found, ss) = lru_get L key (tf_sessions t);
               t = t\<lparr>tf_sessions := ss\<rparr>
           in case found of
                None \<Rightarrow> (DispatchDropped, t)
              | Some session \<Rightarrow>
                  (DispatchServed
                     \<lparr>dst_address = mk (sourceAddress session), dst_port = sourcePort key, dst_network = Network_TCP\<rparr>
                     \<lparr>dst_address = mk (destinationAddress key), dst_port = destinationPort session, dst_network = Network_TCP\<rparr>
                     key, t)))"

definition session_over :: "'s lru_ops \<Rightarrow> peerKey \<Rightarrow> 's tcpForwarder \<Rightarrow> 's tcpForwarder" where
  "session_over L key t = t\<lparr>tf_sessions := lru_delete L key (tf_sessions t)\<rparr>"

text \<open>
  \<open>dispatchLoop\<close> over the connections the listener will give: what is served, and
  whether the loop ended by closing the listener and reporting the error.
\<close>

datatype loop_end = StillAccepting | ListenerClosed | ClosedAndReported

fun dispatchLoop :: "'s lru_ops \<Rightarrow> (bytes \<Rightarrow> address) \<Rightarrow> 's tcpForwarder \<Rightarrow> accept list
    \<Rightarrow> (destination \<times> destination) list \<times> loop_end \<times> 's tcpForwarder" where
  "dispatchLoop L mk t [] = ([], StillAccepting, t)"
| "dispatchLoop L mk t (a # as) =
     (case dispatch L mk t a of
        (DispatchStop closed, t') \<Rightarrow> ([], if closed then ListenerClosed else ClosedAndReported, t')
      | (DispatchDropped, t') \<Rightarrow> dispatchLoop L mk t' as
      | (DispatchServed src dst key, t') \<Rightarrow>
          (let (served, fin, t'') = dispatchLoop L mk t' as in ((src, dst) # served, fin, t'')))"

section \<open>What the handlers rely on\<close>

text \<open>
  \<open>flow\<close> reads the four fields that identify a packet's connection; \<open>tcp_sum_ok\<close> says
  that the transport checksum verifies.
\<close>

definition flow :: "'m ip_ops_scheme \<Rightarrow> tcp_ops \<Rightarrow> window \<Rightarrow> bytes \<Rightarrow> bytes \<Rightarrow> u16 \<Rightarrow> bytes \<Rightarrow> u16 \<Rightarrow> bool" where
  "flow H T w p src sp dst dp \<longleftrightarrow> ip_source H p = Some src \<and> ip_destination H p = Some dst \<and>
     tcp_source_port T (view w p) = Some sp \<and> tcp_destination_port T (view w p) = Some dp"

definition tcp_sum_ok :: "'m ip_ops_scheme \<Rightarrow> tcp_ops \<Rightarrow> csum_ops \<Rightarrow> window \<Rightarrow> bytes \<Rightarrow> bool" where
  "tcp_sum_ok H T C w p \<longleftrightarrow>
     (\<exists>src dst pl. ip_source H p = Some src \<and> ip_destination H p = Some dst \<and>
        tcp_payload T (view w p) = Some pl \<and>
        tcp_calculate_checksum T (view w p)
          (cs_combine C (cs_pseudo C TCPProtocolNumber src dst (word_of_nat (snd w))) (cs_checksum C pl 0))
        = Some 0xFFFF)"

locale nat_headers = ip_window H valid alen tvalid + tcp_header T tvalid
  for H :: "'m ip_ops_scheme" and valid alen and T :: tcp_ops and tvalid +
  fixes C :: csum_ops
begin

text \<open>The checksum step keeps the flow and makes the segment verify.\<close>

lemma tcp_checksum_ok:
  assumes p: "seg w p" and fl: "flow H T w p src sp dst dp"
  shows "\<exists>q v. tcp_checksum H T C w p = Some q \<and> seg w q \<and> length q = length p \<and> flow H T w q src sp dst dp \<and>
     tcp_sum_ok H T C w q \<and> length v = snd w \<and> q = splice w v p"
proof -
  have tv: "tvalid (view w p)" and win: "window_in w p"
    using p segment_window by (auto simp: segment_def)
  obtain v0 where v0: "tcp_set_checksum T 0 (view w p) = Some v0" "tvalid v0" "length v0 = length (view w p)"
      "tcp_source_port T v0 = Some sp" "tcp_destination_port T v0 = Some dp" "tcp_payload T v0 = tcp_payload T (view w p)"
    using set_tcp_checksum [OF tv, of 0] fl by (auto simp: flow_def)
  from on_window_ok [where f = "tcp_set_checksum T 0", OF p v0(1-3)] obtain p0 where
    p0: "on_window w (tcp_set_checksum T 0) p = Some p0" "p0 = splice w v0 p" "seg w p0" "view w p0 = v0"
      "length p0 = length p" "ip_source H p0 = Some src" "ip_destination H p0 = Some dst"
    using fl by (auto simp: flow_def)
  obtain pl where pl: "tcp_payload T v0 = Some pl"
    using tcp_payload_total [OF v0(2)] by blast
  let ?i = "cs_combine C (cs_pseudo C TCPProtocolNumber src dst (word_of_nat (snd w))) (cs_checksum C pl 0)"
  obtain c where c: "tcp_calculate_checksum T v0 ?i = Some c"
    using tcp_calculate [OF v0(2)] by blast
  obtain v1 where v1: "tcp_set_checksum T (NOT c) v0 = Some v1" "tvalid v1" "length v1 = length v0"
      "tcp_source_port T v1 = Some sp" "tcp_destination_port T v1 = Some dp" "tcp_payload T v1 = Some pl"
    using set_tcp_checksum [OF v0(2), of "NOT c"] v0 pl by auto
  from on_window_ok [where f = "tcp_set_checksum T (NOT c)", OF p0(3)] obtain p1 where
    p1: "on_window w (tcp_set_checksum T (NOT c)) p0 = Some p1" "p1 = splice w v1 p0" "seg w p1" "view w p1 = v1"
      "length p1 = length p0" "ip_source H p1 = Some src" "ip_destination H p1 = Some dst"
    using p0 v1 by auto
  have "tcp_set_checksum T (NOT c) (view w p) = Some v1"
    using tcp_set_set [OF tv v0(1)] v1(1) by simp
  from tcp_calculate_set [OF tv v0(1) this c]
  have "tcp_calculate_checksum T v1 ?i = Some 0xFFFF"
    by (simp add: ocadd_NOT)
  then have ok: "tcp_sum_ok H T C w p1"
    using p1 v1 by (auto simp: tcp_sum_ok_def)
  have run: "tcp_checksum H T C w p = Some p1"
    by (simp add: tcp_checksum_def p0(1,4,6,7) pl c p1(1))
  have v: "length v1 = snd w" and "length v0 = snd w"
    using v0(3) v1(3) length_view [OF win] by simp_all
  then have "p1 = splice w v1 p"
    using p0(2) p1(2) win by (simp add: splice_def window_in_def)
  with run v ok p1 p0(5) v1 show ?thesis
    by (auto simp: flow_def)
qed

end

locale nat_forwarder = nat_headers H valid alen T tvalid C + session_table L look
  for H :: "'m ip_ops_scheme" and valid alen and T :: tcp_ops and tvalid and C :: csum_ops
    and L :: "'s lru_ops" and look
begin

text \<open>What a packet towards a server becomes, and what happens to the table.\<close>

lemma out_rewrite:
  assumes p: "seg w p" and fl: "flow H T w p src sp dst dp" and vlan: "length vlan = alen"
  shows "\<exists>p1 p2 p3. ip_set_source H dst p = Some p1 \<and> ip_set_destination H vlan p1 = Some p2 \<and>
     on_window w (tcp_set_destination_port T port) p2 = Some p3 \<and> seg w p3 \<and> flow H T w p3 dst sp vlan port"
proof -
  have len: "length dst = alen"
    using destination_total [of p] p fl by (auto simp: segment_def flow_def)
  from set_source_ok [OF p len] fl obtain p1 where
    p1: "ip_set_source H dst p = Some p1" "seg w p1" "view w p1 = view w p"
      "ip_source H p1 = Some dst" by auto
  from set_destination_ok [OF p1(2) vlan] p1 obtain p2 where
    p2: "ip_set_destination H vlan p1 = Some p2" "seg w p2" "view w p2 = view w p"
      "ip_source H p2 = Some dst" "ip_destination H p2 = Some vlan" by auto
  from set_destination_port [of "view w p" port] p fl obtain v where
    v: "tcp_set_destination_port T port (view w p2) = Some v" "tvalid v" "length v = length (view w p2)"
      "tcp_source_port T v = Some sp" "tcp_destination_port T v = Some port"
    by (auto simp: segment_def flow_def p2(3))
  from on_window_ok [where f = "tcp_set_destination_port T port", OF p2(2) v(1-3)] p1(1) p2 v show ?thesis
    by (auto simp: flow_def)
qed

lemma out_table:
  "look (case fst (lru_get L key s) of Some session \<Rightarrow> snd (lru_get L key s)
     | None \<Rightarrow> lru_set L key val (snd (lru_get L key s)))
   = (look s)(key \<mapsto> (case look s key of None \<Rightarrow> val | Some old \<Rightarrow> old))"
  using get_look [of key s] by (auto simp: set_look fun_upd_idem split: option.split)

text \<open>What an answer of the listener becomes.\<close>

lemma in_rewrite:
  assumes p: "seg w p" and fl: "flow H T w p src sp dst dp" and addr: "length addr = alen"
  shows "\<exists>p1 p2 p3. ip_set_source H dst p = Some p1 \<and> on_window w (tcp_set_source_port T port) p1 = Some p2 \<and>
     ip_set_destination H addr p2 = Some p3 \<and> seg w p3 \<and> flow H T w p3 dst port addr dp"
proof -
  have len: "length dst = alen"
    using destination_total [of p] p fl by (auto simp: segment_def flow_def)
  from set_source_ok [OF p len] fl obtain p1 where
    p1: "ip_set_source H dst p = Some p1" "seg w p1" "view w p1 = view w p"
      "ip_source H p1 = Some dst" by auto
  from set_source_port [of "view w p" port] p fl obtain v where
    v: "tcp_set_source_port T port (view w p1) = Some v" "tvalid v" "length v = length (view w p1)"
      "tcp_source_port T v = Some port" "tcp_destination_port T v = Some dp"
    by (auto simp: segment_def flow_def p1(3))
  from on_window_ok [where f = "tcp_set_source_port T port", OF p1(2) v(1-3)] p1 v obtain p2 where
    p2: "on_window w (tcp_set_source_port T port) p1 = Some p2" "seg w p2" "view w p2 = v"
      "ip_source H p2 = Some dst"
    by (auto simp: flow_def)
  from set_destination_ok [OF p2(2) addr] p1(1) p2 v show ?thesis
    by (auto simp: flow_def)
qed

text \<open>The IPv6 handler, both directions.\<close>

lemma out6:
  assumes p: "seg w p" and fl: "flow H T w p src sp dst dp" and "sp \<noteq> tf_port t"
    and vlan: "length vlanClient6 = alen"
  shows "\<exists>q t'. processIPv6 L H T C t p w = Some (Some q, t') \<and> seg w q \<and>
     flow H T w q dst sp vlanClient6 (tf_port t) \<and> tcp_sum_ok H T C w q \<and> tf_port t' = tf_port t \<and>
     look (tf_sessions t') = (look (tf_sessions t))
       (\<lparr>destinationAddress = dst, sourcePort = sp\<rparr> \<mapsto>
          (case look (tf_sessions t) \<lparr>destinationAddress = dst, sourcePort = sp\<rparr> of
             None \<Rightarrow> \<lparr>sourceAddress = src, destinationPort = dp\<rparr> | Some old \<Rightarrow> old))"
proof -
  from out_rewrite [OF p fl vlan, of "tf_port t"] obtain p1 p2 p3 where
    r: "ip_set_source H dst p = Some p1" "ip_set_destination H vlanClient6 p1 = Some p2"
      "on_window w (tcp_set_destination_port T (tf_port t)) p2 = Some p3"
    and p3: "seg w p3" "flow H T w p3 dst sp vlanClient6 (tf_port t)" by blast
  from tcp_checksum_ok [OF p3] obtain q where
    q: "tcp_checksum H T C w p3 = Some q" "seg w q" "flow H T w q dst sp vlanClient6 (tf_port t)"
      "tcp_sum_ok H T C w q" by blast
  with fl assms(3) r out_table show ?thesis
    by (simp add: processIPv6_def flow_def case_prod_beta Let_def cong: option.case_cong)
qed

lemma in6:
  assumes p: "seg w p" and fl: "flow H T w p src (tf_port t) dst dp"
    and known: "look (tf_sessions t) \<lparr>destinationAddress = dst, sourcePort = dp\<rparr> = Some v0"
    and addr: "length (sourceAddress v0) = alen"
  shows "\<exists>q t'. processIPv6 L H T C t p w = Some (Some q, t') \<and> seg w q \<and>
     flow H T w q dst (destinationPort v0) (sourceAddress v0) dp \<and> tcp_sum_ok H T C w q \<and>
     tf_port t' = tf_port t \<and> look (tf_sessions t') = look (tf_sessions t)"
proof -
  from in_rewrite [OF p fl addr, of "destinationPort v0"] obtain p1 p2 p3 where
    r: "ip_set_source H dst p = Some p1" "on_window w (tcp_set_source_port T (destinationPort v0)) p1 = Some p2"
      "ip_set_destination H (sourceAddress v0) p2 = Some p3"
    and p3: "seg w p3" "flow H T w p3 dst (destinationPort v0) (sourceAddress v0) dp" by blast
  from tcp_checksum_ok [OF p3] obtain q where
    q: "tcp_checksum H T C w p3 = Some q" "seg w q"
      "flow H T w q dst (destinationPort v0) (sourceAddress v0) dp" "tcp_sum_ok H T C w q" by blast
  with fl r known get_look [of "\<lparr>destinationAddress = dst, sourcePort = dp\<rparr>" "tf_sessions t"] show ?thesis
    by (simp add: processIPv6_def flow_def case_prod_beta)
qed

lemma unknown6:
  assumes "seg w p" "flow H T w p src (tf_port t) dst dp"
    and "look (tf_sessions t) \<lparr>destinationAddress = dst, sourcePort = dp\<rparr> = None"
  shows "\<exists>t'. processIPv6 L H T C t p w = Some (None, t') \<and> look (tf_sessions t') = look (tf_sessions t)"
  using assms get_look [of "\<lparr>destinationAddress = dst, sourcePort = dp\<rparr>" "tf_sessions t"]
  by (simp add: processIPv6_def flow_def case_prod_beta)

end

locale nat_forwarder4 = nat_forwarder H valid alen T tvalid C L look + ip4_window H valid alen tvalid
  for H :: ip4_ops and valid alen and T :: tcp_ops and tvalid and C :: csum_ops
    and L :: "'s lru_ops" and look
begin

lemma checksums_ok:
  assumes p: "seg w p" and fl: "flow H T w p src sp dst dp"
  shows "\<exists>p1 q. ip4_write_checksum H p = Some p1 \<and> tcp_checksum H T C w p1 = Some q \<and> seg w q \<and>
     flow H T w q src sp dst dp \<and> tcp_sum_ok H T C w q \<and> ip4_calculate_checksum H q = Some 0xFFFF"
proof -
  from write_checksum_ok [OF p] fl obtain p1 where
    p1: "ip4_write_checksum H p = Some p1" "seg w p1" "flow H T w p1 src sp dst dp"
      "ip4_calculate_checksum H p1 = Some 0xFFFF" by (auto simp: flow_def)
  from tcp_checksum_ok [OF p1(2,3)] obtain q v where
    q: "tcp_checksum H T C w p1 = Some q" "seg w q" "flow H T w q src sp dst dp"
      "tcp_sum_ok H T C w q" "length v = snd w" "q = splice w v p1" by blast
  moreover have "ip4_calculate_checksum H q = Some 0xFFFF"
    using p1 q calculate_splice [of p1 w v] by (auto simp: segment_def)
  ultimately show ?thesis using p1(1) by blast
qed

lemma out4:
  assumes p: "seg w p" and fl: "flow H T w p src sp dst dp" and "sp \<noteq> tf_port t"
    and vlan: "length vlanClient4 = alen"
  shows "\<exists>q t'. processIPv4 L H T C t p w = Some (Some q, t') \<and> seg w q \<and>
     flow H T w q dst sp vlanClient4 (tf_port t) \<and> tcp_sum_ok H T C w q \<and>
     ip4_calculate_checksum H q = Some 0xFFFF \<and> tf_port t' = tf_port t \<and>
     look (tf_sessions t') = (look (tf_sessions t))
       (\<lparr>destinationAddress = dst, sourcePort = sp\<rparr> \<mapsto>
          (case look (tf_sessions t) \<lparr>destinationAddress = dst, sourcePort = sp\<rparr> of
             None \<Rightarrow> \<lparr>sourceAddress = src, destinationPort = dp\<rparr> | Some old \<Rightarrow> old))"
proof -
  from out_rewrite [OF p fl vlan, of "tf_port t"] obtain p1 p2 p3 where
    r: "ip_set_source H dst p = Some p1" "ip_set_destination H vlanClient4 p1 = Some p2"
      "on_window w (tcp_set_destination_port T (tf_port t)) p2 = Some p3"
    and p3: "seg w p3" "flow H T w p3 dst sp vlanClient4 (tf_port t)" by blast
  from checksums_ok [OF p3] obtain p4 q where
    q: "ip4_write_checksum H p3 = Some p4" "tcp_checksum H T C w p4 = Some q" "seg w q"
      "flow H T w q dst sp vlanClient4 (tf_port t)" "tcp_sum_ok H T C w q"
      "ip4_calculate_checksum H q = Some 0xFFFF" by blast
  with fl assms(3) r out_table show ?thesis
    by (simp add: processIPv4_def flow_def case_prod_beta Let_def cong: option.case_cong)
qed

lemma in4:
  assumes p: "seg w p" and fl: "flow H T w p src (tf_port t) dst dp"
    and known: "look (tf_sessions t) \<lparr>destinationAddress = dst, sourcePort = dp\<rparr> = Some v0"
    and addr: "length (sourceAddress v0) = alen"
  shows "\<exists>q t'. processIPv4 L H T C t p w = Some (Some q, t') \<and> seg w q \<and>
     flow H T w q dst (destinationPort v0) (sourceAddress v0) dp \<and> tcp_sum_ok H T C w q \<and>
     ip4_calculate_checksum H q = Some 0xFFFF \<and>
     tf_port t' = tf_port t \<and> look (tf_sessions t') = look (tf_sessions t)"
proof -
  from in_rewrite [OF p fl addr, of "destinationPort v0"] obtain p1 p2 p3 where
    r: "ip_set_source H dst p = Some p1" "on_window w (tcp_set_source_port T (destinationPort v0)) p1 = Some p2"
      "ip_set_destination H (sourceAddress v0) p2 = Some p3"
    and p3: "seg w p3" "flow H T w p3 dst (destinationPort v0) (sourceAddress v0) dp" by blast
  from checksums_ok [OF p3] obtain p4 q where
    q: "ip4_write_checksum H p3 = Some p4" "tcp_checksum H T C w p4 = Some q" "seg w q"
      "flow H T w q dst (destinationPort v0) (sourceAddress v0) dp" "tcp_sum_ok H T C w q"
      "ip4_calculate_checksum H q = Some 0xFFFF" by blast
  with fl r known get_look [of "\<lparr>destinationAddress = dst, sourcePort = dp\<rparr>" "tf_sessions t"] show ?thesis
    by (simp add: processIPv4_def flow_def case_prod_beta)
qed

lemma unknown4:
  assumes "seg w p" "flow H T w p src (tf_port t) dst dp"
    and "look (tf_sessions t) \<lparr>destinationAddress = dst, sourcePort = dp\<rparr> = None"
  shows "\<exists>t'. processIPv4 L H T C t p w = Some (None, t') \<and> look (tf_sessions t') = look (tf_sessions t)"
  using assms get_look [of "\<lparr>destinationAddress = dst, sourcePort = dp\<rparr>" "tf_sessions t"]
  by (simp add: processIPv4_def flow_def case_prod_beta)

end

end
