(* ===== verification/WireRfc.thy ===== *)
theory WireRfc
  imports NatTcp
begin

text \<open>
  Instances of the header interfaces: the wire layouts of RFC 791 (IPv4), RFC 8200
  (IPv6), RFC 793 (TCP) and the checksum of RFC 1071, and a session table with the
  age limit the forwarder configures.  They show that the laws the packet code relies
  on hold together, and the witnesses of its properties compute with them.
\<close>

section \<open>Fixed fields\<close>

definition get_at :: "nat \<Rightarrow> nat \<Rightarrow> bytes \<Rightarrow> bytes go" where
  "get_at i n p = (if i + n \<le> length p then Some (take n (drop i p)) else panic)"

definition put_at :: "nat \<Rightarrow> bytes \<Rightarrow> bytes \<Rightarrow> bytes go" where
  "put_at i bs p = (if i + length bs \<le> length p then Some (take i p @ bs @ drop (i + length bs) p) else panic)"

definition get16 :: "nat \<Rightarrow> bytes \<Rightarrow> u16 go" where
  "get16 i p = map_option (\<lambda>b. be16 (b ! 0) (b ! 1)) (get_at i 2 p)"

definition put16 :: "nat \<Rightarrow> u16 \<Rightarrow> bytes \<Rightarrow> bytes go" where
  "put16 i x p = put_at i (put_be16 x) p"

lemma get16_put_be16: "get_at i 2 q = Some (put_be16 x) \<Longrightarrow> get16 i q = Some x"
  by (simp add: get16_def put_be16_def be16_put_be16)

lemma put_at_total: "i + length bs \<le> length p \<Longrightarrow> \<exists>q. put_at i bs p = Some q"
  by (simp add: put_at_def)

lemma put_at_length: "put_at i bs p = Some q \<Longrightarrow> length q = length p"
  by (auto simp: put_at_def split: if_splits)

lemma put_at_get_same: "put_at i bs p = Some q \<Longrightarrow> n = length bs \<Longrightarrow> get_at i n q = Some bs"
  by (auto simp: put_at_def get_at_def split: if_splits)

lemma put_at_get_before: "put_at i bs p = Some q \<Longrightarrow> j + n \<le> i \<Longrightarrow> get_at j n q = get_at j n p"
  by (auto simp: put_at_def get_at_def drop_take split: if_splits)

lemma put_at_drop: "put_at i bs p = Some q \<Longrightarrow> i + length bs \<le> j \<Longrightarrow> drop j q = drop j p"
  by (auto simp: put_at_def split: if_splits)

lemma put_at_get_after: "put_at i bs p = Some q \<Longrightarrow> i + length bs \<le> j \<Longrightarrow> get_at j n q = get_at j n p"
  using put_at_drop [of i bs p q j] put_at_length [of i bs p q] by (simp add: get_at_def)

lemma put_at_view: "put_at i bs p = Some q \<Longrightarrow> i + length bs \<le> fst w \<Longrightarrow> view w q = view w p"
  by (simp add: view_def put_at_drop)

lemma put_at_twice: "put_at i bs p = Some q \<Longrightarrow> length cs = length bs \<Longrightarrow> put_at i cs q = put_at i cs p"
  by (auto simp: put_at_def split: if_splits)

lemma put16_get16: "put16 i x p = Some q \<Longrightarrow> get16 i q = Some x"
  unfolding put16_def get16_def
  by (subst put_at_get_same) (auto simp: put_be16_def be16_put_be16)

lemma splice_get_before: "j + n \<le> fst w \<Longrightarrow> window_in w p \<Longrightarrow> length v = snd w \<Longrightarrow>
    get_at j n (splice w v p) = get_at j n p"
  by (auto simp: get_at_def splice_def window_in_def drop_take)

lemma splice_take: "j \<le> fst w \<Longrightarrow> window_in w p \<Longrightarrow> take j (splice w v p) = take j p"
  by (auto simp: splice_def window_in_def min_def)

section \<open>The checksum of RFC 1071\<close>

fun csum :: "bytes \<Rightarrow> u16 \<Rightarrow> u16" where
  "csum [] c = c"
| "csum [a] c = ocadd c (be16 a 0)"
| "csum (a # b # r) c = csum r (ocadd c (be16 a b))"

lemma csum_acc: "csum bs c = ocadd c (csum bs 0)"
proof (induction bs arbitrary: c rule: induct_list012)
  case (3 a b r)
  show ?case
    using "3.IH"(1) [of "ocadd c (be16 a b)"] "3.IH"(1) [of "be16 a b"]
    by (simp only: csum.simps ocadd_0 ocadd_assoc)
qed simp_all

lemma csum_append: "even (length xs) \<Longrightarrow> csum (xs @ ys) c = csum ys (csum xs c)"
  by (induction xs c rule: csum.induct) simp_all

lemma csum_put16:
  assumes "even i" "i + 2 \<le> n" "n \<le> length p" "put16 i 0 p = Some p0" "put16 i x p = Some p1"
  shows "csum (take n p1) c = ocadd (csum (take n p0) c) x"
proof -
  have len: "i + 2 \<le> length p" using assms(2,3) by simp
  have t: "take n (take i p @ bs @ drop (i + 2) p) = take i p @ bs @ drop (i + 2) (take n p)"
    if "length bs = 2" for bs
    using that assms(2,3) by (simp add: drop_take min_def)
  have "p0 = take i p @ put_be16 0 @ drop (i + 2) p" "p1 = take i p @ put_be16 x @ drop (i + 2) p"
    using assms(4,5) len by (auto simp: put16_def put_at_def put_be16_def split: if_splits)
  then have take: "take n p0 = take i p @ put_be16 0 @ drop (i + 2) (take n p)"
      "take n p1 = take i p @ put_be16 x @ drop (i + 2) (take n p)"
    using t by simp_all
  have word: "csum (put_be16 y) d = ocadd d y" for y d
    by (simp add: put_be16_def be16_put_be16)
  have "even (length (take i p))"
    using assms(1) len by simp
  then have "csum (take n p1) c = csum (drop (i + 2) (take n p)) (ocadd (csum (take i p) c) x)"
    and "csum (take n p0) c = csum (drop (i + 2) (take n p)) (ocadd (csum (take i p) c) 0)"
    by (simp_all only: take csum_append word length_put_be16 even_numeral)
  moreover have "csum (drop (i + 2) (take n p)) e = ocadd e (csum (drop (i + 2) (take n p)) 0)" for e
    by (rule csum_acc)
  ultimately have "csum (take n p1) c = ocadd (ocadd (csum (take i p) c) x) (csum (drop (i + 2) (take n p)) 0)"
    and "csum (take n p0) c = ocadd (csum (take i p) c) (csum (drop (i + 2) (take n p)) 0)"
    by (metis, metis ocadd_0(2))
  then show ?thesis by (simp only: ocadd_ac)
qed

definition rfc1071 :: csum_ops where
  "rfc1071 = \<lparr>cs_checksum = csum, cs_combine = ocadd,
     cs_pseudo = (\<lambda>proto src dst n. csum [0, proto] (csum (put_be16 n) (csum dst (csum src 0))))\<rparr>"

section \<open>IPv4\<close>

definition v4_hl :: "bytes \<Rightarrow> nat" where "v4_hl p = 4 * unat (p ! 0 AND 15)"
definition v4_tl :: "bytes \<Rightarrow> nat" where "v4_tl p = unat (be16 (p ! 2) (p ! 3))"

definition v4_valid :: "bytes \<Rightarrow> bool" where
  "v4_valid p \<longleftrightarrow> 20 \<le> length p \<and> drop_bit 4 (p ! 0) = 4 \<and> 20 \<le> v4_hl p \<and> v4_hl p \<le> v4_tl p \<and> v4_tl p \<le> length p"

definition rfc791 :: ip4_ops where
  "rfc791 =
    \<lparr>ip_source = get_at 12 4, ip_destination = get_at 16 4, ip_set_source = put_at 12, ip_set_destination = put_at 16,
     ip_payload = (\<lambda>p. if 20 \<le> length p \<and> v4_hl p \<le> v4_tl p \<and> v4_tl p \<le> length p
                       then Some (v4_hl p, v4_tl p - v4_hl p) else panic),
     ip4_protocol = (\<lambda>p. index_go p 9),
     ip4_header_length = (\<lambda>p. if p = [] then panic else Some (v4_hl p)),
     ip4_total_length = get16 2, ip4_set_total_length = put16 2,
     ip4_checksum = get16 10, ip4_set_checksum = put16 10,
     ip4_calculate_checksum = (\<lambda>p. if length p < v4_hl p \<or> length p = 0 then panic else Some (csum (take (v4_hl p) p) 0))\<rparr>"

lemma put_at_nth: "put_at i bs p = Some q \<Longrightarrow> j < i \<Longrightarrow> q ! j = p ! j"
  by (auto simp: put_at_def nth_append split: if_splits)

lemma put_at_v4:
  assumes "put_at i bs p = Some q" "4 \<le> i"
  shows "v4_hl q = v4_hl p" "v4_tl q = v4_tl p" "v4_valid q = v4_valid p"
    and "ip_payload rfc791 q = ip_payload rfc791 p"
  using assms put_at_length [OF assms(1)] put_at_nth [OF assms(1)]
  by (simp_all add: v4_hl_def v4_tl_def v4_valid_def rfc791_def)

lemma splice_v4:
  assumes "v4_valid p" "ip_payload rfc791 p = Some w" "length v = snd w"
  shows "v4_hl (splice w v p) = v4_hl p" "v4_tl (splice w v p) = v4_tl p" "v4_valid (splice w v p)"
    and "window_in w p" "20 \<le> fst w" "fst w = v4_hl p"
proof -
  show win: "window_in w p" and w: "20 \<le> fst w" and "fst w = v4_hl p"
    using assms(1,2) by (auto simp: v4_valid_def rfc791_def window_in_def split: if_splits)
  have "splice w v p ! j = p ! j" if "j < 20" for j
    using that win w by (simp add: splice_def nth_append window_in_def)
  then show "v4_hl (splice w v p) = v4_hl p" "v4_tl (splice w v p) = v4_tl p" "v4_valid (splice w v p)"
    using assms(1) length_splice [OF win assms(3)] by (simp_all add: v4_hl_def v4_tl_def v4_valid_def)
qed

text \<open>Every setter writes inside the fixed header, before the payload.\<close>

lemma put_at_header4:
  assumes "v4_valid p" "4 \<le> i" "i + length bs \<le> 20"
  shows "\<exists>q. put_at i bs p = Some q \<and> v4_valid q \<and> length q = length p \<and>
     ip_payload rfc791 q = ip_payload rfc791 p \<and> get_at i (length bs) q = Some bs \<and>
     (\<forall>j n. j + n \<le> i \<or> i + length bs \<le> j \<longrightarrow> get_at j n q = get_at j n p) \<and>
     (\<forall>w. ip_payload rfc791 p = Some w \<longrightarrow> view w q = view w p)"
proof -
  have "i + length bs \<le> length p" and hl: "20 \<le> v4_hl p"
    using assms by (auto simp: v4_valid_def)
  then obtain q where q: "put_at i bs p = Some q"
    using put_at_total by blast
  moreover have "view w q = view w p" if "ip_payload rfc791 p = Some w" for w
  proof (rule put_at_view [OF q])
    show "i + length bs \<le> fst w"
      using that hl assms(3) by (auto simp: rfc791_def split: if_splits)
  qed
  ultimately show ?thesis
    using put_at_v4 [OF q assms(2)] assms(1) put_at_length [OF q] put_at_get_same [OF q refl]
      put_at_get_before [OF q] put_at_get_after [OF q] by blast
qed

lemma rfc791_simps [simp]:
  "ip_source rfc791 = get_at 12 4" "ip_destination rfc791 = get_at 16 4"
  "ip_set_source rfc791 = put_at 12" "ip_set_destination rfc791 = put_at 16"
  "ip4_total_length rfc791 = get16 2" "ip4_set_total_length rfc791 = put16 2"
  "ip4_checksum rfc791 = get16 10" "ip4_set_checksum rfc791 = put16 10"
  by (simp_all add: rfc791_def)

lemma rfc791_calculate: "ip4_calculate_checksum rfc791 p =
    (if length p < v4_hl p \<or> length p = 0 then panic else Some (csum (take (v4_hl p) p) 0))"
  by (simp add: rfc791_def)

lemma get_at_total: "i + n \<le> length p \<Longrightarrow> \<exists>a. get_at i n p = Some a \<and> length a = n"
  by (simp add: get_at_def)

interpretation rfc4: ip4_header rfc791 v4_valid 4
proof
  fix p assume p: "v4_valid p"
  then show "\<exists>a. ip_source rfc791 p = Some a \<and> length a = 4" "\<exists>a. ip_destination rfc791 p = Some a \<and> length a = 4"
    using get_at_total [of 12 4 p] get_at_total [of 16 4 p] by (auto simp: v4_valid_def)
  show "\<exists>w. ip_payload rfc791 p = Some w \<and> window_in w p"
    using p by (auto simp: v4_valid_def rfc791_def window_in_def)
  show "\<exists>s. ip4_calculate_checksum rfc791 p = Some s"
    using p by (auto simp: v4_valid_def rfc791_def)
  show "\<exists>q. ip4_set_checksum rfc791 c p = Some q \<and> v4_valid q \<and> length q = length p \<and> ip4_checksum rfc791 q = Some c \<and>
      ip_source rfc791 q = ip_source rfc791 p \<and> ip_destination rfc791 q = ip_destination rfc791 p \<and>
      ip_payload rfc791 q = ip_payload rfc791 p \<and> ip4_total_length rfc791 q = ip4_total_length rfc791 p \<and>
      (\<forall>w. ip_payload rfc791 p = Some w \<longrightarrow> view w q = view w p)" for c
    using put_at_header4 [OF p, of 10 "put_be16 c"]
    by (auto simp: put16_def [of 10] get16_def) (simp_all add: put_be16_def be16_put_be16)
next
  fix p a assume p: "v4_valid p" and a: "length (a :: bytes) = 4"
  show "\<exists>q. ip_set_source rfc791 a p = Some q \<and> v4_valid q \<and> length q = length p \<and> ip_source rfc791 q = Some a \<and>
      ip_destination rfc791 q = ip_destination rfc791 p \<and> ip_payload rfc791 q = ip_payload rfc791 p \<and>
      (\<forall>w. ip_payload rfc791 p = Some w \<longrightarrow> view w q = view w p)"
    using put_at_header4 [OF p, of 12 a] a by auto
  show "\<exists>q. ip_set_destination rfc791 a p = Some q \<and> v4_valid q \<and> length q = length p \<and> ip_destination rfc791 q = Some a \<and>
      ip_source rfc791 q = ip_source rfc791 p \<and> ip_payload rfc791 q = ip_payload rfc791 p \<and>
      (\<forall>w. ip_payload rfc791 p = Some w \<longrightarrow> view w q = view w p)"
    using put_at_header4 [OF p, of 16 a] a by auto
next
  fix p w and v :: bytes assume p: "v4_valid p" "ip_payload rfc791 p = Some w" "length v = snd w"
  note s = splice_v4 [OF p]
  have "ip_payload rfc791 (splice w v p) = ip_payload rfc791 p"
    using s(1,2) length_splice [OF s(4) p(3)] by (simp add: rfc791_def)
  then show "v4_valid (splice w v p) \<and> ip_source rfc791 (splice w v p) = ip_source rfc791 p \<and>
      ip_destination rfc791 (splice w v p) = ip_destination rfc791 p \<and>
      ip_payload rfc791 (splice w v p) = ip_payload rfc791 p"
    using s splice_get_before [OF _ s(4) p(3)] by simp
  show "ip4_calculate_checksum rfc791 (splice w v p) = ip4_calculate_checksum rfc791 p"
    unfolding rfc791_calculate s(1) length_splice [OF s(4) p(3)]
    by (simp add: splice_take [OF _ s(4)] s(6))
next
  fix p c q d assume "v4_valid p" "ip4_set_checksum rfc791 c p = Some q"
  then show "ip4_set_checksum rfc791 d q = ip4_set_checksum rfc791 d p"
    by (simp add: put16_def put_at_twice)
next
  fix p p0 c p1 s
  assume p: "v4_valid p" "ip4_set_checksum rfc791 0 p = Some p0" "ip4_set_checksum rfc791 c p = Some p1"
    "ip4_calculate_checksum rfc791 p0 = Some s"
  then have q: "put16 10 0 p = Some p0" "put16 10 c p = Some p1" by simp_all
  then have q': "put_at 10 (put_be16 0) p = Some p0" "put_at 10 (put_be16 c) p = Some p1"
    by (simp_all only: put16_def)
  have hl: "v4_hl p0 = v4_hl p" "v4_hl p1 = v4_hl p" "length p0 = length p" "length p1 = length p"
    using put_at_v4(1) [OF q'(1)] put_at_v4(1) [OF q'(2)] put_at_length [OF q'(1)] put_at_length [OF q'(2)]
    by simp_all
  have n: "10 + 2 \<le> v4_hl p" "v4_hl p \<le> length p"
    using p(1) by (auto simp: v4_valid_def)
  have "csum (take (v4_hl p) p1) 0 = ocadd (csum (take (v4_hl p) p0) 0) c"
    by (rule csum_put16 [OF _ n q]) simp
  then show "ip4_calculate_checksum rfc791 p1 = Some (ocadd s c)"
    using p(4) hl by (simp add: rfc791_calculate split: if_splits)
qed

section \<open>IPv6\<close>

definition v6_pl :: "bytes \<Rightarrow> nat" where "v6_pl p = unat (be16 (p ! 4) (p ! 5))"

definition v6_valid :: "bytes \<Rightarrow> bool" where
  "v6_valid p \<longleftrightarrow> 40 + v6_pl p \<le> length p \<and> drop_bit 4 (p ! 0) = 6"

text \<open>A packet with no extension header: the payload starts after 40 bytes.\<close>

definition rfc8200 :: ip_ops where
  "rfc8200 =
    \<lparr>ip_source = get_at 8 16, ip_destination = get_at 24 16, ip_set_source = put_at 8, ip_set_destination = put_at 24,
     ip_payload = (\<lambda>p. if 40 \<le> length p \<and> 40 + v6_pl p \<le> length p then Some (40, v6_pl p) else panic)\<rparr>"

lemma rfc8200_simps [simp]:
  "ip_source rfc8200 = get_at 8 16" "ip_destination rfc8200 = get_at 24 16"
  "ip_set_source rfc8200 = put_at 8" "ip_set_destination rfc8200 = put_at 24"
  by (simp_all add: rfc8200_def)

lemma rfc8200_payload: "v6_valid p \<Longrightarrow> ip_payload rfc8200 p = Some (40, v6_pl p)"
  by (simp add: rfc8200_def v6_valid_def)

lemma put_at_header6:
  assumes "v6_valid p" "8 \<le> i" "i + length bs \<le> 40"
  shows "\<exists>q. put_at i bs p = Some q \<and> v6_valid q \<and> length q = length p \<and>
     ip_payload rfc8200 q = ip_payload rfc8200 p \<and> get_at i (length bs) q = Some bs \<and>
     (\<forall>j n. j + n \<le> i \<or> i + length bs \<le> j \<longrightarrow> get_at j n q = get_at j n p) \<and>
     (\<forall>w. ip_payload rfc8200 p = Some w \<longrightarrow> view w q = view w p)"
proof -
  have "i + length bs \<le> length p"
    using assms by (auto simp: v6_valid_def)
  then obtain q where q: "put_at i bs p = Some q"
    using put_at_total by blast
  have pl: "v6_pl q = v6_pl p" and v: "v6_valid q"
    using assms put_at_nth [OF q] put_at_length [OF q] by (simp_all add: v6_pl_def v6_valid_def)
  have "view w q = view w p" if "ip_payload rfc8200 p = Some w" for w
    using that assms(3) by (intro put_at_view [OF q]) (auto simp: rfc8200_payload [OF assms(1)])
  with q v pl show ?thesis
    using rfc8200_payload [OF assms(1)] rfc8200_payload [OF v] put_at_length [OF q] put_at_get_same [OF q refl]
      put_at_get_before [OF q] put_at_get_after [OF q] by auto
qed

interpretation rfc6: ip_header rfc8200 v6_valid 16
proof
  fix p assume p: "v6_valid p"
  then show "\<exists>a. ip_source rfc8200 p = Some a \<and> length a = 16" "\<exists>a. ip_destination rfc8200 p = Some a \<and> length a = 16"
    using get_at_total [of 8 16 p] get_at_total [of 24 16 p] by (auto simp: v6_valid_def)
  show "\<exists>w. ip_payload rfc8200 p = Some w \<and> window_in w p"
    using p by (auto simp: v6_valid_def rfc8200_payload window_in_def)
next
  fix p a assume p: "v6_valid p" and a: "length (a :: bytes) = 16"
  show "\<exists>q. ip_set_source rfc8200 a p = Some q \<and> v6_valid q \<and> length q = length p \<and> ip_source rfc8200 q = Some a \<and>
      ip_destination rfc8200 q = ip_destination rfc8200 p \<and> ip_payload rfc8200 q = ip_payload rfc8200 p \<and>
      (\<forall>w. ip_payload rfc8200 p = Some w \<longrightarrow> view w q = view w p)"
    using put_at_header6 [OF p, of 8 a] a by auto
  show "\<exists>q. ip_set_destination rfc8200 a p = Some q \<and> v6_valid q \<and> length q = length p \<and> ip_destination rfc8200 q = Some a \<and>
      ip_source rfc8200 q = ip_source rfc8200 p \<and> ip_payload rfc8200 q = ip_payload rfc8200 p \<and>
      (\<forall>w. ip_payload rfc8200 p = Some w \<longrightarrow> view w q = view w p)"
    using put_at_header6 [OF p, of 24 a] a by auto
next
  fix p w and v :: bytes assume p: "v6_valid p" "ip_payload rfc8200 p = Some w" "length v = snd w"
  have w: "w = (40, v6_pl p)" and win: "window_in w p"
    using p(1,2) by (auto simp: rfc8200_payload window_in_def v6_valid_def)
  have "splice w v p ! j = p ! j" if "j < 40" for j
    using that win w by (simp add: splice_def nth_append window_in_def)
  then have "v6_pl (splice w v p) = v6_pl p" and "v6_valid (splice w v p)"
    using p(1) length_splice [OF win p(3)] by (simp_all add: v6_pl_def v6_valid_def)
  then show "v6_valid (splice w v p) \<and> ip_source rfc8200 (splice w v p) = ip_source rfc8200 p \<and>
      ip_destination rfc8200 (splice w v p) = ip_destination rfc8200 p \<and>
      ip_payload rfc8200 (splice w v p) = ip_payload rfc8200 p"
    using splice_get_before [OF _ win p(3)] w p(1) by (simp add: rfc8200_payload)
qed

section \<open>TCP\<close>

definition tcp_off :: "bytes \<Rightarrow> nat" where "tcp_off v = 4 * unat (drop_bit 4 (v ! 12))"

definition tcp_valid :: "bytes \<Rightarrow> bool" where
  "tcp_valid v \<longleftrightarrow> 20 \<le> tcp_off v \<and> tcp_off v \<le> length v"

definition rfc793 :: tcp_ops where
  "rfc793 =
    \<lparr>tcp_source_port = get16 0, tcp_destination_port = get16 2,
     tcp_set_source_port = put16 0, tcp_set_destination_port = put16 2,
     tcp_payload = (\<lambda>v. if length v < 13 \<or> length v < tcp_off v then panic else Some (drop (tcp_off v) v)),
     tcp_set_checksum = put16 16,
     tcp_calculate_checksum = (\<lambda>v i. if length v < 13 \<or> length v < tcp_off v then panic
                                      else Some (csum (take (tcp_off v) v) i))\<rparr>"

lemma put16_tcp:
  assumes "tcp_valid v" "i = 0 \<or> i = 2 \<or> i = 16"
  shows "\<exists>u. put16 i x v = Some u \<and> tcp_valid u \<and> length u = length v \<and> tcp_off u = tcp_off v \<and>
     get16 i u = Some x \<and> (\<forall>j. j + 2 \<le> i \<or> i + 2 \<le> j \<longrightarrow> get16 j u = get16 j v) \<and>
     tcp_payload rfc793 u = tcp_payload rfc793 v"
proof -
  have "i + length (put_be16 x) \<le> length v"
    using assms by (auto simp: tcp_valid_def)
  then obtain u where u: "put_at i (put_be16 x) v = Some u"
    using put_at_total by blast
  note len = put_at_length [OF u]
  have "u ! 12 = v ! 12"
    using u assms by (auto simp: put_at_def nth_append tcp_valid_def put_be16_def split: if_splits)
  then have off: "tcp_off u = tcp_off v" by (simp add: tcp_off_def)
  have "drop (tcp_off v) u = drop (tcp_off v) v"
    using assms by (intro put_at_drop [OF u]) (auto simp: tcp_valid_def)
  with off len u assms(1) show ?thesis
    using put16_get16 [of i x v u] put_at_get_before [OF u] put_at_get_after [OF u]
    by (auto simp: put16_def get16_def tcp_valid_def rfc793_def)
qed

lemma rfc793_simps [simp]:
  "tcp_source_port rfc793 = get16 0" "tcp_destination_port rfc793 = get16 2"
  "tcp_set_source_port rfc793 = put16 0" "tcp_set_destination_port rfc793 = put16 2"
  "tcp_set_checksum rfc793 = put16 16"
  by (simp_all add: rfc793_def)

lemma rfc793_calculate: "tcp_valid v \<Longrightarrow>
    tcp_calculate_checksum rfc793 v i = Some (csum (take (tcp_off v) v) i)"
  by (simp add: rfc793_def tcp_valid_def)

interpretation rfc_tcp: tcp_header rfc793 tcp_valid
proof
  fix v assume v: "tcp_valid v"
  then have len: "20 \<le> length v" by (simp add: tcp_valid_def)
  show "\<exists>sp dp. tcp_source_port rfc793 v = Some sp \<and> tcp_destination_port rfc793 v = Some dp"
    using len get_at_total [of 0 2 v] get_at_total [of 2 2 v] by (auto simp: get16_def)
  show "\<exists>b. tcp_payload rfc793 v = Some b"
    using v by (simp add: rfc793_def tcp_valid_def)
  show "\<exists>s. tcp_calculate_checksum rfc793 v i = Some s" for i
    using v by (simp add: rfc793_calculate)
  show "\<exists>u. tcp_set_source_port rfc793 x v = Some u \<and> tcp_valid u \<and> length u = length v \<and>
      tcp_source_port rfc793 u = Some x \<and> tcp_destination_port rfc793 u = tcp_destination_port rfc793 v \<and>
      tcp_payload rfc793 u = tcp_payload rfc793 v" for x
    using put16_tcp [OF v, of 0 x] by auto
  show "\<exists>u. tcp_set_destination_port rfc793 x v = Some u \<and> tcp_valid u \<and> length u = length v \<and>
      tcp_destination_port rfc793 u = Some x \<and> tcp_source_port rfc793 u = tcp_source_port rfc793 v \<and>
      tcp_payload rfc793 u = tcp_payload rfc793 v" for x
    using put16_tcp [OF v, of 2 x] by auto
  show "\<exists>u. tcp_set_checksum rfc793 c v = Some u \<and> tcp_valid u \<and> length u = length v \<and>
      tcp_source_port rfc793 u = tcp_source_port rfc793 v \<and> tcp_destination_port rfc793 u = tcp_destination_port rfc793 v \<and>
      tcp_payload rfc793 u = tcp_payload rfc793 v" for c
    using put16_tcp [OF v, of 16 c] by auto
next
  fix v v0 c v1 i s
  assume v: "tcp_valid v" "tcp_set_checksum rfc793 0 v = Some v0" "tcp_set_checksum rfc793 c v = Some v1"
    "tcp_calculate_checksum rfc793 v0 i = Some s"
  then have q: "put16 16 0 v = Some v0" "put16 16 c v = Some v1" by simp_all
  have off: "tcp_off v0 = tcp_off v" "tcp_off v1 = tcp_off v" and val: "tcp_valid v0" "tcp_valid v1"
    using put16_tcp [OF v(1), of 16 0] put16_tcp [OF v(1), of 16 c] q by auto
  have "csum (take (tcp_off v) v1) i = ocadd (csum (take (tcp_off v) v0) i) c"
    using v(1) by (intro csum_put16 [OF _ _ _ q]) (auto simp: tcp_valid_def)
  then show "tcp_calculate_checksum rfc793 v1 i = Some (ocadd s c)"
    using v(4) off by (simp add: rfc793_calculate val)
next
  fix v c u d assume "tcp_valid v" "tcp_set_checksum rfc793 c v = Some u"
  then show "tcp_set_checksum rfc793 d u = tcp_set_checksum rfc793 d v"
    by (simp add: put16_def put_at_twice)
qed

section \<open>A session table that forgets\<close>

text \<open>
  The forwarder asks for entries that live 300 seconds and are refreshed by \<open>Get\<close>
  (\<open>cache.WithAge(300)\<close>, \<open>cache.WithUpdateAgeOnGet()\<close>).
\<close>

record timed_table =
  tt_now :: nat
  tt_map :: "peerKey \<rightharpoonup> peerValue \<times> nat"

definition tt_look :: "timed_table \<Rightarrow> peerKey \<Rightarrow> peerValue option" where
  "tt_look s k = (case tt_map s k of None \<Rightarrow> None | Some (v, expires) \<Rightarrow> if expires \<le> tt_now s then None else Some v)"

definition timed_lru :: "timed_table lru_ops" where
  "timed_lru = \<lparr>
     lru_get = (\<lambda>k s. case tt_look s k of
        None \<Rightarrow> (None, s\<lparr>tt_map := (tt_map s)(k := None)\<rparr>)
      | Some v \<Rightarrow> (Some v, s\<lparr>tt_map := (tt_map s)(k \<mapsto> (v, tt_now s + 300))\<rparr>)),
     lru_set = (\<lambda>k v s. s\<lparr>tt_map := (tt_map s)(k \<mapsto> (v, tt_now s + 300))\<rparr>),
     lru_delete = (\<lambda>k s. s\<lparr>tt_map := (tt_map s)(k := None)\<rparr>)\<rparr>"

interpretation timed: session_table timed_lru tt_look
  by standard (auto simp: timed_lru_def tt_look_def fun_eq_iff split: option.splits if_splits)

interpretation nat4: nat_forwarder4 rfc791 v4_valid 4 rfc793 tcp_valid rfc1071 timed_lru tt_look
  by unfold_locales

interpretation nat6: nat_forwarder rfc8200 v6_valid 16 rfc793 tcp_valid rfc1071 timed_lru tt_look
  by unfold_locales

end
