(* ===== verification/NatFlow.thy ===== *)
theory NatFlow
  imports WireRfc
begin

text \<open>
  What the TCP forwarder of \<open>nat/tcp.go\<close> achieves, over any header library and
  session table that keep the contracts of \<open>Wire\<close> and \<open>NatTcp\<close> (the hypothesis
  \<open>nat_forwarder4 \<dots>\<close> or \<open>nat_forwarder \<dots>\<close>): the address translation is undone on the
  way back, the accepted connection carries the application's own end points, and
  packets of unknown sessions go nowhere.
\<close>

section \<open>Accepting what a rewritten packet opened\<close>

lemma to4_mapped: "length ip = 4 \<Longrightarrow> to4 (replicate 10 0 @ [0xff, 0xff] @ ip) = Some ip"
  by (simp add: to4_def nth_append)

lemma to4_short: "length ip = 4 \<Longrightarrow> to4 ip = Some ip"
  by (simp add: to4_def)

lemma dispatch_known:
  assumes "session_table L look" and "(case to4 ip of Some ip4 \<Rightarrow> ip4 | None \<Rightarrow> ip) = server"
    and "look (tf_sessions t) \<lparr>destinationAddress = server, sourcePort = sp\<rparr> = Some v" "uint16_of port = sp"
  shows "\<exists>t'. dispatch L mk t (Accepted ip port) =
      (DispatchServed \<lparr>dst_address = mk (sourceAddress v), dst_port = sp, dst_network = Network_TCP\<rparr>
         \<lparr>dst_address = mk server, dst_port = destinationPort v, dst_network = Network_TCP\<rparr>
         \<lparr>destinationAddress = server, sourcePort = sp\<rparr>, t') \<and> look (tf_sessions t') = look (tf_sessions t)"
  using assms(2-4) session_table.get_look [OF assms(1), of "\<lparr>destinationAddress = server, sourcePort = sp\<rparr>" "tf_sessions t"]
  by (simp add: dispatch_def case_prod_beta Let_def)

lemma dispatch_unknown:
  assumes "session_table L look" and "(case to4 ip of Some ip4 \<Rightarrow> ip4 | None \<Rightarrow> ip) = server"
    and "look (tf_sessions t) \<lparr>destinationAddress = server, sourcePort = uint16_of port\<rparr> = None"
  shows "\<exists>t'. dispatch L mk t (Accepted ip port) = (DispatchDropped, t') \<and> look (tf_sessions t') = look (tf_sessions t)"
  using assms(2,3) session_table.get_look [OF assms(1), of "\<lparr>destinationAddress = server, sourcePort = uint16_of port\<rparr>" "tf_sessions t"]
  by (simp add: dispatch_def case_prod_beta Let_def)

section \<open>Lengths\<close>

lemma length_vlanClient4: "length vlanClient4 = 4"
  by (simp add: vlanClient4_def)

lemma length_vlanClient6: "length vlanClient6 = 16"
  by (simp add: vlanClient6_def)

lemma nat_forwarder4_ip: "nat_forwarder4 H valid alen T tvalid L look \<Longrightarrow> ip_header H valid alen"
  by (simp add: nat_forwarder4_def nat_forwarder_def nat_headers_def ip_window_def)

lemma nat_forwarder4_table: "nat_forwarder4 H valid alen T tvalid L look \<Longrightarrow> session_table L look"
  by (simp add: nat_forwarder4_def nat_forwarder_def)

lemma nat_forwarder_ip: "nat_forwarder H valid alen T tvalid L look \<Longrightarrow> ip_header H valid alen"
  by (simp add: nat_forwarder_def nat_headers_def ip_window_def)

lemma source_length:
  "ip_header H valid alen \<Longrightarrow> segment H valid tvalid w p \<Longrightarrow> flow H T w p src sp dst dp \<Longrightarrow> length src = alen"
  using ip_header.source_total [of H valid alen p] by (auto simp: segment_def flow_def)

section \<open>Sample packets\<close>

text \<open>
  10.0.0.2:50000 opens a connection to 93.184.216.34:80, and the forwarder, listening
  on port 8080, answers; the same over IPv6.
\<close>

definition tcp_sample :: "byte \<Rightarrow> byte \<Rightarrow> byte \<Rightarrow> byte \<Rightarrow> bytes" where
  "tcp_sample a b c d = [a, b, c, d, 0, 0, 0, 0, 0, 0, 0, 0, 0x50, 2, 0, 0, 0, 0, 0, 0]"

definition ip4_sample :: "bytes \<Rightarrow> bytes \<Rightarrow> bytes \<Rightarrow> bytes" where
  "ip4_sample src dst seg = [0x45, 0, 0, 40, 0, 0, 0, 0, 64, 6, 0, 0] @ src @ dst @ seg"

definition ip6_sample :: "bytes \<Rightarrow> bytes \<Rightarrow> bytes \<Rightarrow> bytes" where
  "ip6_sample src dst seg = [0x60, 0, 0, 0, 0, 20, 6, 64] @ src @ dst @ seg"

definition app4 :: bytes where "app4 = [10, 0, 0, 2]"
definition server4 :: bytes where "server4 = [93, 184, 216, 34]"
definition app6 :: bytes where "app6 = [0xfd, 0, 0, 0, 0, 0, 0, 0, 0, 0, 0, 0, 0, 0, 0, 2]"
definition server6 :: bytes where "server6 = [0x26, 0x06, 0x28, 0, 0x02, 0x20, 0, 1, 0x02, 0x48, 0x18, 0x93, 0x25, 0xc8, 0x19, 0x46]"
definition out_seg :: bytes where "out_seg = tcp_sample 0xC3 0x50 0 80"
definition back_seg :: bytes where "back_seg = tcp_sample 0x1F 0x90 0xC3 0x50"

definition fresh_forwarder :: "timed_table tcpForwarder" where
  "fresh_forwarder = \<lparr>tf_port = 8080, tf_sessions = \<lparr>tt_now = 0, tt_map = Map.empty\<rparr>\<rparr>"

lemmas sample_defs = tcp_sample_def ip4_sample_def ip6_sample_def app4_def server4_def app6_def server6_def
  out_seg_def back_seg_def fresh_forwarder_def vlanClient4_def vlanClient6_def

lemmas sample_eval = segment_def flow_def v4_valid_def v4_hl_def v4_tl_def v6_valid_def v6_pl_def
  tcp_valid_def tcp_off_def rfc791_def rfc8200_def rfc793_def get_at_def get16_def be16_def view_def tt_look_def

lemma sample4_ok:
  "segment rfc791 v4_valid tcp_valid (20, 20) (ip4_sample app4 server4 out_seg)"
  "flow rfc791 rfc793 (20, 20) (ip4_sample app4 server4 out_seg) app4 50000 server4 80"
  "segment rfc791 v4_valid tcp_valid (20, 20) (ip4_sample vlanClient4 server4 back_seg)"
  "flow rfc791 rfc793 (20, 20) (ip4_sample vlanClient4 server4 back_seg) vlanClient4 (tf_port fresh_forwarder) server4 50000"
  by (simp_all add: sample_defs sample_eval)

lemma sample6_ok:
  "segment rfc8200 v6_valid tcp_valid (40, 20) (ip6_sample app6 server6 out_seg)"
  "flow rfc8200 rfc793 (40, 20) (ip6_sample app6 server6 out_seg) app6 50000 server6 80"
  "segment rfc8200 v6_valid tcp_valid (40, 20) (ip6_sample vlanClient6 server6 back_seg)"
  "flow rfc8200 rfc793 (40, 20) (ip6_sample vlanClient6 server6 back_seg) vlanClient6 (tf_port fresh_forwarder) server6 50000"
  by (simp_all add: sample_defs sample_eval)

lemma fresh_forwarder_ok:
  "50000 \<noteq> tf_port fresh_forwarder" "tt_look (tf_sessions fresh_forwarder) k = None"
  by (simp_all add: fresh_forwarder_def tt_look_def)

section \<open>Properties\<close>

text \<open>
  C5.  IPv4 address translation is a round trip: a packet application:sp to server:dp
  of a new flow leaves as server:sp to the forwarder's address and port, and the
  forwarder's answer to server:sp comes back to the application as server:dp to
  application:sp; in both directions the header and the TCP checksums verify.
\<close>

theorem processIPv4_round_trip:
  assumes env: "nat_forwarder4 H valid 4 T tvalid L look"
    and p: "segment H valid tvalid w p" "flow H T w p app sp server dp"
    and new: "sp \<noteq> tf_port t" "look (tf_sessions t) \<lparr>destinationAddress = server, sourcePort = sp\<rparr> = None"
    and r: "segment H valid tvalid u r" "flow H T u r vlanClient4 (tf_port t) server sp"
  shows "\<exists>q t' r' t''. processIPv4 L H T C t p w = Some (Some q, t') \<and>
     flow H T w q server sp vlanClient4 (tf_port t) \<and>
     ip4_calculate_checksum H q = Some 0xFFFF \<and> tcp_sum_ok H T C w q \<and>
     processIPv4 L H T C t' r u = Some (Some r', t'') \<and> flow H T u r' server dp app sp \<and>
     ip4_calculate_checksum H r' = Some 0xFFFF \<and> tcp_sum_ok H T C u r'"
proof -
  have len: "length app = 4"
    using source_length [OF nat_forwarder4_ip [OF env] p] .
  obtain q t' where q: "processIPv4 L H T C t p w = Some (Some q, t')" "tf_port t' = tf_port t"
      "flow H T w q server sp vlanClient4 (tf_port t)" "tcp_sum_ok H T C w q" "ip4_calculate_checksum H q = Some 0xFFFF"
      "look (tf_sessions t') \<lparr>destinationAddress = server, sourcePort = sp\<rparr> = Some \<lparr>sourceAddress = app, destinationPort = dp\<rparr>"
    using nat_forwarder4.out4 [OF env p new(1) length_vlanClient4, of C] new(2) by auto
  with nat_forwarder4.in4 [OF env r(1) _ q(6), of vlanClient4 C] r(2) len show ?thesis
    by auto
qed

theorem processIPv4_round_trip_witness:
  "\<exists>q t' r' t''. processIPv4 timed_lru rfc791 rfc793 rfc1071 fresh_forwarder (ip4_sample app4 server4 out_seg) (20, 20)
       = Some (Some q, t') \<and> flow rfc791 rfc793 (20, 20) q server4 50000 vlanClient4 (tf_port fresh_forwarder) \<and>
     ip4_calculate_checksum rfc791 q = Some 0xFFFF \<and> tcp_sum_ok rfc791 rfc793 rfc1071 (20, 20) q \<and>
     processIPv4 timed_lru rfc791 rfc793 rfc1071 t' (ip4_sample vlanClient4 server4 back_seg) (20, 20)
       = Some (Some r', t'') \<and> flow rfc791 rfc793 (20, 20) r' server4 80 app4 50000 \<and>
     ip4_calculate_checksum rfc791 r' = Some 0xFFFF \<and> tcp_sum_ok rfc791 rfc793 rfc1071 (20, 20) r'"
  by (rule processIPv4_round_trip [OF nat4.nat_forwarder4_axioms sample4_ok(1,2) fresh_forwarder_ok sample4_ok(3,4)])

text \<open>
  The same round trip over IPv6, where only the TCP checksum is rewritten.
\<close>

theorem processIPv6_round_trip:
  assumes env: "nat_forwarder H valid 16 T tvalid L look"
    and p: "segment H valid tvalid w p" "flow H T w p app sp server dp"
    and new: "sp \<noteq> tf_port t" "look (tf_sessions t) \<lparr>destinationAddress = server, sourcePort = sp\<rparr> = None"
    and r: "segment H valid tvalid u r" "flow H T u r vlanClient6 (tf_port t) server sp"
  shows "\<exists>q t' r' t''. processIPv6 L H T C t p w = Some (Some q, t') \<and>
     flow H T w q server sp vlanClient6 (tf_port t) \<and> tcp_sum_ok H T C w q \<and>
     processIPv6 L H T C t' r u = Some (Some r', t'') \<and> flow H T u r' server dp app sp \<and>
     tcp_sum_ok H T C u r'"
proof -
  have len: "length app = 16"
    using source_length [OF nat_forwarder_ip [OF env] p] .
  obtain q t' where q: "processIPv6 L H T C t p w = Some (Some q, t')" "tf_port t' = tf_port t"
      "flow H T w q server sp vlanClient6 (tf_port t)" "tcp_sum_ok H T C w q"
      "look (tf_sessions t') \<lparr>destinationAddress = server, sourcePort = sp\<rparr> = Some \<lparr>sourceAddress = app, destinationPort = dp\<rparr>"
    using nat_forwarder.out6 [OF env p new(1) length_vlanClient6, of C] new(2) by auto
  with nat_forwarder.in6 [OF env r(1) _ q(5), of vlanClient6 C] r(2) len show ?thesis
    by auto
qed

theorem processIPv6_round_trip_witness:
  "\<exists>q t' r' t''. processIPv6 timed_lru rfc8200 rfc793 rfc1071 fresh_forwarder (ip6_sample app6 server6 out_seg) (40, 20)
       = Some (Some q, t') \<and> flow rfc8200 rfc793 (40, 20) q server6 50000 vlanClient6 (tf_port fresh_forwarder) \<and>
     tcp_sum_ok rfc8200 rfc793 rfc1071 (40, 20) q \<and>
     processIPv6 timed_lru rfc8200 rfc793 rfc1071 t' (ip6_sample vlanClient6 server6 back_seg) (40, 20)
       = Some (Some r', t'') \<and> flow rfc8200 rfc793 (40, 20) r' server6 80 app6 50000 \<and>
     tcp_sum_ok rfc8200 rfc793 rfc1071 (40, 20) r'"
  by (rule processIPv6_round_trip [OF nat6.nat_forwarder_axioms sample6_ok(1,2) fresh_forwarder_ok sample6_ok(3,4)])

text \<open>
  The connection the listener accepts because of a rewritten packet (its remote
  end is server:sp, as four bytes or in the IPv4-mapped form) is handed on with the
  application as source and server:dp as destination.
\<close>

theorem accepted_connection_restores_flow:
  assumes env: "nat_forwarder4 H valid 4 T tvalid L look"
    and p: "segment H valid tvalid w p" "flow H T w p app sp server dp"
    and new: "sp \<noteq> tf_port t" "look (tf_sessions t) \<lparr>destinationAddress = server, sourcePort = sp\<rparr> = None"
    and remote: "ip = server \<or> ip = replicate 10 0 @ [0xff, 0xff] @ server"
  shows "\<exists>q t' t''. processIPv4 L H T C t p w = Some (Some q, t') \<and>
     dispatch L mk t' (Accepted ip (uint sp)) =
       (DispatchServed \<lparr>dst_address = mk app, dst_port = sp, dst_network = Network_TCP\<rparr>
          \<lparr>dst_address = mk server, dst_port = dp, dst_network = Network_TCP\<rparr>
          \<lparr>destinationAddress = server, sourcePort = sp\<rparr>, t'')"
proof -
  have "length server = 4"
    using p ip_header.destination_total [OF nat_forwarder4_ip [OF env], of p] by (auto simp: segment_def flow_def)
  then have ip: "(case to4 ip of Some ip4 \<Rightarrow> ip4 | None \<Rightarrow> ip) = server"
    using remote to4_short [of server] to4_mapped [of server] by auto
  obtain q t' where q: "processIPv4 L H T C t p w = Some (Some q, t')"
      "look (tf_sessions t') \<lparr>destinationAddress = server, sourcePort = sp\<rparr> = Some \<lparr>sourceAddress = app, destinationPort = dp\<rparr>"
    using nat_forwarder4.out4 [OF env p new(1) length_vlanClient4, of C] new(2) by auto
  with dispatch_known [OF nat_forwarder4_table [OF env] ip q(2), of "uint sp" mk] show ?thesis
    by (auto simp: uint16_of_def)
qed

theorem accepted_connection_restores_flow_witness:
  "\<exists>q t' t''. processIPv4 timed_lru rfc791 rfc793 rfc1071 fresh_forwarder (ip4_sample app4 server4 out_seg) (20, 20)
       = Some (Some q, t') \<and>
     dispatch timed_lru (\<lambda>b. \<lparr>addr_family = FamilyIPv4, addr_ip = Some b, addr_domain = panic, addr_string = []\<rparr>) t'
        (Accepted (replicate 10 0 @ [0xff, 0xff] @ server4) (uint (50000 :: u16))) =
       (DispatchServed
          \<lparr>dst_address = \<lparr>addr_family = FamilyIPv4, addr_ip = Some app4, addr_domain = panic, addr_string = []\<rparr>,
           dst_port = 50000, dst_network = Network_TCP\<rparr>
          \<lparr>dst_address = \<lparr>addr_family = FamilyIPv4, addr_ip = Some server4, addr_domain = panic, addr_string = []\<rparr>,
           dst_port = 80, dst_network = Network_TCP\<rparr>
          \<lparr>destinationAddress = server4, sourcePort = 50000\<rparr>, t'')"
  by (rule accepted_connection_restores_flow
       [OF nat4.nat_forwarder4_axioms sample4_ok(1,2) fresh_forwarder_ok disjI2 [OF refl]])

text \<open>
  A session is never overwritten while it lives: a second flow to the same server
  from the same source port, whatever its own destination port or application
  address, leaves the table as it is, and the connection it opens is handed on with
  the end points of the first flow.
\<close>

theorem first_session_wins:
  assumes env: "nat_forwarder4 H valid 4 T tvalid L look"
    and p: "segment H valid tvalid w p" "flow H T w p app sp server dp" "sp \<noteq> tf_port t"
    and old: "look (tf_sessions t) \<lparr>destinationAddress = server, sourcePort = sp\<rparr> = Some old"
  shows "\<exists>q t' t''. processIPv4 L H T C t p w = Some (Some q, t') \<and> look (tf_sessions t') = look (tf_sessions t) \<and>
     dispatch L mk t' (Accepted server (uint sp)) =
       (DispatchServed \<lparr>dst_address = mk (sourceAddress old), dst_port = sp, dst_network = Network_TCP\<rparr>
          \<lparr>dst_address = mk server, dst_port = destinationPort old, dst_network = Network_TCP\<rparr>
          \<lparr>destinationAddress = server, sourcePort = sp\<rparr>, t'')"
proof -
  have "length server = 4"
    using p ip_header.destination_total [OF nat_forwarder4_ip [OF env], of p] by (auto simp: segment_def flow_def)
  then have ip: "(case to4 server of Some ip4 \<Rightarrow> ip4 | None \<Rightarrow> server) = server"
    using to4_short [of server] by auto
  obtain q t' where q: "processIPv4 L H T C t p w = Some (Some q, t')" "look (tf_sessions t') = look (tf_sessions t)"
    using nat_forwarder4.out4 [OF env p length_vlanClient4, of C] old by (auto simp: fun_upd_idem)
  with dispatch_known [OF nat_forwarder4_table [OF env] ip, of t' sp old "uint sp" mk] old show ?thesis
    by (auto simp: uint16_of_def)
qed

text \<open>The first flow went to port 443, the second one asks for port 80 and is sent to 443.\<close>

definition busy_forwarder :: "timed_table tcpForwarder" where
  "busy_forwarder = \<lparr>tf_port = 8080, tf_sessions = \<lparr>tt_now = 0, tt_map =
     [\<lparr>destinationAddress = server4, sourcePort = 50000\<rparr> \<mapsto> (\<lparr>sourceAddress = app4, destinationPort = 443\<rparr>, 300)]\<rparr>\<rparr>"

theorem first_session_wins_witness:
  "\<exists>q t' t''. processIPv4 timed_lru rfc791 rfc793 rfc1071 busy_forwarder (ip4_sample app4 server4 out_seg) (20, 20)
       = Some (Some q, t') \<and> tt_look (tf_sessions t') = tt_look (tf_sessions busy_forwarder) \<and>
     dispatch timed_lru (\<lambda>b. \<lparr>addr_family = FamilyIPv4, addr_ip = Some b, addr_domain = panic, addr_string = []\<rparr>) t'
        (Accepted server4 (uint (50000 :: u16))) =
       (DispatchServed
          \<lparr>dst_address = \<lparr>addr_family = FamilyIPv4, addr_ip = Some (sourceAddress \<lparr>sourceAddress = app4, destinationPort = 443\<rparr>),
             addr_domain = panic, addr_string = []\<rparr>, dst_port = 50000, dst_network = Network_TCP\<rparr>
          \<lparr>dst_address = \<lparr>addr_family = FamilyIPv4, addr_ip = Some server4, addr_domain = panic, addr_string = []\<rparr>,
           dst_port = destinationPort \<lparr>sourceAddress = app4, destinationPort = 443\<rparr>, dst_network = Network_TCP\<rparr>
          \<lparr>destinationAddress = server4, sourcePort = 50000\<rparr>, t'')"
  by (rule first_session_wins [OF nat4.nat_forwarder4_axioms sample4_ok(1,2)])
     (simp_all add: busy_forwarder_def tt_look_def)

text \<open>
  An answer of the forwarder to a session it does not know is dropped: nothing is
  written to the device and the table keeps its content, on IPv4 and on IPv6.
\<close>

theorem unknown_session_dropped:
  assumes "nat_forwarder4 H4 valid4 4 T tvalid L look" "segment H4 valid4 tvalid w p"
      "flow H4 T w p src (tf_port t) dst dp"
      "look (tf_sessions t) \<lparr>destinationAddress = dst, sourcePort = dp\<rparr> = None"
    and "nat_forwarder H6 valid6 16 T tvalid L look" "segment H6 valid6 tvalid w6 p6"
      "flow H6 T w6 p6 src6 (tf_port t) dst6 dp6"
      "look (tf_sessions t) \<lparr>destinationAddress = dst6, sourcePort = dp6\<rparr> = None"
  shows "(\<exists>t'. processIPv4 L H4 T C t p w = Some (None, t') \<and> look (tf_sessions t') = look (tf_sessions t)) \<and>
     (\<exists>t'. processIPv6 L H6 T C t p6 w6 = Some (None, t') \<and> look (tf_sessions t') = look (tf_sessions t))"
  using nat_forwarder4.unknown4 [OF assms(1-4), of C] nat_forwarder.unknown6 [OF assms(5-8), of C] by blast

theorem unknown_session_dropped_witness:
  "(\<exists>t'. processIPv4 timed_lru rfc791 rfc793 rfc1071 fresh_forwarder (ip4_sample vlanClient4 server4 back_seg) (20, 20)
        = Some (None, t') \<and> tt_look (tf_sessions t') = tt_look (tf_sessions fresh_forwarder)) \<and>
   (\<exists>t'. processIPv6 timed_lru rfc8200 rfc793 rfc1071 fresh_forwarder (ip6_sample vlanClient6 server6 back_seg) (40, 20)
        = Some (None, t') \<and> tt_look (tf_sessions t') = tt_look (tf_sessions fresh_forwarder))"
  by (rule unknown_session_dropped [OF nat4.nat_forwarder4_axioms sample4_ok(3,4) fresh_forwarder_ok(2)
        nat6.nat_forwarder_axioms sample6_ok(3,4) fresh_forwarder_ok(2)])

section \<open>The accept loop\<close>

text \<open>What the loop should do, without a table to refresh: \<open>table\<close> is a fixed map.\<close>

fun served_spec :: "(bytes \<Rightarrow> address) \<Rightarrow> (peerKey \<rightharpoonup> peerValue) \<Rightarrow> accept list \<Rightarrow> (destination \<times> destination) list" where
  "served_spec mk table [] = []"
| "served_spec mk table (AcceptError _ # as) = []"
| "served_spec mk table (Accepted ip port # as) =
     (let server = (case to4 ip of Some ip4 \<Rightarrow> ip4 | None \<Rightarrow> ip); sp = uint16_of port
      in case table \<lparr>destinationAddress = server, sourcePort = sp\<rparr> of
           None \<Rightarrow> served_spec mk table as
         | Some v \<Rightarrow> (\<lparr>dst_address = mk (sourceAddress v), dst_port = sp, dst_network = Network_TCP\<rparr>,
               \<lparr>dst_address = mk server, dst_port = destinationPort v, dst_network = Network_TCP\<rparr>)
             # served_spec mk table as)"

fun loop_end_spec :: "accept list \<Rightarrow> loop_end" where
  "loop_end_spec [] = StillAccepting"
| "loop_end_spec (AcceptError closed # as) = (if closed then ListenerClosed else ClosedAndReported)"
| "loop_end_spec (Accepted _ _ # as) = loop_end_spec as"



end
