(* ===== verification/TcpPath.thy ===== *)
theory TcpPath
  imports NatFlow TunAttr AppStats
begin

text \<open>
  A TCP connection through the system tun, composed of the components it passes: the first
  packet is rewritten to the listener (\<open>NatTcp\<close>), the kernel opens the connection the
  rewritten packet asks for, the accept loop restores its end points, \<open>NewConnection\<close> finds
  the owner (\<open>TunAttr\<close>), counts the bytes while the core relays them, and the application
  reads the counters (\<open>AppStats\<close>).
\<close>

section \<open>The pieces, put together\<close>

text \<open>
  The accounting of \<open>NewConnection\<close>: the counters of the owner are found or made, the
  connection is counted and listed while \<open>DispatchConn\<close> runs, which moves the bytes \<open>ts\<close>,
  and the deferred function takes it out.
\<close>

definition NewConnection_counted :: "flow_request \<Rightarrow> nat \<Rightarrow> traffic list \<Rightarrow> int \<Rightarrow> stats_table \<Rightarrow> stats_table" where
  "NewConnection_counted rq conn ts now s =
     (case counted_as rq of
        None \<Rightarrow> s
      | Some uid \<Rightarrow>
          (let (a, s) = acquire_stats uid s;
               st = close_tcp now conn (snd (account uid ts (open_tcp conn (store s a))))
           in s\<lparr>store := (store s)(a := st)\<rparr>))"

text \<open>The lookup runs only when somebody asks for the owner.\<close>

record owner_env =
  oe_procfs :: bool
  oe_from_proc :: "destination \<Rightarrow> int go"
  oe_ip_text :: "bytes \<Rightarrow> string"
  oe_dumper :: "int \<Rightarrow> string \<Rightarrow> int \<Rightarrow> string \<Rightarrow> int \<Rightarrow> unit + int"
  oe_getuid :: int

definition owner_of_flow :: "tun2ray \<Rightarrow> owner_env \<Rightarrow> destination \<Rightarrow> destination \<Rightarrow> (unit + int) go" where
  "owner_of_flow tun W source dest =
     (if dumps_uid tun \<or> trafficStats tun
      then dumpUid (oe_procfs W) (oe_from_proc W) (oe_ip_text W) (oe_dumper W) source dest
      else Some (Inl ()))"

text \<open>
  From the packet \<open>p\<close> to the closed connection.  The kernel is a TCP stack: the connection it
  accepts has the source of the rewritten packet as its remote end.  The inner \<open>None\<close> is a
  packet or connection that is dropped.
\<close>

definition tcp_session :: "'s lru_ops \<Rightarrow> ip4_ops \<Rightarrow> tcp_ops \<Rightarrow> csum_ops \<Rightarrow> (bytes \<Rightarrow> address) \<Rightarrow> tun2ray \<Rightarrow> owner_env
    \<Rightarrow> 's tcpForwarder \<Rightarrow> bytes \<Rightarrow> window \<Rightarrow> nat \<Rightarrow> traffic list \<Rightarrow> int \<Rightarrow> stats_table
    \<Rightarrow> (bytes \<times> flow_request \<times> destination \<times> stats_table) option go" where
  "tcp_session L H T C mk tun W t p w conn ts now s = do {
     (q, t) \<leftarrow> processIPv4 L H T C t p w;
     (case q of
        None \<Rightarrow> Some None
      | Some q \<Rightarrow> do {
          ip \<leftarrow> ip_source H q;
          port \<leftarrow> tcp_source_port T (view w q);
          (case dispatch L mk t (Accepted ip (uint port)) of
             (DispatchServed source dest key, t) \<Rightarrow> do {
               r \<leftarrow> owner_of_flow tun W source dest;
               let rq = NewConnection_request tun (oe_getuid W) r source dest;
               Some (Some (q, rq, dest, NewConnection_counted rq conn ts now s))
             }
           | _ \<Rightarrow> Some None)
        })
   }"

section \<open>What the application reads afterwards\<close>

lemma account_opened:
  assumes "Report \<notin> set ts"
  shows "fst (account uid ts st) = []" "uplink (snd (account uid ts st)) = uplink st + of_nat (bytes_up ts)"
    "downlink (snd (account uid ts st)) = downlink st + of_nat (bytes_down ts)"
    "tcpConn (snd (account uid ts st)) = tcpConn st" "udpConn (snd (account uid ts st)) = udpConn st"
    "tcpConnTotal (snd (account uid ts st)) = tcpConnTotal st" "connections (snd (account uid ts st)) = connections st"
proof -
  show rep: "fst (account uid ts st) = []"
    using assms by (induction uid ts st rule: account.induct) simp_all
  show "uplink (snd (account uid ts st)) = uplink st + of_nat (bytes_up ts)"
    using account_up [of uid ts st] rep by (simp add: reported_up_def)
  show "downlink (snd (account uid ts st)) = downlink st + of_nat (bytes_down ts)"
    using account_down [of uid ts st] rep by (simp add: reported_down_def)
  show "tcpConn (snd (account uid ts st)) = tcpConn st" "udpConn (snd (account uid ts st)) = udpConn st"
    "tcpConnTotal (snd (account uid ts st)) = tcpConnTotal st" "connections (snd (account uid ts st)) = connections st"
    using assms by (induction uid ts st rule: account.induct) (simp_all add: stats_conn_read_def stats_conn_write_def)
qed

text \<open>A counted connection of an application without counters, when it is closed.\<close>

lemma counted_then_read:
  assumes "counted_as rq = Some uid" "uids s uid = None" "stats_on s" "Report \<notin> set ts"
  shows "\<exists>e. fst (ReadAppTraffics [uid] (NewConnection_counted rq conn ts now s)) = [e] \<and> ex_Uid e = uint uid \<and>
     word_of_int (ex_Uplink e) = (of_nat (bytes_up ts) :: u64) \<and> word_of_int (ex_Downlink e) = (of_nat (bytes_down ts) :: u64) \<and>
     ex_TcpConn e = 0 \<and> ex_TcpConnTotal e = 1 \<and> ex_DeactivateAt e = int32_of now"
  using assms account_opened [OF assms(4), of uid "open_tcp conn zero_stats"]
  by (simp add: NewConnection_counted_def acquire_stats_def ReadAppTraffics_def export_stats_def close_tcp_def close_tcp_test_def
      close_mark_def close_unlist_def Let_def) (simp add: open_tcp_def zero_stats_def)

section \<open>Property\<close>

text \<open>
  C4.  A TCP connection through the program.  An application's first packet to server:dp ends in a
  connection to server:dp that carries the application's own end point, uid and the tag of
  the tun; when the connection is over, the application's counters show the bytes that went
  each way, one connection in total and none open.
\<close>

theorem tcp_session_accounted:
  assumes env: "nat_forwarder4 H valid 4 T tvalid L look"
    and p: "segment H valid tvalid w p" "flow H T w p app sp server dp"
    and new: "sp \<noteq> tf_port t" "look (tf_sessions t) \<lparr>destinationAddress = server, sourcePort = sp\<rparr> = None"
    and source: "source = \<lparr>dst_address = mk app, dst_port = sp, dst_network = Network_TCP\<rparr>"
    and dest: "dest = \<lparr>dst_address = mk server, dst_port = dp, dst_network = Network_TCP\<rparr>"
    and owner: "dumpUid (oe_procfs W) (oe_from_proc W) (oe_ip_text W) (oe_dumper W) source dest = Some (Inr u)"
      "10000 \<le> u" "u < 65536" "u \<noteq> oe_getuid W"
    and tun: "trafficStats tun" "addr_string (mk server) \<noteq> router tun"
    and stats: "stats_on s" "uids s (uint16_of u) = None" "Report \<notin> set ts"
  shows "\<exists>q rq s' e. tcp_session L H T C mk tun W t p w conn ts now s = Some (Some (q, rq, dest, s')) \<and>
     flow H T w q server sp vlanClient4 (tf_port t) \<and>
     inbound_source rq = source \<and> inbound_tag rq = ''tun'' \<and> inbound_uid rq = u \<and>
     fst (ReadAppTraffics [uint16_of u] s') = [e] \<and> ex_Uid e = u \<and>
     word_of_int (ex_Uplink e) = (of_nat (bytes_up ts) :: u64) \<and> word_of_int (ex_Downlink e) = (of_nat (bytes_down ts) :: u64) \<and>
     ex_TcpConn e = 0 \<and> ex_TcpConnTotal e = 1 \<and> ex_DeactivateAt e = int32_of now"
proof -
  have "length server = 4"
    using p ip_header.destination_total [OF nat_forwarder4_ip [OF env], of p] by (auto simp: segment_def flow_def)
  then have ip: "(case to4 server of Some ip4 \<Rightarrow> ip4 | None \<Rightarrow> server) = server"
    using to4_short [of server] by simp
  obtain q t' where q: "processIPv4 L H T C t p w = Some (Some q, t')" "flow H T w q server sp vlanClient4 (tf_port t)"
      "look (tf_sessions t') \<lparr>destinationAddress = server, sourcePort = sp\<rparr> = Some \<lparr>sourceAddress = app, destinationPort = dp\<rparr>"
    using nat_forwarder4.out4 [OF env p new(1) length_vlanClient4, of C] new(2) by auto
  obtain t'' where d: "dispatch L mk t' (Accepted server (uint sp)) =
      (DispatchServed source dest \<lparr>destinationAddress = server, sourcePort = sp\<rparr>, t'')"
    using dispatch_known [OF nat_forwarder4_table [OF env] ip q(3), of "uint sp" mk] by (auto simp: uint16_of_def source dest)
  let ?rq = "NewConnection_request tun (oe_getuid W) (Inr u) source dest"
  have uid: "uint (uint16_of u) = u" "u mod 65536 = u"
    using owner(2,3) by (simp_all add: uint_uint16_of)
  then have own: "connection_owner (oe_getuid W) (Inr u) = (uint16_of u, False)"
    using owner(2,4) uint_connection_owner [of "oe_getuid W" u] connection_self [of "oe_getuid W" u]
    by (simp add: prod_eq_iff uint_eq_iff)
  have rq: "inbound_source ?rq = source" "inbound_tag ?rq = ''tun''" "inbound_uid ?rq = u" "counted_as ?rq = Some (uint16_of u)"
    using own tun uid by (simp_all add: NewConnection_request_def flow_request_of_def dest Let_def)
  have "tcp_session L H T C mk tun W t p w conn ts now s = Some (Some (q, ?rq, dest, NewConnection_counted ?rq conn ts now s))"
    using q(2) owner(1) tun(1) by (simp add: tcp_session_def q(1) flow_def d owner_of_flow_def Let_def)
  with q(2) rq(1-3) counted_then_read [OF rq(4) stats(2,1,3), of conn now] uid(1) show ?thesis
    by fastforce
qed

text \<open>An application that sends 100 bytes and gets 5000 in two parts.\<close>

definition plain_ip :: "bytes \<Rightarrow> address" where
  "plain_ip b = \<lparr>addr_family = FamilyIPv4, addr_ip = Some b, addr_domain = panic, addr_string = []\<rparr>"

definition test_owner :: owner_env where
  "test_owner = \<lparr>oe_procfs = False, oe_from_proc = (\<lambda>_. None), oe_ip_text = (\<lambda>_. []), oe_dumper = (\<lambda>_ _ _ _ _. Inr 10123), oe_getuid = 10050\<rparr>"

definition no_stats :: stats_table where
  "no_stats = \<lparr>stats_on = True, uids = Map.empty, store = (\<lambda>_. zero_stats), used = 0\<rparr>"

theorem tcp_session_accounted_witness:
  "\<exists>q rq s' e. tcp_session timed_lru rfc791 rfc793 rfc1071 plain_ip sample_tun test_owner fresh_forwarder (ip4_sample app4 server4 out_seg) (20, 20)
       1 [Up 100, Down 2000, Down 3000] 1700000000 no_stats =
     Some (Some (q, rq, \<lparr>dst_address = plain_ip server4, dst_port = 80, dst_network = Network_TCP\<rparr>, s')) \<and>
     fst (ReadAppTraffics [10123] s') = [e] \<and> word_of_int (ex_Uplink e) = (100 :: u64) \<and> word_of_int (ex_Downlink e) = (5000 :: u64)"
proof -
  have "dumpUid (oe_procfs test_owner) (oe_from_proc test_owner) (oe_ip_text test_owner) (oe_dumper test_owner)
      \<lparr>dst_address = plain_ip app4, dst_port = 50000, dst_network = Network_TCP\<rparr>
      \<lparr>dst_address = plain_ip server4, dst_port = 80, dst_network = Network_TCP\<rparr> = Some (Inr 10123)"
    by (simp add: dumpUid_def test_owner_def plain_ip_def)
  moreover have "(10000 :: int) \<le> 10123" "(10123 :: int) < 65536" "10123 \<noteq> oe_getuid test_owner" "trafficStats sample_tun"
    "addr_string (plain_ip server4) \<noteq> router sample_tun" "stats_on no_stats" "uids no_stats (uint16_of 10123) = None"
    "Report \<notin> set [Up 100, Down 2000, Down 3000]" "uint16_of 10123 = 10123"
    by (simp_all add: test_owner_def sample_tun_def plain_ip_def no_stats_def uint16_of_def)
  ultimately have "\<exists>q rq s' e. tcp_session timed_lru rfc791 rfc793 rfc1071 plain_ip sample_tun test_owner fresh_forwarder
       (ip4_sample app4 server4 out_seg) (20, 20) 1 [Up 100, Down 2000, Down 3000] 1700000000 no_stats =
     Some (Some (q, rq, \<lparr>dst_address = plain_ip server4, dst_port = 80, dst_network = Network_TCP\<rparr>, s')) \<and>
     fst (ReadAppTraffics [10123] s') = [e] \<and> word_of_int (ex_Uplink e) = (of_nat (bytes_up [Up 100, Down 2000, Down 3000]) :: u64) \<and>
     word_of_int (ex_Downlink e) = (of_nat (bytes_down [Up 100, Down 2000, Down 3000]) :: u64)"
    using tcp_session_accounted [OF nat4.nat_forwarder4_axioms sample4_ok(1,2) fresh_forwarder_ok refl refl, where tun = sample_tun
      and s = no_stats and ts = "[Up 100, Down 2000, Down 3000]" and conn = 1 and now = 1700000000 and C = rfc1071 and u = 10123
      and W = test_owner and mk = plain_ip] by metis
  then show ?thesis by simp
qed

end
