(* ===== verification/NatUdp.thy ===== *)
theory NatUdp
  imports WireRfc
begin

text \<open>
  \<open>nat/udp.go\<close>: a UDP packet of an application is handed to \<open>NewPacket\<close> with the payload,
  and with a function that builds each answer from a copy of the packet's own headers (the
  template kept in \<open>headerCache\<close>, restored after every answer) and writes it to the device.
\<close>

section \<open>Interface\<close>

text \<open>\<open>header.UDP\<close>, an eight-byte slice for the operations used here.\<close>

record udp_ops =
  udp_source_port :: "bytes \<Rightarrow> u16 go"
  udp_destination_port :: "bytes \<Rightarrow> u16 go"
  udp_length :: "bytes \<Rightarrow> u16 go"
  udp_set_source_port :: "u16 \<Rightarrow> bytes \<Rightarrow> bytes go"
  udp_set_destination_port :: "u16 \<Rightarrow> bytes \<Rightarrow> bytes go"
  udp_set_length :: "u16 \<Rightarrow> bytes \<Rightarrow> bytes go"
  udp_set_checksum :: "u16 \<Rightarrow> bytes \<Rightarrow> bytes go"
  udp_calculate_checksum :: "bytes \<Rightarrow> u16 \<Rightarrow> u16 go"

definition UDPProtocolNumber :: byte where "UDPProtocolNumber = 17"
definition UDPMinimumSize :: nat where "UDPMinimumSize = 8"

locale udp_header =
  fixes U :: "'m udp_ops_scheme" and uvalid :: "bytes \<Rightarrow> bool"
  assumes udp_total: "uvalid v \<Longrightarrow> \<exists>sp dp n. udp_source_port U v = Some sp \<and> udp_destination_port U v = Some dp \<and> udp_length U v = Some n"
    and set_source_port: "uvalid v \<Longrightarrow>
      \<exists>u. udp_set_source_port U x v = Some u \<and> uvalid u \<and> length u = length v \<and> udp_source_port U u = Some x \<and>
        udp_destination_port U u = udp_destination_port U v \<and> udp_length U u = udp_length U v"
    and set_destination_port_ok: "uvalid v \<Longrightarrow>
      \<exists>u. udp_set_destination_port U x v = Some u \<and> uvalid u \<and> length u = length v \<and> udp_destination_port U u = Some x \<and>
        udp_source_port U u = udp_source_port U v \<and> udp_length U u = udp_length U v \<and>
        drop UDPMinimumSize u = drop UDPMinimumSize v"
    and set_length: "uvalid v \<Longrightarrow>
      \<exists>u. udp_set_length U x v = Some u \<and> uvalid u \<and> length u = length v \<and> udp_length U u = Some x \<and>
        udp_source_port U u = udp_source_port U v \<and> udp_destination_port U u = udp_destination_port U v"
    and set_udp_checksum: "uvalid v \<Longrightarrow>
      \<exists>u. udp_set_checksum U c v = Some u \<and> uvalid u \<and> length u = length v \<and> udp_length U u = udp_length U v \<and>
        udp_source_port U u = udp_source_port U v \<and> udp_destination_port U u = udp_destination_port U v"
    and udp_calculate: "uvalid v \<Longrightarrow> \<exists>s. udp_calculate_checksum U v i = Some s"
    and udp_calculate_set: "uvalid v \<Longrightarrow> udp_set_checksum U 0 v = Some v0 \<Longrightarrow> udp_set_checksum U c v = Some v1 \<Longrightarrow>
      udp_calculate_checksum U v0 i = Some s \<Longrightarrow> udp_calculate_checksum U v1 i = Some (ocadd s c)"
    and udp_set_set: "uvalid v \<Longrightarrow> udp_set_checksum U c v = Some u \<Longrightarrow> udp_set_checksum U d u = udp_set_checksum U d v"

section \<open>The handlers\<close>

text \<open>The last eight bytes of the new header, \<open>headerCache.BytesFrom(headerCache.Len() - 8)\<close>.\<close>

definition udp_window :: "bytes \<Rightarrow> window" where
  "udp_window p = (length p - UDPMinimumSize, UDPMinimumSize)"

text \<open>The UDP part of the answer, the same for both versions: port, length, checksum.\<close>

definition udp_fill :: "'u udp_ops_scheme \<Rightarrow> csum_ops \<Rightarrow> u16 \<Rightarrow> bytes \<Rightarrow> bytes \<Rightarrow> bytes \<Rightarrow> window \<Rightarrow> bytes \<Rightarrow> bytes go" where
  "udp_fill U C port src dst payload w p = do {
     let n = word_of_nat (UDPMinimumSize + length payload);
     p \<leftarrow> on_window w (udp_set_source_port U port) p;
     p \<leftarrow> on_window w (udp_set_length U n) p;
     p \<leftarrow> on_window w (udp_set_checksum U 0) p;
     c \<leftarrow> udp_calculate_checksum U (view w p) (cs_checksum C payload (cs_pseudo C UDPProtocolNumber src dst n));
     on_window w (udp_set_checksum U (NOT c)) p
   }"

text \<open>Where an answer comes from: the address given, or the original destination.\<close>

definition reply_source :: "(bytes \<times> int) option \<Rightarrow> bytes \<Rightarrow> u16 \<Rightarrow> bytes \<times> u16" where
  "reply_source addr dst port = (case addr of Some (ip, p) \<Rightarrow> (ip, uint16_of p) | None \<Rightarrow> (dst, port))"

text \<open>The function \<open>processIPv4UDP\<close> gives to \<open>NewPacket\<close>: the packet it writes to the device.\<close>

definition udp4_reply :: "ip4_ops \<Rightarrow> 'u udp_ops_scheme \<Rightarrow> csum_ops \<Rightarrow> bytes \<Rightarrow> bytes \<Rightarrow> bytes \<times> u16 \<Rightarrow> bytes \<Rightarrow> bytes go" where
  "udp4_reply H U C template client src payload = do {
     p \<leftarrow> ip_set_source H (fst src) template;
     p \<leftarrow> ip4_set_total_length H (word_of_nat (length p + length payload)) p;
     p \<leftarrow> ip4_write_checksum H p;
     if length p < UDPMinimumSize then panic
     else do {
       p \<leftarrow> udp_fill U C (snd src) (fst src) client payload (udp_window p) p;
       Some (p @ payload)
     }
   }"

text \<open>The setter \<open>SetPayloadLength\<close> of \<open>header.IPv6\<close> and its getter.\<close>

record ip6_ops = ip_ops +
  ip6_payload_length :: "bytes \<Rightarrow> u16 go"
  ip6_set_payload_length :: "u16 \<Rightarrow> bytes \<Rightarrow> bytes go"

definition udp6_reply :: "ip6_ops \<Rightarrow> 'u udp_ops_scheme \<Rightarrow> csum_ops \<Rightarrow> bytes \<Rightarrow> bytes \<Rightarrow> bytes \<times> u16 \<Rightarrow> bytes \<Rightarrow> bytes go" where
  "udp6_reply H U C template client src payload = do {
     p \<leftarrow> ip_set_source H (fst src) template;
     p \<leftarrow> ip6_set_payload_length H (word_of_nat (UDPMinimumSize + length payload)) p;
     if length p < UDPMinimumSize then panic
     else do {
       p \<leftarrow> udp_fill U C (snd src) (fst src) client payload (udp_window p) p;
       Some (p @ payload)
     }
   }"

text \<open>
  What a packet is handed on as: both end points, the template, the payload
  (\<open>cache.Advance\<close>) and the client's address.  \<open>w\<close> is the window of the UDP header in \<open>p\<close>.
\<close>

record udp_flow =
  uf_source :: "bytes \<times> u16"
  uf_destination :: "bytes \<times> u16"
  uf_template :: bytes
  uf_payload :: bytes

definition processIPv4UDP :: "ip4_ops \<Rightarrow> 'u udp_ops_scheme \<Rightarrow> bytes \<Rightarrow> window \<Rightarrow> udp_flow go" where
  "processIPv4UDP H U p w = do {
     src \<leftarrow> ip_source H p;
     dst \<leftarrow> ip_destination H p;
     sp \<leftarrow> udp_source_port U (view w p);
     dp \<leftarrow> udp_destination_port U (view w p);
     p \<leftarrow> ip_set_destination H src p;
     p \<leftarrow> on_window w (udp_set_destination_port U sp) p;
     hl \<leftarrow> ip4_header_length H p;
     template \<leftarrow> slice 0 (hl + UDPMinimumSize) p;
     Some \<lparr>uf_source = (src, sp), uf_destination = (dst, dp), uf_template = template,
           uf_payload = drop (hl + UDPMinimumSize) p\<rparr>
   }"

text \<open>\<open>uint16(len(ipHdr)) - ipHdr.PayloadLength()\<close> wraps at 16 bits.\<close>

definition processIPv6UDP :: "ip6_ops \<Rightarrow> 'u udp_ops_scheme \<Rightarrow> bytes \<Rightarrow> window \<Rightarrow> udp_flow go" where
  "processIPv6UDP H U p w = do {
     src \<leftarrow> ip_source H p;
     dst \<leftarrow> ip_destination H p;
     sp \<leftarrow> udp_source_port U (view w p);
     dp \<leftarrow> udp_destination_port U (view w p);
     p \<leftarrow> ip_set_destination H src p;
     p \<leftarrow> on_window w (udp_set_destination_port U sp) p;
     pl \<leftarrow> ip6_payload_length H p;
     let hl = (word_of_nat (length p) - pl + word_of_nat UDPMinimumSize :: u16);
     template \<leftarrow> slice 0 (unat hl) p;
     Some \<lparr>uf_source = (src, sp), uf_destination = (dst, dp), uf_template = template,
           uf_payload = drop (unat hl) p\<rparr>
   }"

section \<open>What an answer is\<close>

text \<open>The UDP header in the window carries the ports and the length, and its checksum verifies.\<close>

definition udp_ok :: "'u udp_ops_scheme \<Rightarrow> csum_ops \<Rightarrow> bytes \<times> u16 \<Rightarrow> bytes \<times> u16 \<Rightarrow> bytes \<Rightarrow> bytes \<Rightarrow> bool" where
  "udp_ok U C src dst payload v \<longleftrightarrow>
     udp_source_port U v = Some (snd src) \<and> udp_destination_port U v = Some (snd dst) \<and>
     udp_length U v = Some (word_of_nat (UDPMinimumSize + length payload)) \<and>
     udp_calculate_checksum U v (cs_checksum C payload
       (cs_pseudo C UDPProtocolNumber (fst src) (fst dst) (word_of_nat (UDPMinimumSize + length payload)))) = Some 0xFFFF"

locale udp_packets = ip_window H valid alen uvalid + udp_header U uvalid
  for H :: "'m ip_ops_scheme" and valid alen and U :: "'u udp_ops_scheme" and uvalid +
  fixes C :: csum_ops
begin

text \<open>One setter of the UDP header, through the window.\<close>

lemma udp_setter_ok:
  assumes "segment H valid uvalid w p" "f (view w p) = Some v" "uvalid v" "length v = length (view w p)"
  shows "\<exists>q. on_window w f p = Some q \<and> segment H valid uvalid w q \<and> length q = length p \<and> view w q = v \<and>
     ip_source H q = ip_source H p \<and> ip_destination H q = ip_destination H p \<and>
     (\<exists>u. length u = snd w \<and> q = splice w u p)"
  using on_window_ok [where f = f, OF assms] assms(4) length_view [OF segment_window [OF assms(1)]] by auto

lemma splice_splice: "window_in w p \<Longrightarrow> length u = snd w \<Longrightarrow> splice w v (splice w u p) = splice w v p"
  by (simp add: splice_def window_in_def)

lemma udp_fill_ok:
  assumes p: "segment H valid uvalid w p" and dport: "udp_destination_port U (view w p) = Some dp"
  shows "\<exists>q v. udp_fill U C port src dst payload w p = Some q \<and> segment H valid uvalid w q \<and> length q = length p \<and>
     udp_ok U C (src, port) (dst, dp) payload (view w q) \<and>
     ip_source H q = ip_source H p \<and> ip_destination H q = ip_destination H p \<and> length v = snd w \<and> q = splice w v p"
proof -
  let ?n = "word_of_nat (UDPMinimumSize + length payload) :: u16"
  let ?i = "cs_checksum C payload (cs_pseudo C UDPProtocolNumber src dst ?n)"
  note win = segment_window [OF p]
  have uv: "uvalid (view w p)" using p by (simp add: segment_def)
  obtain v1 where v1: "udp_set_source_port U port (view w p) = Some v1" "uvalid v1" "length v1 = length (view w p)"
    "udp_source_port U v1 = Some port" "udp_destination_port U v1 = Some dp"
    using set_source_port [OF uv, of port] dport by auto
  obtain p1 where p1: "on_window w (udp_set_source_port U port) p = Some p1" "segment H valid uvalid w p1" "view w p1 = v1"
    "length p1 = length p" "ip_source H p1 = ip_source H p" "ip_destination H p1 = ip_destination H p"
    "\<exists>u. length u = snd w \<and> p1 = splice w u p"
    using udp_setter_ok [where f = "udp_set_source_port U port", OF p v1(1-3)] by auto
  obtain v2 where v2: "udp_set_length U ?n v1 = Some v2" "uvalid v2" "length v2 = length v1"
    "udp_source_port U v2 = Some port" "udp_destination_port U v2 = Some dp" "udp_length U v2 = Some ?n"
    using set_length [OF v1(2), of ?n] v1 by auto
  obtain p2 where p2: "on_window w (udp_set_length U ?n) p1 = Some p2" "segment H valid uvalid w p2" "view w p2 = v2"
    "length p2 = length p" "ip_source H p2 = ip_source H p" "ip_destination H p2 = ip_destination H p"
    "\<exists>u. length u = snd w \<and> p2 = splice w u p1"
    using udp_setter_ok [where f = "udp_set_length U ?n", OF p1(2)] v2 p1 by auto
  obtain v3 where v3: "udp_set_checksum U 0 v2 = Some v3" "uvalid v3" "length v3 = length v2"
    using set_udp_checksum [OF v2(2), of 0] by auto
  obtain p3 where p3: "on_window w (udp_set_checksum U 0) p2 = Some p3" "segment H valid uvalid w p3" "view w p3 = v3"
    "length p3 = length p" "ip_source H p3 = ip_source H p" "ip_destination H p3 = ip_destination H p"
    "\<exists>u. length u = snd w \<and> p3 = splice w u p2"
    using udp_setter_ok [where f = "udp_set_checksum U 0", OF p2(2)] v3 p2 by auto
  obtain c where c: "udp_calculate_checksum U v3 ?i = Some c"
    using udp_calculate [OF v3(2)] by blast
  obtain v4 where v4: "udp_set_checksum U (NOT c) v2 = Some v4" "uvalid v4" "length v4 = length v2"
    "udp_source_port U v4 = Some port" "udp_destination_port U v4 = Some dp" "udp_length U v4 = Some ?n"
    using set_udp_checksum [OF v2(2), of "NOT c"] v2 by auto
  then have v4': "udp_set_checksum U (NOT c) v3 = Some v4"
    using udp_set_set [OF v2(2) v3(1)] by simp
  obtain p4 where p4: "on_window w (udp_set_checksum U (NOT c)) p3 = Some p4" "segment H valid uvalid w p4" "view w p4 = v4"
    "length p4 = length p" "ip_source H p4 = ip_source H p" "ip_destination H p4 = ip_destination H p"
    "\<exists>u. length u = snd w \<and> p4 = splice w u p3"
    using udp_setter_ok [where f = "udp_set_checksum U (NOT c)", OF p3(2)] v4 v4' v3 p3 by auto
  have "udp_calculate_checksum U v4 ?i = Some 0xFFFF"
    using udp_calculate_set [OF v2(2) v3(1) v4(1) c] by (simp add: ocadd_NOT)
  then have ok: "udp_ok U C (src, port) (dst, dp) payload (view w p4)"
    using v4 p4 by (simp add: udp_ok_def)
  have "udp_fill U C port src dst payload w p = Some p4"
    by (simp add: udp_fill_def Let_def p1(1) p2(1) p3(1,3) c p4(1) del: of_nat_add)
  moreover obtain u1 u2 u3 u4 where "length u1 = snd w" "length u2 = snd w" "length u3 = snd w" "length u4 = snd w"
    "p1 = splice w u1 p" "p2 = splice w u2 p1" "p3 = splice w u3 p2" "p4 = splice w u4 p3"
    using p1(7) p2(7) p3(7) p4(7) by blast
  then have "p4 = splice w u4 p" "length u4 = snd w"
    using splice_splice win by simp_all
  ultimately show ?thesis
    using ok p4 by blast
qed

text \<open>What both handlers do to a packet first: it is sent back to where it came from.\<close>

lemma redirect:
  assumes p: "segment H valid uvalid w p" and src: "ip_source H p = Some src" "length src = alen" and sp: "udp_source_port U (view w p) = Some sp"
  shows "\<exists>p1 p2. ip_set_destination H src p = Some p1 \<and> on_window w (udp_set_destination_port U sp) p1 = Some p2 \<and>
     segment H valid uvalid w p2 \<and> length p2 = length p \<and> ip_destination H p2 = Some src \<and>
     udp_destination_port U (view w p2) = Some sp \<and> drop UDPMinimumSize (view w p2) = drop UDPMinimumSize (view w p)"
proof -
  obtain p1 where p1: "ip_set_destination H src p = Some p1" "segment H valid uvalid w p1" "length p1 = length p"
    "view w p1 = view w p" "ip_destination H p1 = Some src"
    using set_destination_ok [OF p src(2)] by auto
  have uv: "uvalid (view w p1)" using p1(2) by (simp add: segment_def)
  obtain v where v: "udp_set_destination_port U sp (view w p1) = Some v" "uvalid v" "length v = length (view w p1)"
    "udp_destination_port U v = Some sp" "drop UDPMinimumSize v = drop UDPMinimumSize (view w p1)"
    using set_destination_port_ok [OF uv, of sp] by auto
  obtain p2 where "on_window w (udp_set_destination_port U sp) p1 = Some p2" "segment H valid uvalid w p2"
    "length p2 = length p1" "view w p2 = v" "ip_destination H p2 = Some src"
    using on_window_ok [where f = "udp_set_destination_port U sp", OF p1(2) v(1-3)] p1(5) by auto
  then show ?thesis using p1 v(4,5) by auto
qed

end


text \<open>
  \<open>r\<close> is a datagram from \<open>peer\<close> to \<open>client\<close> with this payload: a header \<open>q\<close> whose addresses,
  length and checksum are right, a UDP header in its last eight bytes, and the payload.
\<close>

definition udp4_answer :: "'m ip4_ops_scheme \<Rightarrow> 'u udp_ops_scheme \<Rightarrow> csum_ops \<Rightarrow> bytes \<times> u16 \<Rightarrow> bytes \<times> u16 \<Rightarrow> bytes \<Rightarrow> bytes \<Rightarrow> bool" where
  "udp4_answer H U C peer client payload r \<longleftrightarrow>
     (\<exists>q. r = q @ payload \<and> ip_source H q = Some (fst peer) \<and> ip_destination H q = Some (fst client) \<and>
        ip4_total_length H q = Some (word_of_nat (length r)) \<and> ip4_calculate_checksum H q = Some 0xFFFF \<and>
        udp_ok U C peer client payload (view (udp_window q) q))"

text \<open>
  A template is a header that is valid but for its length field, followed by the eight
  UDP bytes: for the header laws its ``payload'' is the window the code uses.
\<close>

definition templated :: "'m ip_ops_scheme \<Rightarrow> 'm ip_ops_scheme" where
  "templated H = H\<lparr>ip_payload := (\<lambda>p. Some (udp_window p))\<rparr>"

lemma templated_simps [simp]:
  "ip_source (templated H) = ip_source H" "ip_destination (templated H) = ip_destination H"
  "ip_set_source (templated H) = ip_set_source H" "ip_set_destination (templated H) = ip_set_destination H"
  "ip_payload (templated H) p = Some (udp_window p)"
  by (simp_all add: templated_def)

lemma templated4_simps [simp]:
  "ip4_set_checksum (templated H) = ip4_set_checksum H" "ip4_checksum (templated H) = ip4_checksum H"
  "ip4_calculate_checksum (templated H) = ip4_calculate_checksum H"
  "ip4_total_length (templated H) = ip4_total_length H"
  "ip4_set_total_length (templated H) = ip4_set_total_length H"
  "ip4_write_checksum (templated H) = ip4_write_checksum H"
  by (simp_all add: templated_def ip4_write_checksum_def fun_eq_iff)

locale udp_reply4 = udp_packets "templated H" tmpl 4 U uvalid C + ip4_window "templated H" tmpl 4 uvalid
  for H :: ip4_ops and tmpl and U :: "'u udp_ops_scheme" and uvalid and C :: csum_ops +
  assumes tmpl_length: "tmpl p \<Longrightarrow> UDPMinimumSize \<le> length p"
    and tmpl_window: "tmpl p \<Longrightarrow> uvalid (view (udp_window p) p)"
    and set_total_length: "tmpl p \<Longrightarrow>
      \<exists>q. ip4_set_total_length H n p = Some q \<and> tmpl q \<and> length q = length p \<and> ip4_total_length H q = Some n \<and>
        ip_source H q = ip_source H p \<and> ip_destination H q = ip_destination H p \<and>
        view (udp_window p) q = view (udp_window p) p"
    and total_length_splice: "tmpl p \<Longrightarrow> length v = UDPMinimumSize \<Longrightarrow>
      ip4_total_length H (splice (udp_window p) v p) = ip4_total_length H p"
begin

lemma udp_window_cong: "length q = length p \<Longrightarrow> udp_window q = udp_window p"
  by (simp add: udp_window_def)

lemma tmpl_seg: "tmpl p \<Longrightarrow> segment (templated H) tmpl uvalid (udp_window p) p"
  by (simp add: segment_def tmpl_window)

lemma reply4:
  assumes t: "tmpl t" and ip: "length (fst src) = 4" and dst: "ip_destination H t = Some client"
    and dp: "udp_destination_port U (view (udp_window t) t) = Some dp"
  shows "\<exists>r. udp4_reply H U C t client src payload = Some r \<and> udp4_answer H U C src (client, dp) payload r"
proof -
  let ?w = "udp_window t" and ?n = "word_of_nat (length t + length payload) :: u16"
  obtain p1 where p1: "ip_set_source H (fst src) t = Some p1" "tmpl p1" "length p1 = length t"
    "ip_source H p1 = Some (fst src)" "ip_destination H p1 = Some client" "view ?w p1 = view ?w t"
    using set_source [OF t ip] dst by auto
  obtain p2 where p2: "ip4_set_total_length H ?n p1 = Some p2" "tmpl p2" "length p2 = length t" "ip4_total_length H p2 = Some ?n"
    "ip_source H p2 = Some (fst src)" "ip_destination H p2 = Some client" "view ?w p2 = view ?w t"
    using set_total_length [OF p1(2), of ?n] p1 udp_window_cong [OF p1(3)] by auto
  have w2: "udp_window p2 = ?w"
    by (rule udp_window_cong [OF p2(3)])
  obtain p3 where p3: "ip4_write_checksum H p2 = Some p3" "segment (templated H) tmpl uvalid ?w p3" "view ?w p3 = view ?w t"
    "ip_source H p3 = Some (fst src)" "ip_destination H p3 = Some client" "ip4_calculate_checksum H p3 = Some 0xFFFF"
    "ip4_total_length H p3 = Some ?n"
    using write_checksum_ok [OF tmpl_seg [OF p2(2)]] p2 unfolding w2 by auto
  have t3: "tmpl p3" and w3: "udp_window p3 = ?w"
    using p3(2) by (simp_all add: segment_def)
  have len3: "length p3 = length t"
    using w3 tmpl_length [OF t] tmpl_length [OF t3] by (simp add: udp_window_def)
  obtain q v where q: "udp_fill U C (snd src) (fst src) client payload ?w p3 = Some q"
    "segment (templated H) tmpl uvalid ?w q" "length q = length p3"
    "udp_ok U C (fst src, snd src) (client, dp) payload (view ?w q)"
    "ip_source H q = ip_source H p3" "ip_destination H q = ip_destination H p3" "length v = snd ?w" "q = splice ?w v p3"
    using udp_fill_ok [OF p3(2), of dp "snd src" "fst src" client payload] dp p3(3) by auto
  have "ip4_calculate_checksum H q = Some 0xFFFF"
    using calculate_splice [of p3 ?w v] q(7,8) t3 w3 p3(6) by simp
  moreover have "ip4_total_length H q = Some ?n"
    using total_length_splice [OF t3, of v] q(7,8) w3 p3(7) by (simp add: udp_window_def)
  moreover have "udp_window q = ?w"
    using q(2) by (simp add: segment_def)
  moreover have "udp4_reply H U C t client src payload = Some (q @ payload)"
    using p1(1,3) p2(1) p3(1) w3 q(1) tmpl_length [OF t3] by (simp add: udp4_reply_def del: of_nat_add)
  ultimately show ?thesis
    using q p3 len3 by (auto simp: udp4_answer_def simp del: of_nat_add)
qed

end

section \<open>The wire layouts\<close>

definition rfc768 :: udp_ops where
  "rfc768 = \<lparr>udp_source_port = get16 0, udp_destination_port = get16 2, udp_length = get16 4,
     udp_set_source_port = put16 0, udp_set_destination_port = put16 2, udp_set_length = put16 4,
     udp_set_checksum = put16 6,
     udp_calculate_checksum = (\<lambda>v i. if length v < 8 then panic else Some (csum (take 8 v) i))\<rparr>"

definition u8_valid :: "bytes \<Rightarrow> bool" where
  "u8_valid v \<longleftrightarrow> 8 \<le> length v"

lemma rfc768_simps [simp]:
  "udp_source_port rfc768 = get16 0" "udp_destination_port rfc768 = get16 2" "udp_length rfc768 = get16 4"
  "udp_set_source_port rfc768 = put16 0" "udp_set_destination_port rfc768 = put16 2"
  "udp_set_length rfc768 = put16 4" "udp_set_checksum rfc768 = put16 6"
  by (simp_all add: rfc768_def)

lemma put16_udp:
  assumes "u8_valid v" "i + 2 \<le> 8"
  shows "\<exists>u. put16 i x v = Some u \<and> u8_valid u \<and> length u = length v \<and> get16 i u = Some x \<and>
     (\<forall>j. j + 2 \<le> i \<or> i + 2 \<le> j \<longrightarrow> get16 j u = get16 j v)"
proof -
  have "i + length (put_be16 x) \<le> length v"
    using assms by (simp add: u8_valid_def)
  then obtain u where u: "put_at i (put_be16 x) v = Some u"
    using put_at_total by blast
  then show ?thesis
    using put_at_length [OF u] put16_get16 [of i x v u] put_at_get_before [OF u] put_at_get_after [OF u] assms(1)
    by (auto simp: put16_def get16_def u8_valid_def)
qed

interpretation rfc_udp: udp_header rfc768 u8_valid
proof
  fix v assume v: "u8_valid v"
  then show "\<exists>sp dp n. udp_source_port rfc768 v = Some sp \<and> udp_destination_port rfc768 v = Some dp \<and> udp_length rfc768 v = Some n"
    using get_at_total [of 0 2 v] get_at_total [of 2 2 v] get_at_total [of 4 2 v] by (auto simp: get16_def u8_valid_def)
  show "\<exists>u. udp_set_source_port rfc768 x v = Some u \<and> u8_valid u \<and> length u = length v \<and> udp_source_port rfc768 u = Some x \<and>
      udp_destination_port rfc768 u = udp_destination_port rfc768 v \<and> udp_length rfc768 u = udp_length rfc768 v" for x
    using put16_udp [OF v, of 0 x] by auto
  show "\<exists>u. udp_set_destination_port rfc768 x v = Some u \<and> u8_valid u \<and> length u = length v \<and>
      udp_destination_port rfc768 u = Some x \<and> udp_source_port rfc768 u = udp_source_port rfc768 v \<and>
      udp_length rfc768 u = udp_length rfc768 v \<and> drop UDPMinimumSize u = drop UDPMinimumSize v" for x
    using put16_udp [OF v, of 2 x] by (auto simp: put16_def UDPMinimumSize_def intro!: put_at_drop)
  show "\<exists>u. udp_set_length rfc768 x v = Some u \<and> u8_valid u \<and> length u = length v \<and> udp_length rfc768 u = Some x \<and>
      udp_source_port rfc768 u = udp_source_port rfc768 v \<and> udp_destination_port rfc768 u = udp_destination_port rfc768 v" for x
    using put16_udp [OF v, of 4 x] by auto
  show "\<exists>u. udp_set_checksum rfc768 c v = Some u \<and> u8_valid u \<and> length u = length v \<and> udp_length rfc768 u = udp_length rfc768 v \<and>
      udp_source_port rfc768 u = udp_source_port rfc768 v \<and> udp_destination_port rfc768 u = udp_destination_port rfc768 v" for c
    using put16_udp [OF v, of 6 c] by auto
  show "\<exists>s. udp_calculate_checksum rfc768 v i = Some s" for i
    using v by (simp add: rfc768_def u8_valid_def)
next
  fix v v0 c v1 i s
  assume v: "u8_valid v" "udp_set_checksum rfc768 0 v = Some v0" "udp_set_checksum rfc768 c v = Some v1"
    "udp_calculate_checksum rfc768 v0 i = Some s"
  then have q: "put16 6 0 v = Some v0" "put16 6 c v = Some v1" by simp_all
  have "u8_valid v0" "u8_valid v1"
    using put16_udp [OF v(1), of 6 0] put16_udp [OF v(1), of 6 c] q by auto
  moreover have "csum (take 8 v1) i = ocadd (csum (take 8 v0) i) c"
    using v(1) by (intro csum_put16 [OF _ _ _ q]) (auto simp: u8_valid_def)
  ultimately show "udp_calculate_checksum rfc768 v1 i = Some (ocadd s c)"
    using v(4) by (simp add: rfc768_def u8_valid_def split: if_splits)
next
  fix v c u d assume "u8_valid v" "udp_set_checksum rfc768 c v = Some u"
  then show "udp_set_checksum rfc768 d u = udp_set_checksum rfc768 d v"
    by (simp add: put16_def put_at_twice)
qed

text \<open>An IPv4 template: version 4, a header of its stated length, and eight bytes.\<close>

definition v4_tmpl :: "bytes \<Rightarrow> bool" where
  "v4_tmpl p \<longleftrightarrow> 28 \<le> length p \<and> drop_bit 4 (p ! 0) = 4 \<and> v4_hl p + 8 = length p"


text \<open>A write inside the IP header keeps the template and its last eight bytes.\<close>

lemma put_at_tmpl4:
  assumes "v4_tmpl p" "0 < i" "i + length bs \<le> 20"
  shows "\<exists>q. put_at i bs p = Some q \<and> v4_tmpl q \<and> length q = length p \<and> get_at i (length bs) q = Some bs \<and>
     (\<forall>j n. j + n \<le> i \<or> i + length bs \<le> j \<longrightarrow> get_at j n q = get_at j n p) \<and>
     view (udp_window p) q = view (udp_window p) p \<and> udp_window q = udp_window p"
proof -
  have "i + length bs \<le> length p"
    using assms by (simp add: v4_tmpl_def)
  then obtain q where q: "put_at i bs p = Some q"
    using put_at_total by blast
  note len = put_at_length [OF q]
  have "v4_tmpl q"
    using assms put_at_nth [OF q] len by (simp add: v4_tmpl_def v4_hl_def)
  moreover have "view (udp_window p) q = view (udp_window p) p"
    using assms by (intro put_at_view [OF q]) (auto simp: v4_tmpl_def udp_window_def UDPMinimumSize_def)
  ultimately show ?thesis
    using q len put_at_get_same [OF q refl] put_at_get_before [OF q] put_at_get_after [OF q]
    by (auto simp: udp_window_def)
qed

lemma splice_tmpl4:
  assumes "v4_tmpl p" "length v = 8"
  shows "v4_tmpl (splice (udp_window p) v p)" "length (splice (udp_window p) v p) = length p"
    and "window_in (udp_window p) p" "v4_hl (splice (udp_window p) v p) = v4_hl p" "fst (udp_window p) = v4_hl p"
    and "20 \<le> fst (udp_window p)"
proof -
  show win: "window_in (udp_window p) p" and f: "fst (udp_window p) = v4_hl p" and w20: "20 \<le> fst (udp_window p)"
    using assms(1) by (auto simp: v4_tmpl_def window_in_def udp_window_def UDPMinimumSize_def)
  show len: "length (splice (udp_window p) v p) = length p"
    using assms(2) by (intro length_splice [OF win]) (simp add: udp_window_def UDPMinimumSize_def)
  have "splice (udp_window p) v p ! 0 = p ! 0"
    using w20 win by (simp add: splice_def nth_append window_in_def)
  then show "v4_hl (splice (udp_window p) v p) = v4_hl p" and "v4_tmpl (splice (udp_window p) v p)"
    using assms(1) len by (simp_all add: v4_tmpl_def v4_hl_def)
qed

interpretation rfc_reply4: udp_reply4 rfc791 v4_tmpl rfc768 u8_valid rfc1071
proof unfold_locales
  fix p assume p: "v4_tmpl p"
  then show "\<exists>a. ip_source (templated rfc791) p = Some a \<and> length a = 4" "\<exists>a. ip_destination (templated rfc791) p = Some a \<and> length a = 4"
    using get_at_total [of 12 4 p] get_at_total [of 16 4 p] by (auto simp: v4_tmpl_def)
  show "\<exists>w. ip_payload (templated rfc791) p = Some w \<and> window_in w p"
    using splice_tmpl4(3) [OF p, of "replicate 8 0"] by simp
  show "UDPMinimumSize \<le> length p"
    using p by (simp add: v4_tmpl_def UDPMinimumSize_def)
  show "u8_valid (view (udp_window p) p)"
    using p by (simp add: u8_valid_def view_def udp_window_def UDPMinimumSize_def v4_tmpl_def)
  show "\<exists>s. ip4_calculate_checksum (templated rfc791) p = Some s"
    using p by (auto simp: v4_tmpl_def rfc791_calculate)
  show "\<exists>q. ip4_set_checksum (templated rfc791) c p = Some q \<and> v4_tmpl q \<and> length q = length p \<and>
      ip4_checksum (templated rfc791) q = Some c \<and> ip_source (templated rfc791) q = ip_source (templated rfc791) p \<and>
      ip_destination (templated rfc791) q = ip_destination (templated rfc791) p \<and>
      ip_payload (templated rfc791) q = ip_payload (templated rfc791) p \<and>
      ip4_total_length (templated rfc791) q = ip4_total_length (templated rfc791) p \<and>
      (\<forall>w. ip_payload (templated rfc791) p = Some w \<longrightarrow> view w q = view w p)" for c
    using put_at_tmpl4 [OF p, of 10 "put_be16 c"]
    by (auto simp: put16_def [of 10] get16_def) (simp_all add: put_be16_def be16_put_be16)
  show "\<exists>q. ip4_set_total_length rfc791 n p = Some q \<and> v4_tmpl q \<and> length q = length p \<and> ip4_total_length rfc791 q = Some n \<and>
      ip_source rfc791 q = ip_source rfc791 p \<and> ip_destination rfc791 q = ip_destination rfc791 p \<and>
      view (udp_window p) q = view (udp_window p) p" for n
    using put_at_tmpl4 [OF p, of 2 "put_be16 n"]
    by (auto simp: put16_def [of 2] get16_def) (simp_all add: put_be16_def be16_put_be16)
  fix a :: bytes assume a: "length a = 4"
  show "\<exists>q. ip_set_source (templated rfc791) a p = Some q \<and> v4_tmpl q \<and> length q = length p \<and>
      ip_source (templated rfc791) q = Some a \<and> ip_destination (templated rfc791) q = ip_destination (templated rfc791) p \<and>
      ip_payload (templated rfc791) q = ip_payload (templated rfc791) p \<and>
      (\<forall>w. ip_payload (templated rfc791) p = Some w \<longrightarrow> view w q = view w p)"
    using put_at_tmpl4 [OF p, of 12 a] a by auto
  show "\<exists>q. ip_set_destination (templated rfc791) a p = Some q \<and> v4_tmpl q \<and> length q = length p \<and>
      ip_destination (templated rfc791) q = Some a \<and> ip_source (templated rfc791) q = ip_source (templated rfc791) p \<and>
      ip_payload (templated rfc791) q = ip_payload (templated rfc791) p \<and>
      (\<forall>w. ip_payload (templated rfc791) p = Some w \<longrightarrow> view w q = view w p)"
    using put_at_tmpl4 [OF p, of 16 a] a by auto
next
  fix p w and v :: bytes
  assume p: "v4_tmpl p" and w: "ip_payload (templated rfc791) p = Some w" "length v = snd w"
  then have w': "w = udp_window p" "length v = 8"
    by (auto simp: udp_window_def UDPMinimumSize_def)
  note sp = splice_tmpl4 [OF p w'(2)]
  show "v4_tmpl (splice w v p) \<and> ip_source (templated rfc791) (splice w v p) = ip_source (templated rfc791) p \<and>
      ip_destination (templated rfc791) (splice w v p) = ip_destination (templated rfc791) p \<and>
      ip_payload (templated rfc791) (splice w v p) = ip_payload (templated rfc791) p"
    using sp splice_get_before [OF _ sp(3), of _ _ v] w' by (simp add: udp_window_def UDPMinimumSize_def)
  show "ip4_calculate_checksum (templated rfc791) (splice w v p) = ip4_calculate_checksum (templated rfc791) p"
    using splice_take [OF _ sp(3), of "v4_hl p" v] sp w' by (simp add: rfc791_calculate)
next
  fix p and v :: bytes assume p: "v4_tmpl p" and v: "length v = UDPMinimumSize"
  then have "length v = 8" by (simp add: UDPMinimumSize_def)
  note sp = splice_tmpl4 [OF p this]
  show "ip4_total_length rfc791 (splice (udp_window p) v p) = ip4_total_length rfc791 p"
    using sp splice_get_before [OF _ sp(3), of 2 2 v] v by (simp add: get16_def udp_window_def UDPMinimumSize_def)
next
  fix p c q d assume "v4_tmpl p" "ip4_set_checksum (templated rfc791) c p = Some q"
  then show "ip4_set_checksum (templated rfc791) d q = ip4_set_checksum (templated rfc791) d p"
    by (simp add: put16_def put_at_twice)
next
  fix p p0 c p1 s
  assume p: "v4_tmpl p" "ip4_set_checksum (templated rfc791) 0 p = Some p0" "ip4_set_checksum (templated rfc791) c p = Some p1"
    "ip4_calculate_checksum (templated rfc791) p0 = Some s"
  then have q: "put16 10 0 p = Some p0" "put16 10 c p = Some p1" by simp_all
  then have q': "put_at 10 (put_be16 0) p = Some p0" "put_at 10 (put_be16 c) p = Some p1"
    by (simp_all only: put16_def)
  have hl: "v4_hl p0 = v4_hl p" "v4_hl p1 = v4_hl p" "length p0 = length p" "length p1 = length p"
    using put_at_v4(1) [OF q'(1)] put_at_v4(1) [OF q'(2)] put_at_length [OF q'(1)] put_at_length [OF q'(2)]
    by simp_all
  have n: "10 + 2 \<le> v4_hl p" "v4_hl p \<le> length p"
    using p(1) by (auto simp: v4_tmpl_def)
  have "csum (take (v4_hl p) p1) 0 = ocadd (csum (take (v4_hl p) p0) 0) c"
    by (rule csum_put16 [OF _ n q]) simp
  then show "ip4_calculate_checksum (templated rfc791) p1 = Some (ocadd s c)"
    using p(4) hl by (simp add: rfc791_calculate split: if_splits)
qed


section \<open>A conversation\<close>

text \<open>The template cut from a packet is a template with the packet's addresses and ports.\<close>

locale udp_nat4 = udp_reply4 H tmpl U uvalid C + full: ip_window H valid 4 uvalid
  for H :: ip4_ops and tmpl and U :: "'u udp_ops_scheme" and uvalid and C :: csum_ops and valid +
  assumes header_length_total: "valid p \<Longrightarrow> \<exists>hl. ip4_header_length H p = Some hl"
    and take_template: "segment H valid uvalid w p \<Longrightarrow> ip4_header_length H p = Some hl \<Longrightarrow>
      fst w = hl \<and> hl + UDPMinimumSize \<le> length p \<and> tmpl (take (hl + UDPMinimumSize) p) \<and>
      ip_destination H (take (hl + UDPMinimumSize) p) = ip_destination H p \<and>
      udp_destination_port U (view (hl, UDPMinimumSize) p) = udp_destination_port U (view w p)"
begin

lemma conversation4:
  assumes p: "segment H valid uvalid w p" and src: "ip_source H p = Some src" and dst: "ip_destination H p = Some dst"
    and sp: "udp_source_port U (view w p) = Some sp" and dp: "udp_destination_port U (view w p) = Some dp"
  shows "\<exists>F. processIPv4UDP H U p w = Some F \<and> uf_source F = (src, sp) \<and> uf_destination F = (dst, dp) \<and>
     take (snd w - UDPMinimumSize) (uf_payload F) = drop UDPMinimumSize (view w p) \<and>
     (\<forall>peer payload. length (fst peer) = 4 \<longrightarrow>
        (\<exists>r. udp4_reply H U C (uf_template F) src peer payload = Some r \<and> udp4_answer H U C peer (src, sp) payload r))"
proof -
  have len: "length src = 4"
    using full.source_total [of p] p src by (auto simp: segment_def)
  have packets: "udp_packets H valid 4 U uvalid"
    by (intro udp_packets.intro full.ip_window_axioms udp_header_axioms)
  obtain p1 p2 where p1: "ip_set_destination H src p = Some p1"
    and p2: "on_window w (udp_set_destination_port U sp) p1 = Some p2" "segment H valid uvalid w p2" "ip_destination H p2 = Some src"
      "udp_destination_port U (view w p2) = Some sp" "drop UDPMinimumSize (view w p2) = drop UDPMinimumSize (view w p)"
    using udp_packets.redirect [OF packets p src len sp] by blast
  obtain hl where hl: "ip4_header_length H p2 = Some hl"
    using header_length_total p2(2) by (auto simp: segment_def)
  note cut = take_template [OF p2(2) hl]
  let ?t = "take (hl + UDPMinimumSize) p2"
  have w: "fst w = hl" using cut by simp
  have lent: "length ?t = hl + UDPMinimumSize" using cut by simp
  have "udp_window ?t = (hl, UDPMinimumSize)"
    unfolding udp_window_def lent by simp
  then have "view (udp_window ?t) ?t = view (hl, UDPMinimumSize) p2"
    by (simp add: view_def drop_take)
  then have dport: "udp_destination_port U (view (udp_window ?t) ?t) = Some sp"
    using cut p2(4) by simp
  have reply: "\<exists>r. udp4_reply H U C ?t src peer payload = Some r \<and> udp4_answer H U C peer (src, sp) payload r"
    if "length (fst peer) = 4" for peer payload
    using reply4 [OF _ that _ dport, of src payload] cut p2(3) by simp
  have "slice 0 (hl + UDPMinimumSize) p2 = Some ?t"
    using cut by (simp add: slice_def)
  then have run: "processIPv4UDP H U p w = Some \<lparr>uf_source = (src, sp), uf_destination = (dst, dp), uf_template = ?t,
      uf_payload = drop (hl + UDPMinimumSize) p2\<rparr>"
    by (simp add: processIPv4UDP_def src dst sp dp p1 p2(1) hl)
  have "take (snd w - UDPMinimumSize) (drop (hl + UDPMinimumSize) p2) = drop UDPMinimumSize (view w p2)"
    using w by (simp add: view_def drop_take add.commute)
  also have "\<dots> = drop UDPMinimumSize (view w p)"
    using p2(5) by simp
  finally have pay: "take (snd w - UDPMinimumSize) (drop (hl + UDPMinimumSize) p2) = drop UDPMinimumSize (view w p)" .
  show ?thesis
    using run reply w pay by simp
qed

end


lemma get16_take: "i + 2 \<le> n \<Longrightarrow> get16 i (take n v) = get16 i v"
  by (auto simp: get16_def get_at_def drop_take min_def)

interpretation rfc_nat4: udp_nat4 rfc791 v4_tmpl rfc768 u8_valid rfc1071 v4_valid
proof unfold_locales
  fix p assume "v4_valid p"
  then show "\<exists>hl. ip4_header_length rfc791 p = Some hl"
    by (auto simp: rfc791_def v4_valid_def)
next
  fix w p hl assume p: "segment rfc791 v4_valid u8_valid w p" and hl: "ip4_header_length rfc791 p = Some hl"
  have v: "v4_valid p" and w: "w = (v4_hl p, v4_tl p - v4_hl p)" and h: "hl = v4_hl p"
    using p hl by (auto simp: segment_def rfc791_def v4_valid_def split: if_splits)
  then have n: "8 \<le> v4_tl p - v4_hl p"
    using p by (auto simp: segment_def u8_valid_def view_def v4_valid_def)
  have "view (hl, UDPMinimumSize) p = take 8 (view w p)"
    using n by (simp add: view_def w h UDPMinimumSize_def min_def)
  moreover have "v4_tmpl (take (hl + UDPMinimumSize) p)"
    using v n h by (auto simp: v4_tmpl_def v4_valid_def v4_hl_def UDPMinimumSize_def)
  moreover have "ip_destination rfc791 (take (hl + UDPMinimumSize) p) = ip_destination rfc791 p"
    using v n h by (auto simp: get_at_def v4_valid_def UDPMinimumSize_def drop_take min_def)
  moreover have "v4_hl p + 8 \<le> length p"
    using v n unfolding v4_valid_def by linarith
  ultimately show "fst w = hl \<and> hl + UDPMinimumSize \<le> length p \<and> v4_tmpl (take (hl + UDPMinimumSize) p) \<and>
      ip_destination rfc791 (take (hl + UDPMinimumSize) p) = ip_destination rfc791 p \<and>
      udp_destination_port rfc768 (view (hl, UDPMinimumSize) p) = udp_destination_port rfc768 (view w p)"
    using h w by (simp add: get16_take UDPMinimumSize_def)
qed

text \<open>
  A UDP conversation over IPv4: a packet is handed on with its end points and payload,
  and each answer written to the device is a datagram from the answering peer (the
  original destination when it is not named) to the sender, with the right lengths up to
  16 bits, a header checksum and a UDP checksum that verify.
\<close>

theorem udp4_conversation:
  assumes "udp_nat4 H tmpl U uvalid valid"
    and "segment H valid uvalid w p" and "ip_source H p = Some src" and "ip_destination H p = Some dst"
    and "udp_source_port U (view w p) = Some sp" and "udp_destination_port U (view w p) = Some dp"
  shows "\<exists>F. processIPv4UDP H U p w = Some F \<and> uf_source F = (src, sp) \<and> uf_destination F = (dst, dp) \<and>
     take (snd w - UDPMinimumSize) (uf_payload F) = drop UDPMinimumSize (view w p) \<and>
     (\<forall>addr payload. (\<forall>ip port. addr = Some (ip, port) \<longrightarrow> length ip = 4) \<longrightarrow>
        (\<exists>r. udp4_reply H U C (uf_template F) src (reply_source addr dst dp) payload = Some r \<and>
           udp4_answer H U C (reply_source addr dst dp) (src, sp) payload r))"
proof -
  have "ip_header H valid 4"
    using assms(1) by (simp add: udp_nat4_def ip_window_def)
  then have "length dst = 4"
    using ip_header.destination_total [of H valid 4 p] assms(2,4) by (auto simp: segment_def)
  then have "length (fst (reply_source addr dst dp)) = 4"
    if "\<forall>ip port. addr = Some (ip, port) \<longrightarrow> length ip = 4" for addr
    using that by (auto simp: reply_source_def split: option.split)
  with udp_nat4.conversation4 [OF assms, of C] show ?thesis by blast
qed

text \<open>A query to 8.8.8.8:53 with two bytes of payload.\<close>

definition dns_query :: bytes where
  "dns_query = [0x45, 0, 0, 30, 0, 0, 0, 0, 64, 17, 0, 0, 172, 19, 0, 1, 8, 8, 8, 8,
     0xC0, 0, 0, 53, 0, 10, 0, 0, 1, 2]"

lemma dns_query_segment: "segment rfc791 v4_valid u8_valid (20, 10) dns_query"
  by (simp add: segment_def rfc791_def v4_valid_def v4_hl_def v4_tl_def u8_valid_def view_def dns_query_def be16_def)

theorem udp4_conversation_witness:
  "\<exists>F r. processIPv4UDP rfc791 rfc768 dns_query (20, 10) = Some F \<and> uf_source F = ([172, 19, 0, 1], 0xC000) \<and>
     udp4_reply rfc791 rfc768 rfc1071 (uf_template F) [172, 19, 0, 1] ([8, 8, 8, 8], 53) [3, 4, 5] = Some r \<and>
     udp4_answer rfc791 rfc768 rfc1071 ([8, 8, 8, 8], 53) ([172, 19, 0, 1], 0xC000) [3, 4, 5] r"
proof -
  have "ip_source rfc791 dns_query = Some [172, 19, 0, 1]" "ip_destination rfc791 dns_query = Some [8, 8, 8, 8]"
    "udp_source_port rfc768 (view (20, 10) dns_query) = Some 0xC000"
    "udp_destination_port rfc768 (view (20, 10) dns_query) = Some 53"
    by (simp_all add: dns_query_def get_at_def get16_def view_def be16_def)
  note query = udp4_conversation [OF rfc_nat4.udp_nat4_axioms dns_query_segment this, of rfc1071]
  have "reply_source None [8, 8, 8, 8] 53 = ([8, 8, 8, 8], 53)"
    by (simp add: reply_source_def)
  with query show ?thesis by (metis option.distinct(1))
qed

end
