(* ===== verification/UdpPath.thy ===== *)
theory UdpPath
  imports NatUdp DispatcherConn
begin

text \<open>
  A UDP session from the device to the core and back, composed of the components it passes:
  the packet is taken apart (\<open>NatUdp\<close>), its payload goes into the core through a new
  \<open>dispatcherConn\<close> (\<open>DispatcherConn\<close>), the core's answers are queued there, and the loop of
  \<open>NewPacket\<close> reads them and writes them back to the device as packets (\<open>NatUdp\<close> again).
\<close>

section \<open>The pieces, put together\<close>

text \<open>
  The loop of \<open>NewPacket\<close> and \<open>NewPingPacket\<close>: what was written to the device and how the loop
  stands.  \<open>write_back\<close> is the function the handler was given: what it writes, and whether it
  returns an error, which ends the loop.  An answer of the DNS server goes back without its
  source.  \<open>Stuck\<close> is the wait for the next answer.
\<close>

type_synonym 'w writer = "bytes \<Rightarrow> (bytes \<times> int) option \<Rightarrow> ('w list \<times> bool) go"

fun device_relay :: "'w writer \<Rightarrow> bool \<Rightarrow> (nat \<Rightarrow> bool) \<Rightarrow> nat \<Rightarrow> dispatcher_conn \<Rightarrow> ('w list \<times> loop_end) go" where
  "device_relay write_back isDns picks 0 c = Some ([], OutOfFuel)"
| "device_relay write_back isDns picks (Suc n) c =
     (case conn_readFrom (picks n) c of
        Got p source c' \<Rightarrow> do {
          ip \<leftarrow> fst source;
          (ws, failed) \<leftarrow> write_back p (if isDns then None else Some (ip, uint (snd source)));
          if failed then Some (ws, Left)
          else do {
            (rs, e) \<leftarrow> device_relay write_back isDns picks n c';
            Some (ws @ rs, e)
          }
        }
      | EOF \<Rightarrow> Some ([], Left)
      | Blocks \<Rightarrow> Some ([], Stuck)
      | Crash \<Rightarrow> panic)"

definition ip_target :: "family \<Rightarrow> (bytes \<Rightarrow> string) \<Rightarrow> bytes \<times> u16 \<Rightarrow> destination" where
  "ip_target fam text_of d =
     \<lparr>dst_address = \<lparr>addr_family = fam, addr_ip = Some (fst d), addr_domain = panic, addr_string = text_of (fst d)\<rparr>,
      dst_port = snd d, dst_network = Network_UDP\<rparr>"

abbreviation ipv4_destination :: "(bytes \<Rightarrow> string) \<Rightarrow> bytes \<times> u16 \<Rightarrow> destination" where
  "ipv4_destination \<equiv> ip_target FamilyIPv4"

text \<open>The answers the core has are queued by \<open>handleInput\<close> and written back by the loop.\<close>

definition answer_session :: "'w writer \<Rightarrow> bool \<Rightarrow> (nat \<Rightarrow> bool) \<Rightarrow> (bool \<times> buffer) list \<Rightarrow> dispatcher_conn \<Rightarrow> ('w list \<times> loop_end) go" where
  "answer_session write_back isDns picks answers c = do {
     c \<leftarrow> handle_batch answers c;
     device_relay write_back isDns picks (Suc (length answers)) c
   }"

text \<open>
  \<open>NewPacket\<close> for the first packet of a source, and the answers the core has by then: what
  the core got and what the device gets.  The session is new, its dial and its write succeed.
\<close>

definition session_through :: "'w writer \<Rightarrow> bool \<Rightarrow> (nat \<Rightarrow> bool) \<Rightarrow> destination \<Rightarrow> bytes \<Rightarrow> (bool \<times> buffer) list
    \<Rightarrow> (buffer list \<times> 'w list \<times> loop_end) go" where
  "session_through write_back isDns picks dest payload answers = do {
     (good, c) \<leftarrow> conn_writeTo True payload dest (new_conn dest);
     (rs, e) \<leftarrow> answer_session write_back isDns picks answers c;
     Some (written c, rs, e)
   }"

text \<open>The function \<open>processIPv4UDP\<close> gives to \<open>NewPacket\<close>, on a device whose writes succeed.\<close>

definition write_back4 :: "ip4_ops \<Rightarrow> 'u udp_ops_scheme \<Rightarrow> csum_ops \<Rightarrow> udp_flow \<Rightarrow> bytes writer" where
  "write_back4 H U C F payload addr =
     map_option (\<lambda>r. ([r], False)) (udp4_reply H U C (uf_template F) (fst (uf_source F))
       (reply_source addr (fst (uf_destination F)) (snd (uf_destination F))) payload)"

definition udp_session :: "ip4_ops \<Rightarrow> 'u udp_ops_scheme \<Rightarrow> csum_ops \<Rightarrow> (bytes \<Rightarrow> string) \<Rightarrow> bool \<Rightarrow> (nat \<Rightarrow> bool) \<Rightarrow> bytes \<Rightarrow> window
    \<Rightarrow> (bool \<times> buffer) list \<Rightarrow> (buffer list \<times> bytes list \<times> loop_end) go" where
  "udp_session H U C text_of isDns picks p w answers = do {
     F \<leftarrow> processIPv4UDP H U p w;
     session_through (write_back4 H U C F) isDns picks (ipv4_destination text_of (uf_destination F)) (uf_payload F) answers
   }"

section \<open>The relay on an open connection\<close>

definition relay_addr :: "bool \<Rightarrow> packet \<Rightarrow> (bytes \<times> int) option" where
  "relay_addr isDns p = (if isDns then None else Some (the (fst (udp_source p)), uint (snd (udp_source p))))"

text \<open>Every queued packet is written, up to and including the first one whose writing reports an error.\<close>

definition until_failure :: "('a \<Rightarrow> bool) \<Rightarrow> 'a list \<Rightarrow> 'a list" where
  "until_failure failed xs = take (Suc (length (takeWhile (\<lambda>x. \<not> failed x) xs))) xs"

lemma until_failure_simps [simp]:
  "until_failure failed [] = []"
  "until_failure failed (x # xs) = x # (if failed x then [] else until_failure failed xs)"
  by (simp_all add: until_failure_def)

lemma until_failure_none: "(\<And>x. x \<in> set xs \<Longrightarrow> \<not> failed x) \<Longrightarrow> until_failure failed xs = xs"
  by (induction xs) simp_all

lemma until_failure_map: "until_failure failed (map f xs) = map f (until_failure (failed \<circ> f) xs)"
  by (induction xs) simp_all

lemma until_failure_cong: "(\<And>x. x \<in> set xs \<Longrightarrow> f x = g x) \<Longrightarrow> until_failure f xs = until_failure g xs"
  by (induction xs) simp_all

lemma device_relay_open:
  assumes "\<not> ctx_done c" "\<not> cache_closed c" "length (cache c) < n"
    and "\<And>p. p \<in> set (cache c) \<Longrightarrow> fst (udp_source p) \<noteq> None \<and> write_back (pk_payload p) (relay_addr isDns p) = Some ([f p], failed p)"
  shows "device_relay write_back isDns picks n c =
    Some (map f (until_failure failed (cache c)), if \<exists>p \<in> set (cache c). failed p then Left else Stuck)"
  using assms
proof (induction n arbitrary: c)
  case (Suc n)
  show ?case
  proof (cases "cache c")
    case Nil
    then show ?thesis using Suc.prems by (simp add: conn_readFrom_def)
  next
    case (Cons p ps)
    then obtain ip where ip: "fst (udp_source p) = Some ip" and wb: "write_back (pk_payload p) (relay_addr isDns p) = Some ([f p], failed p)"
      using Suc.prems(4) [of p] by auto
    have "device_relay write_back isDns picks n (c\<lparr>cache := ps\<rparr>) =
        Some (map f (until_failure failed ps), if \<exists>p \<in> set ps. failed p then Left else Stuck)"
      using Suc.IH [of "c\<lparr>cache := ps\<rparr>"] Suc.prems Cons by simp
    then show ?thesis
      using Cons ip wb Suc.prems(1,2) by (cases isDns) (simp_all add: conn_readFrom_def relay_addr_def)
  qed
qed simp

text \<open>The packet an answer is queued as; it depends on the dialled destination only.\<close>

abbreviation queued :: "destination \<Rightarrow> buffer \<Rightarrow> packet" where
  "queued dest b \<equiv> packet_of (new_conn dest) b"

lemma packet_of_dest: "conn_dest c = dest \<Longrightarrow> packet_of c b = queued dest b"
  by (simp add: packet_of_def new_conn_def split: option.split)

text \<open>Up to sixteen answers are written back in order, as far as writing reports no error.\<close>

definition idle_conn :: "destination \<Rightarrow> dispatcher_conn \<Rightarrow> bool" where
  "idle_conn dest c \<longleftrightarrow> cache c = [] \<and> \<not> cache_closed c \<and> \<not> ctx_done c \<and> conn_dest c = dest"

lemma answer_session_writes:
  assumes c: "idle_conn dest c" and "length answers \<le> 16"
    and sent: "\<And>b. b \<in> set answers \<Longrightarrow> bf_bytes (snd b) \<noteq> [] \<and> fst (udp_source (queued dest (snd b))) \<noteq> None \<and>
      (\<exists>r. write_back (bf_bytes (snd b)) (relay_addr isDns (queued dest (snd b))) = Some ([r], failed b) \<and> R b r)"
  shows "\<exists>rs. answer_session write_back isDns picks answers c = Some (rs, if \<exists>b \<in> set answers. failed b then Left else Stuck) \<and>
     list_all2 R (until_failure failed answers) rs"
proof -
  have c: "cache c = []" "\<not> cache_closed c" "\<not> ctx_done c" "conn_dest c = dest"
    using c by (simp_all add: idle_conn_def)
  let ?pk = "\<lambda>b. queued dest (snd b)"
  let ?c = "c\<lparr>cache := map ?pk answers\<rparr>"
  have "filter (\<lambda>b. bf_bytes b \<noteq> []) (map snd answers) = map snd answers"
    using sent by (auto simp: filter_id_conv)
  then have batch: "handle_batch answers c = Some ?c"
    using handle_batch_open [of c answers] c assms(2) by (simp add: cache_cap_def comp_def packet_of_dest [OF c(4)])
  define w where "w = (\<lambda>pk. the (write_back (pk_payload pk) (relay_addr isDns pk)))"
  define f where "f = (\<lambda>pk. hd (fst (w pk)))"
  have payload: "pk_payload (queued dest b) = bf_bytes b" for b
    by (simp add: packet_of_def Let_def)
  have f: "write_back (pk_payload (?pk b)) (relay_addr isDns (?pk b)) = Some ([f (?pk b)], snd (w (?pk b))) \<and>
      snd (w (?pk b)) = failed b \<and> R b (f (?pk b))" if "b \<in> set answers" for b
    using sent [OF that] by (auto simp: f_def w_def payload)
  have "device_relay write_back isDns picks (Suc (length answers)) ?c =
      Some (map f (until_failure (snd \<circ> w) (cache ?c)), if \<exists>p \<in> set (cache ?c). (snd \<circ> w) p then Left else Stuck)"
    by (rule device_relay_open) (use c(2,3) sent f in \<open>auto simp del: device_relay.simps\<close>)
  moreover have "until_failure (snd \<circ> w) (map ?pk answers) = map ?pk (until_failure failed answers)"
    using f until_failure_cong [of answers "snd \<circ> w \<circ> ?pk" failed] by (simp add: until_failure_map)
  moreover have "(\<exists>p \<in> set (map ?pk answers). (snd \<circ> w) p) = (\<exists>b \<in> set answers. failed b)"
    using f by auto
  ultimately have "answer_session write_back isDns picks answers c =
      Some (map (f \<circ> ?pk) (until_failure failed answers), if \<exists>b \<in> set answers. failed b then Left else Stuck)"
    by (simp add: answer_session_def batch del: device_relay.simps)
  moreover have "list_all2 R (until_failure failed answers) (map (f \<circ> ?pk) (until_failure failed answers))"
  proof -
    have "b \<in> set answers" if "b \<in> set (until_failure failed answers)" for b
      using that in_set_takeD unfolding until_failure_def by fast
    then show ?thesis
      using f by (simp add: list_all2_map2 list.rel_refl_strong)
  qed
  ultimately show ?thesis by blast
qed

lemma session_through_writes:
  assumes "length answers \<le> 16"
    and "\<And>b. b \<in> set answers \<Longrightarrow> bf_bytes (snd b) \<noteq> [] \<and> fst (udp_source (queued dest (snd b))) \<noteq> None \<and>
      (\<exists>r. write_back (bf_bytes (snd b)) (relay_addr isDns (queued dest (snd b))) = Some ([r], failed b) \<and> R b r)"
  shows "\<exists>rs. session_through write_back isDns picks dest payload answers =
     Some ([\<lparr>bf_bytes = payload, bf_endpoint = Some dest\<rparr>], rs, if \<exists>b \<in> set answers. failed b then Left else Stuck) \<and>
     list_all2 R (until_failure failed answers) rs"
proof -
  obtain c where c: "conn_writeTo True payload dest (new_conn dest) = Some (True, c)"
    "written c = [\<lparr>bf_bytes = payload, bf_endpoint = Some dest\<rparr>]" "idle_conn dest c"
    by (simp add: conn_writeTo_def new_conn_def idle_conn_def)
  obtain rs where "answer_session write_back isDns picks answers c = Some (rs, if \<exists>b \<in> set answers. failed b then Left else Stuck)"
    "list_all2 R (until_failure failed answers) rs"
    using answer_session_writes [OF c(3) assms] by blast
  then show ?thesis
    by (simp add: session_through_def c(1,2))
qed

lemma session_through_delivers:
  assumes "length answers \<le> 16"
    and "\<And>b. b \<in> set answers \<Longrightarrow> bf_bytes (snd b) \<noteq> [] \<and> fst (udp_source (queued dest (snd b))) \<noteq> None \<and>
      (\<exists>r. write_back (bf_bytes (snd b)) (relay_addr isDns (queued dest (snd b))) = Some ([r], False) \<and> R b r)"
  shows "\<exists>rs. session_through write_back isDns picks dest payload answers =
     Some ([\<lparr>bf_bytes = payload, bf_endpoint = Some dest\<rparr>], rs, Stuck) \<and> list_all2 R answers rs"
  using session_through_writes [where failed = "\<lambda>_. False", OF assms] by (simp add: until_failure_none)

section \<open>Answers\<close>

text \<open>Answers the IPv4 code can write: not empty, and from a domain, an IPv4 address or the dialled server.\<close>

definition ipv4_buffer :: "buffer \<Rightarrow> bool" where
  "ipv4_buffer b \<longleftrightarrow> bf_bytes b \<noteq> [] \<and>
     (case bf_endpoint b of
        None \<Rightarrow> True
      | Some e \<Rightarrow> addr_family (dst_address e) = FamilyDomain \<or> (case addr_ip (dst_address e) of None \<Rightarrow> False | Some ip \<Rightarrow> length ip = 4))"

text \<open>Where the client sees an answer come from.\<close>

definition answer_peer :: "bool \<Rightarrow> bytes \<times> u16 \<Rightarrow> buffer \<Rightarrow> bytes \<times> u16" where
  "answer_peer isDns server b =
     (if isDns then server
      else case bf_endpoint b of
        None \<Rightarrow> server
      | Some e \<Rightarrow> (if addr_family (dst_address e) = FamilyDomain then [0, 0, 0, 0] else the (addr_ip (dst_address e)), dst_port e))"

lemma uint16_of_uint [simp]: "uint16_of (uint (x :: u16)) = x"
  by (simp add: uint16_of_def)

lemma answer_source:
  assumes "ipv4_buffer b" "conn_dest c = ipv4_destination text_of server" "length (fst server) = 4"
  shows "\<exists>ip. fst (udp_source (packet_of c b)) = Some ip \<and> length ip = 4 \<and>
    reply_source (relay_addr isDns (packet_of c b)) (fst server) (snd server) = answer_peer isDns server b"
  using assms
  by (auto simp: ipv4_buffer_def packet_of_def udp_source_def ip_target_def relay_addr_def reply_source_def answer_peer_def
      AnyIP_def Let_def split: option.splits)

section \<open>Property\<close>

text \<open>
  C3.  A UDP session through the program: the core gets the payload of the client's packet for
  its destination, and every answer of up to sixteen queued ones reaches the device, in
  order, as a datagram to the client with verifying checksums; it comes from the answer's
  end point, from the dialled server when it has none or the server is the tun's own DNS,
  and from 0.0.0.0 when the end point is a domain.
\<close>

theorem udp_session_delivers:
  assumes "udp_nat4 H tmpl U uvalid valid"
    and "segment H valid uvalid w p" and "ip_source H p = Some src" and "ip_destination H p = Some dst"
    and "udp_source_port U (view w p) = Some sp" and "udp_destination_port U (view w p) = Some dp"
    and "length answers \<le> 16" and "\<forall>b \<in> set answers. ipv4_buffer (snd b)"
  shows "\<exists>payload rs. udp_session H U C text_of isDns picks p w answers =
      Some ([\<lparr>bf_bytes = payload, bf_endpoint = Some (ipv4_destination text_of (dst, dp))\<rparr>], rs, Stuck) \<and>
     take (snd w - UDPMinimumSize) payload = drop UDPMinimumSize (view w p) \<and>
     list_all2 (\<lambda>b r. udp4_answer H U C (answer_peer isDns (dst, dp) (snd b)) (src, sp) (bf_bytes (snd b)) r) answers rs"
proof -
  have "ip_header H valid 4" using assms(1) by (simp add: udp_nat4_def ip_window_def)
  then have dst: "length dst = 4"
    using ip_header.destination_total [of H valid 4 p] assms(2,4) by (auto simp: segment_def)
  obtain F where F: "processIPv4UDP H U p w = Some F" "uf_source F = (src, sp)" "uf_destination F = (dst, dp)"
    "take (snd w - UDPMinimumSize) (uf_payload F) = drop UDPMinimumSize (view w p)"
    and reply: "\<And>peer payload. length (fst peer) = 4 \<Longrightarrow>
        \<exists>r. udp4_reply H U C (uf_template F) src peer payload = Some r \<and> udp4_answer H U C peer (src, sp) payload r"
    using udp_nat4.conversation4 [OF assms(1-6), of C] by blast
  let ?dest = "ipv4_destination text_of (dst, dp)"
  let ?R = "\<lambda>b r. udp4_answer H U C (answer_peer isDns (dst, dp) (snd b)) (src, sp) (bf_bytes (snd b)) r"
  have sent: "bf_bytes (snd b) \<noteq> [] \<and> fst (udp_source (queued ?dest (snd b))) \<noteq> None \<and>
      (\<exists>r. write_back4 H U C F (bf_bytes (snd b)) (relay_addr isDns (queued ?dest (snd b))) = Some ([r], False) \<and> ?R b r)"
    if "b \<in> set answers" for b
  proof -
    have buffer: "ipv4_buffer (snd b)" using assms(8) that by blast
    obtain ip where ip: "fst (udp_source (queued ?dest (snd b))) = Some ip" "length ip = 4"
      "reply_source (relay_addr isDns (queued ?dest (snd b))) dst dp = answer_peer isDns (dst, dp) (snd b)"
      using answer_source [OF buffer, of "new_conn ?dest" text_of "(dst, dp)" isDns] dst by (auto simp: new_conn_def)
    have "length (fst (reply_source (relay_addr isDns (queued ?dest (snd b))) dst dp)) = 4"
      using ip(1,2) dst by (simp add: relay_addr_def reply_source_def)
    from reply [OF this, of "bf_bytes (snd b)"] show ?thesis
      using ip buffer by (auto simp: ipv4_buffer_def write_back4_def F(2,3))
  qed
  have "\<exists>rs. session_through (write_back4 H U C F) isDns picks ?dest (uf_payload F) answers =
     Some ([\<lparr>bf_bytes = uf_payload F, bf_endpoint = Some ?dest\<rparr>], rs, Stuck) \<and> list_all2 ?R answers rs"
    by (rule session_through_delivers [OF assms(7) sent])
  then show ?thesis
    using F(4) by (auto simp: udp_session_def F(1,3))
qed

theorem udp_session_delivers_witness:
  "\<exists>payload r. udp_session rfc791 rfc768 rfc1071 (\<lambda>_. []) False (\<lambda>_. True) dns_query (20, 10) [(True, \<lparr>bf_bytes = [3, 4, 5], bf_endpoint = None\<rparr>)] =
      Some ([\<lparr>bf_bytes = payload, bf_endpoint = Some (ipv4_destination (\<lambda>_. []) ([8, 8, 8, 8], 53))\<rparr>], [r], Stuck) \<and>
     take 2 payload = [1, 2] \<and> udp4_answer rfc791 rfc768 rfc1071 ([8, 8, 8, 8], 53) ([172, 19, 0, 1], 0xC000) [3, 4, 5] r"
proof -
  let ?a = "[(True, \<lparr>bf_bytes = [3, 4, 5], bf_endpoint = None\<rparr>)] :: (bool \<times> buffer) list"
  have q: "ip_source rfc791 dns_query = Some [172, 19, 0, 1]" "ip_destination rfc791 dns_query = Some [8, 8, 8, 8]"
    "udp_source_port rfc768 (view (20, 10) dns_query) = Some 0xC000"
    "udp_destination_port rfc768 (view (20, 10) dns_query) = Some 53"
    by (simp_all add: dns_query_def get_at_def get16_def view_def be16_def)
  have a: "length ?a \<le> 16" "\<forall>b \<in> set ?a. ipv4_buffer (snd b)" by (simp_all add: ipv4_buffer_def)
  have "drop UDPMinimumSize (view (20, 10) dns_query) = [1, 2]" by (simp add: dns_query_def view_def UDPMinimumSize_def)
  with udp_session_delivers [OF rfc_nat4.udp_nat4_axioms dns_query_segment q a, of rfc1071 "\<lambda>_. []" False "\<lambda>_. True"]
  show ?thesis by (auto simp: list_all2_Cons1 answer_peer_def UDPMinimumSize_def)
qed

end
