(* ===== verification/NatIcmp.thy ===== *)
theory NatIcmp
  imports NatUdp
begin

text \<open>
  \<open>nat/icmp.go\<close>: an echo request of an application is handed to \<open>NewPingPacket\<close> with a
  function that writes each ICMP message that comes back to the device behind a copy of the
  request's own IP header, its addresses swapped.  A destination-unreachable message is
  rebuilt around a quotation of the request.  When no route wants the request, it is
  answered in place.

  This theory models both handlers and treats IPv4; \<open>NatIcmp6\<close> treats IPv6.
\<close>

section \<open>Interface\<close>

text \<open>
  \<open>header.ICMPv4\<close> and \<open>header.ICMPv6\<close>, which share their first four bytes, with
  \<open>header.ICMPv4Checksum\<close> (header, payload sum) and \<open>header.ICMPv6Checksum\<close> (header, source,
  destination, payload sum, payload length).
\<close>

record icmp_ops =
  icmp_type :: "bytes \<Rightarrow> byte go"
  icmp_code :: "bytes \<Rightarrow> byte go"
  icmp_set_type :: "byte \<Rightarrow> bytes \<Rightarrow> bytes go"
  icmp_set_checksum :: "u16 \<Rightarrow> bytes \<Rightarrow> bytes go"
  icmp4_compute :: "bytes \<Rightarrow> u16 \<Rightarrow> u16 go"
  icmp6_compute :: "bytes \<Rightarrow> bytes \<Rightarrow> bytes \<Rightarrow> u16 \<Rightarrow> nat \<Rightarrow> u16 go"

definition ICMPv4EchoReply :: byte where "ICMPv4EchoReply = 0"
definition ICMPv4DstUnreachable :: byte where "ICMPv4DstUnreachable = 3"
definition ICMPv4Echo :: byte where "ICMPv4Echo = 8"
definition ICMPv6DstUnreachable :: byte where "ICMPv6DstUnreachable = 1"
definition ICMPv6EchoRequest :: byte where "ICMPv6EchoRequest = 128"
definition ICMPv6EchoReply :: byte where "ICMPv6EchoReply = 129"
definition ICMPv6ProtocolNumber :: byte where "ICMPv6ProtocolNumber = 58"

lemmas icmp_consts = ICMPv4EchoReply_def ICMPv4DstUnreachable_def ICMPv4Echo_def
  ICMPv6DstUnreachable_def ICMPv6EchoRequest_def ICMPv6EchoReply_def ICMPv6ProtocolNumber_def

text \<open>
  The checksum functions skip the checksum field and complement the sum, so that storing
  their result makes the message verify.
\<close>

locale icmp_header =
  fixes I :: icmp_ops and ivalid :: "bytes \<Rightarrow> bool" and C :: csum_ops
  assumes icmp_total: "ivalid m \<Longrightarrow> \<exists>t c. icmp_type I m = Some t \<and> icmp_code I m = Some c"
    and type_first: "m \<noteq> [] \<Longrightarrow> icmp_type I m = Some (hd m)"
    and set_type: "ivalid m \<Longrightarrow>
      \<exists>q. icmp_set_type I t m = Some q \<and> ivalid q \<and> length q = length m \<and> icmp_type I q = Some t \<and>
        icmp_code I q = icmp_code I m \<and> drop 4 q = drop 4 m"
    and set_icmp_checksum: "ivalid m \<Longrightarrow>
      \<exists>q. icmp_set_checksum I c m = Some q \<and> ivalid q \<and> length q = length m \<and> icmp_type I q = icmp_type I m \<and>
        icmp_code I q = icmp_code I m \<and> drop 4 q = drop 4 m"
    and compute4_total: "ivalid m \<Longrightarrow> \<exists>c. icmp4_compute I m x = Some c"
    and compute4: "ivalid m \<Longrightarrow> icmp4_compute I m x = Some c \<Longrightarrow> icmp_set_checksum I c m = Some q \<Longrightarrow>
      ocadd (cs_checksum C q 0) x = 0xFFFF"
    and compute6_total: "ivalid m \<Longrightarrow> \<exists>c. icmp6_compute I m a b x n = Some c"
    and compute6: "ivalid m \<Longrightarrow> icmp6_compute I m a b x n = Some c \<Longrightarrow> icmp_set_checksum I c m = Some q \<Longrightarrow>
      ocadd (cs_checksum C q (cs_pseudo C ICMPv6ProtocolNumber a b (word_of_nat (length m + n)))) x = 0xFFFF"

section \<open>Requests\<close>

text \<open>
  What a request is handed on as: its end points (the destination port is 7), the copy of
  its IP header, the quotation for errors, the length of the request and the message
  (\<open>cache.Resize\<close>).
\<close>

record ping_flow =
  pf_source :: bytes
  pf_destination :: bytes
  pf_header :: bytes
  pf_origin :: bytes
  pf_length :: nat
  pf_message :: bytes

datatype icmp_result = IcmpIgnored | IcmpHanded ping_flow | IcmpAnswered ping_flow bytes

text \<open>
  \<open>processICMPv4\<close>; \<open>accepts\<close> is the answer of \<open>NewPingPacket\<close>, \<open>w\<close> the window of \<open>hdr\<close>.
  The handler's result is \<open>true\<close>, the packet's buffer is taken, exactly for \<open>IcmpHanded\<close>.
\<close>

definition processICMPv4 :: "ip4_ops \<Rightarrow> icmp_ops \<Rightarrow> (ping_flow \<Rightarrow> bool) \<Rightarrow> bytes \<Rightarrow> window \<Rightarrow> icmp_result go" where
  "processICMPv4 H I accepts p w = do {
     t \<leftarrow> icmp_type I (view w p);
     ignored \<leftarrow> (if t \<noteq> ICMPv4Echo then Some True else map_option (\<lambda>c. c \<noteq> 0) (icmp_code I (view w p)));
     if ignored then Some IcmpIgnored
     else do {
       src \<leftarrow> ip_source H p;
       dst \<leftarrow> ip_destination H p;
       p \<leftarrow> ip_set_source H dst p;
       p \<leftarrow> ip_set_destination H src p;
       p \<leftarrow> ip4_write_checksum H p;
       hl \<leftarrow> ip4_header_length H p;
       netHdr \<leftarrow> slice 0 hl p;
       originHdr \<leftarrow> slice 0 (hl + min (snd w) 8) p;
       let F = \<lparr>pf_source = src, pf_destination = dst, pf_header = netHdr, pf_origin = originHdr,
                pf_length = snd w, pf_message = drop hl p\<rparr>;
       if accepts F then Some (IcmpHanded F)
       else do {
         p \<leftarrow> on_window w (icmp_set_type I ICMPv4EchoReply) p;
         p \<leftarrow> on_window w (icmp_set_checksum I 0) p;
         c \<leftarrow> icmp4_compute I (view w p) 0;
         p \<leftarrow> on_window w (icmp_set_checksum I c) p;
         Some (IcmpAnswered F p)
       }
     }
   }"

text \<open>
  \<open>processICMPv6\<close>.  The header length is what the payload length leaves of the packet, an
  \<open>int\<close> that may be negative.
\<close>

definition processICMPv6 :: "ip6_ops \<Rightarrow> icmp_ops \<Rightarrow> (ping_flow \<Rightarrow> bool) \<Rightarrow> bytes \<Rightarrow> window \<Rightarrow> icmp_result go" where
  "processICMPv6 H I accepts p w = do {
     t \<leftarrow> icmp_type I (view w p);
     ignored \<leftarrow> (if t \<noteq> ICMPv6EchoRequest then Some True else map_option (\<lambda>c. c \<noteq> 0) (icmp_code I (view w p)));
     if ignored then Some IcmpIgnored
     else do {
       src \<leftarrow> ip_source H p;
       dst \<leftarrow> ip_destination H p;
       p \<leftarrow> ip_set_source H dst p;
       p \<leftarrow> ip_set_destination H src p;
       pl \<leftarrow> ip6_payload_length H p;
       if length p < unat pl then panic
       else do {
         let hl = length p - unat pl;
         netHdr \<leftarrow> slice 0 hl p;
         originHdr \<leftarrow> slice 0 (hl + min (snd w) 8) p;
         let F = \<lparr>pf_source = src, pf_destination = dst, pf_header = netHdr, pf_origin = originHdr,
                  pf_length = snd w, pf_message = drop hl p\<rparr>;
         if accepts F then Some (IcmpHanded F)
         else do {
           p \<leftarrow> on_window w (icmp_set_type I ICMPv6EchoReply) p;
           p \<leftarrow> on_window w (icmp_set_checksum I 0) p;
           src' \<leftarrow> ip_source H p;
           dst' \<leftarrow> ip_destination H p;
           c \<leftarrow> icmp6_compute I (view w p) src' dst' 0 0;
           p \<leftarrow> on_window w (icmp_set_checksum I c) p;
           Some (IcmpAnswered F p)
         }
       }
     }
   }"

section \<open>Messages that come back\<close>

text \<open>
  The error rebuilt around the quotation: four bytes of the message, four bytes nobody
  writes, the quotation.  \<open>stale n\<close> are the \<open>n\<close> bytes \<open>headerCache.Extend\<close> uncovers, which
  it does not clear.
\<close>

definition unreachable :: "(nat \<Rightarrow> bytes) \<Rightarrow> bytes \<Rightarrow> bytes \<Rightarrow> bytes" where
  "unreachable stale origin message =
     (let u = stale (8 + length origin)
      in copy_into (take 4 u) message @ take 4 (drop 4 u) @ copy_into (drop 8 u) origin)"

text \<open>The new length and the incremental update of the header checksum.\<close>

definition icmp4_header :: "ip4_ops \<Rightarrow> csum_ops \<Rightarrow> bytes \<Rightarrow> nat \<Rightarrow> bytes go" where
  "icmp4_header H C netHdr n = do {
     oldLen \<leftarrow> ip4_total_length H netHdr;
     h \<leftarrow> ip4_set_total_length H (word_of_nat (length netHdr + n)) netHdr;
     c \<leftarrow> ip4_checksum H h;
     newLen \<leftarrow> ip4_total_length H h;
     ip4_set_checksum H (NOT (cs_combine C (NOT c) (cs_combine C newLen (NOT oldLen)))) h
   }"

text \<open>
  The function \<open>processICMPv4\<close> gives to \<open>NewPingPacket\<close>: the packet it writes, and whether it
  returns \<open>ENETUNREACH\<close>.
\<close>

definition icmp4_back :: "ip4_ops \<Rightarrow> icmp_ops \<Rightarrow> csum_ops \<Rightarrow> (nat \<Rightarrow> bytes) \<Rightarrow> ping_flow \<Rightarrow> bytes \<Rightarrow> (bytes \<times> bool) go" where
  "icmp4_back H I C stale F message = do {
     t \<leftarrow> icmp_type I message;
     let icmpHdr = (if t = ICMPv4DstUnreachable then unreachable stale (pf_origin F) message else message);
     h \<leftarrow> (if length icmpHdr \<noteq> pf_length F then icmp4_header H C (pf_header F) (length message)
          else Some (pf_header F));
     t' \<leftarrow> icmp_type I icmpHdr;
     Some (h @ icmpHdr, t' = ICMPv4DstUnreachable)
   }"

text \<open>
  The function \<open>processICMPv6\<close> gives to \<open>NewPingPacket\<close>.  It reads the addresses of the
  checksum from \<open>ipHdr\<close>, a slice of the packet's buffer, at the time the message comes
  back: \<open>now\<close> is what that memory holds then.
\<close>

definition icmp6_back :: "ip6_ops \<Rightarrow> icmp_ops \<Rightarrow> (nat \<Rightarrow> bytes) \<Rightarrow> bytes \<Rightarrow> ping_flow \<Rightarrow> bytes \<Rightarrow> (bytes \<times> bool) go" where
  "icmp6_back H I stale now F message = do {
     t \<leftarrow> icmp_type I message;
     let icmpHdr = (if t = ICMPv6DstUnreachable then unreachable stale (pf_origin F) message else message);
     h \<leftarrow> (if length icmpHdr \<noteq> pf_length F then ip6_set_payload_length H (word_of_nat (length icmpHdr)) (pf_header F)
          else Some (pf_header F));
     icmpHdr \<leftarrow> icmp_set_checksum I 0 icmpHdr;
     src \<leftarrow> ip_source H now;
     dst \<leftarrow> ip_destination H now;
     c \<leftarrow> icmp6_compute I icmpHdr src dst 0 0;
     icmpHdr \<leftarrow> icmp_set_checksum I c icmpHdr;
     t' \<leftarrow> icmp_type I icmpHdr;
     Some (h @ icmpHdr, t' = ICMPv6DstUnreachable)
   }"

section \<open>IPv4\<close>

text \<open>
  A copied header: \<open>head\<close> says that it is one.  Its sum is the sum of the other words, which
  is not zero, the length and the checksum; writing back what a field holds changes nothing.
\<close>

locale ip4_head =
  fixes H :: ip4_ops and head :: "bytes \<Rightarrow> bool"
  assumes head_fields: "head h \<Longrightarrow> \<exists>n c. ip4_total_length H h = Some n \<and> ip4_checksum H h = Some c"
    and head_set_length: "head h \<Longrightarrow>
      \<exists>q. ip4_set_total_length H n h = Some q \<and> head q \<and> length q = length h \<and> ip4_total_length H q = Some n \<and>
        ip4_checksum H q = ip4_checksum H h \<and> ip_source H q = ip_source H h \<and> ip_destination H q = ip_destination H h"
    and head_set_checksum: "head h \<Longrightarrow>
      \<exists>q. ip4_set_checksum H c h = Some q \<and> head q \<and> length q = length h \<and> ip4_checksum H q = Some c \<and>
        ip4_total_length H q = ip4_total_length H h \<and> ip_source H q = ip_source H h \<and> ip_destination H q = ip_destination H h"
    and head_same: "head h \<Longrightarrow> ip4_total_length H h = Some n \<Longrightarrow> ip4_checksum H h = Some c \<Longrightarrow>
      ip4_set_total_length H n h = Some h \<and> ip4_set_checksum H c h = Some h"
    and head_sum: "head h \<Longrightarrow>
      \<exists>rest. rest \<noteq> 0 \<and> (\<forall>n c q r. ip4_set_total_length H n h = Some q \<longrightarrow> ip4_set_checksum H c q = Some r \<longrightarrow>
        ip4_calculate_checksum H r = Some (ocadd rest (ocadd n c)))"
begin

text \<open>The incremental update keeps a header that verifies verifying.\<close>

lemma header_update:
  assumes h: "head h" and ok: "ip4_calculate_checksum H h = Some 0xFFFF" and comb: "cs_combine C = ocadd"
  shows "\<exists>q. icmp4_header H C h n = Some q \<and> length q = length h \<and>
     ip4_total_length H q = Some (word_of_nat (length h + n)) \<and> ip4_calculate_checksum H q = Some 0xFFFF \<and>
     ip_source H q = ip_source H h \<and> ip_destination H q = ip_destination H h"
proof -
  let ?n = "word_of_nat (length h + n) :: u16"
  obtain old c where f: "ip4_total_length H h = Some old" "ip4_checksum H h = Some c"
    using head_fields [OF h] by blast
  obtain rest where rest: "rest \<noteq> 0"
    "\<And>n c q r. ip4_set_total_length H n h = Some q \<Longrightarrow> ip4_set_checksum H c q = Some r \<Longrightarrow>
       ip4_calculate_checksum H r = Some (ocadd rest (ocadd n c))"
    using head_sum [OF h] by blast
  have v: "ocadd rest (ocadd old c) = 0xFFFF"
    using rest(2) [of old h c h] head_same [OF h f] ok by simp
  obtain p where p: "ip4_set_total_length H ?n h = Some p" "head p" "length p = length h" "ip4_total_length H p = Some ?n"
    "ip4_checksum H p = Some c" "ip_source H p = ip_source H h" "ip_destination H p = ip_destination H h"
    using head_set_length [OF h, of ?n] f by auto
  let ?c = "NOT (ocadd (NOT c) (ocadd ?n (NOT old)))"
  obtain q where q: "ip4_set_checksum H ?c p = Some q" "length q = length p" "ip4_total_length H q = Some ?n"
    "ip_source H q = ip_source H h" "ip_destination H q = ip_destination H h"
    using head_set_checksum [OF p(2), of ?c] p by auto
  have "ip4_calculate_checksum H q = Some 0xFFFF"
    using rest(2) [OF p(1) q(1)] incremental_update [OF v rest(1), of ?n] by simp
  then show ?thesis
    using f p q comb by (simp add: icmp4_header_def del: of_nat_add)
qed

end

text \<open>
  \<open>icmp4_frame\<close>: the header of a packet from \<open>peer\<close> to \<open>client\<close> with \<open>n\<close> bytes behind it;
  \<open>icmp4_reply\<close>: an echo reply whose two checksums verify; \<open>ping_quote\<close>: what an error
  quotes behind the header.
\<close>

definition icmp4_frame :: "ip4_ops \<Rightarrow> bytes \<Rightarrow> bytes \<Rightarrow> bytes \<Rightarrow> nat \<Rightarrow> bool" where
  "icmp4_frame H peer client h n \<longleftrightarrow> ip_source H h = Some peer \<and> ip_destination H h = Some client \<and>
     ip4_total_length H h = Some (word_of_nat (length h + n)) \<and> ip4_calculate_checksum H h = Some 0xFFFF"

definition icmp4_reply :: "ip4_ops \<Rightarrow> icmp_ops \<Rightarrow> csum_ops \<Rightarrow> bytes \<Rightarrow> bytes \<Rightarrow> window \<Rightarrow> bytes \<Rightarrow> bool" where
  "icmp4_reply H I C peer client w q \<longleftrightarrow> ip_source H q = Some peer \<and> ip_destination H q = Some client \<and>
     ip4_calculate_checksum H q = Some 0xFFFF \<and> icmp_type I (view w q) = Some ICMPv4EchoReply \<and>
     icmp_code I (view w q) = Some 0 \<and> cs_checksum C (view w q) 0 = 0xFFFF"

definition ping_quote :: "ping_flow \<Rightarrow> bytes" where
  "ping_quote F = drop (length (pf_header F)) (pf_origin F)"

text \<open>What a rebuilt error holds.\<close>

lemma length_unreachable: "(\<And>n. length (stale n) = n) \<Longrightarrow> length (unreachable stale origin message) = 8 + length origin"
  by (simp add: unreachable_def Let_def)

lemma hd_unreachable: "(\<And>n. length (stale n) = n) \<Longrightarrow> message \<noteq> [] \<Longrightarrow> hd (unreachable stale origin message) = hd message"
  by (cases message) (simp_all add: unreachable_def Let_def copy_into_def)

lemma drop_unreachable: "(\<And>n. length (stale n) = n) \<Longrightarrow> drop 8 (unreachable stale origin message) = origin"
  by (simp add: unreachable_def Let_def copy_into_def)

lemma take_unreachable: "(\<And>n. length (stale n) = n) \<Longrightarrow> 4 \<le> length message \<Longrightarrow>
    take 4 (unreachable stale origin message) = take 4 message"
  by (simp add: unreachable_def Let_def copy_into_def)

text \<open>The messages that come back need a copied header only.\<close>

locale icmp4_answers = icmp_header I ivalid C + ip4_head H head
  for H :: ip4_ops and I :: icmp_ops and ivalid and C :: csum_ops and head +
  assumes combine_ocadd: "cs_combine C = ocadd"
begin

text \<open>A message that is not a destination-unreachable error goes back behind a right header.\<close>

lemma message_back4:
  assumes F: "head (pf_header F)" "icmp4_frame H peer client (pf_header F) (pf_length F)"
    and t: "icmp_type I message = Some t" "t \<noteq> ICMPv4DstUnreachable"
  shows "\<exists>h. icmp4_back H I C stale F message = Some (h @ message, False) \<and> icmp4_frame H peer client h (length message)"
proof (cases "length message = pf_length F")
  case True
  with F t show ?thesis by (simp add: icmp4_back_def Let_def)
next
  case False
  obtain q where "icmp4_header H C (pf_header F) (length message) = Some q" "length q = length (pf_header F)"
    "ip4_total_length H q = Some (word_of_nat (length (pf_header F) + length message))"
    "ip4_calculate_checksum H q = Some 0xFFFF"
    "ip_source H q = ip_source H (pf_header F)" "ip_destination H q = ip_destination H (pf_header F)"
    using header_update [OF F(1) _ combine_ocadd] F(2) by (auto simp: icmp4_frame_def)
  with False F t show ?thesis
    by (auto simp: icmp4_back_def icmp4_frame_def Let_def simp del: of_nat_add)
qed

text \<open>
  A rebuilt error: its IP header verifies, but the length field counts the message that
  was received, not the one that is written, unless the latter is as long as the request.
\<close>

lemma unreachable_back4:
  assumes F: "head (pf_header F)" "icmp4_frame H peer client (pf_header F) (pf_length F)"
    and t: "icmp_type I message = Some ICMPv4DstUnreachable" "message \<noteq> []" and stale: "\<And>n. length (stale n) = n"
  shows "\<exists>h. icmp4_back H I C stale F message = Some (h @ unreachable stale (pf_origin F) message, True) \<and>
     length h = length (pf_header F) \<and> ip_source H h = Some peer \<and> ip_destination H h = Some client \<and>
     ip4_calculate_checksum H h = Some 0xFFFF \<and>
     ip4_total_length H h = Some (word_of_nat (length h +
       (if 8 + length (pf_origin F) = pf_length F then 8 + length (pf_origin F) else length message)))"
proof -
  let ?u = "unreachable stale (pf_origin F) message"
  note u = length_unreachable [OF stale]
  have "hd ?u = hd message" "?u \<noteq> []"
    using hd_unreachable [OF stale t(2)] u [of "pf_origin F" message] by auto
  then have t': "icmp_type I ?u = Some ICMPv4DstUnreachable"
    using type_first [of ?u] type_first [OF t(2)] t(1) by simp
  show ?thesis
  proof (cases "length ?u = pf_length F")
    case True
    with F t t' u show ?thesis by (simp add: icmp4_back_def Let_def icmp4_frame_def del: of_nat_add)
  next
    case False
    obtain q where "icmp4_header H C (pf_header F) (length message) = Some q" "length q = length (pf_header F)"
      "ip4_total_length H q = Some (word_of_nat (length (pf_header F) + length message))"
      "ip4_calculate_checksum H q = Some 0xFFFF"
      "ip_source H q = ip_source H (pf_header F)" "ip_destination H q = ip_destination H (pf_header F)"
      using header_update [OF F(1) _ combine_ocadd] F(2) by (auto simp: icmp4_frame_def)
    with False F t t' u show ?thesis
      by (auto simp: icmp4_back_def icmp4_frame_def Let_def simp del: of_nat_add)
  qed
qed

end

text \<open>A packet with an ICMP message, and the header cut from it.\<close>

locale icmp4_packets = ip4_window H valid 4 ivalid + icmp4_answers H I ivalid C head
  for H :: ip4_ops and valid and I :: icmp_ops and ivalid and C :: csum_ops and head +
  assumes cut_head: "segment H valid ivalid w p \<Longrightarrow>
      \<exists>hl. ip4_header_length H p = Some hl \<and> fst w = hl \<and> head (take hl p) \<and>
        ip_source H (take hl p) = ip_source H p \<and> ip_destination H (take hl p) = ip_destination H p \<and>
        ip4_total_length H (take hl p) = Some (word_of_nat (hl + snd w)) \<and>
        ip4_calculate_checksum H (take hl p) = ip4_calculate_checksum H p"
begin

lemma seg_valid: "seg w p \<Longrightarrow> ivalid (view w p)"
  by (simp add: segment_def)

text \<open>A setter of the ICMP header, through the window.\<close>

lemma message_setter:
  assumes p: "seg w p" and f: "f (view w p) = Some v" "ivalid v" "length v = length (view w p)"
  shows "\<exists>q. on_window w f p = Some q \<and> seg w q \<and> view w q = v \<and> ip_source H q = ip_source H p \<and>
     ip_destination H q = ip_destination H p \<and> ip4_calculate_checksum H q = ip4_calculate_checksum H p"
proof -
  obtain q where q: "on_window w f p = Some q" "q = splice w v p" "seg w q" "view w q = v"
     "ip_source H q = ip_source H p" "ip_destination H q = ip_destination H p"
    using on_window_ok [where f = f, OF p f] by blast
  moreover have "length v = snd w"
    using f(3) length_view [OF segment_window [OF p]] by simp
  then have "ip4_calculate_checksum H q = ip4_calculate_checksum H p"
    using calculate_splice [of p w v] p q(2) by (simp add: segment_def)
  ultimately show ?thesis by blast
qed

text \<open>The addresses swapped, the checksum written and the header cut off.\<close>

lemma swapped:
  assumes p: "seg w p" and src: "ip_source H p = Some src" and dst: "ip_destination H p = Some dst"
  shows "\<exists>p1 p2 q hl. ip_set_source H dst p = Some p1 \<and> ip_set_destination H src p1 = Some p2 \<and>
     ip4_write_checksum H p2 = Some q \<and> seg w q \<and> view w q = view w p \<and> length q = length p \<and>
     ip_source H q = Some dst \<and> ip_destination H q = Some src \<and> ip4_calculate_checksum H q = Some 0xFFFF \<and>
     ip4_header_length H q = Some hl \<and> fst w = hl \<and> hl + snd w \<le> length q \<and> head (take hl q) \<and>
     ip_source H (take hl q) = Some dst \<and> ip_destination H (take hl q) = Some src \<and>
     ip4_total_length H (take hl q) = Some (word_of_nat (hl + snd w)) \<and>
     ip4_calculate_checksum H (take hl q) = Some 0xFFFF"
proof -
  have v: "valid p" using p by (simp add: segment_def)
  have len: "length src = 4" "length dst = 4"
    using source_total [OF v] destination_total [OF v] src dst by auto
  obtain p1 where p1: "ip_set_source H dst p = Some p1" "seg w p1" "length p1 = length p" "view w p1 = view w p"
    "ip_source H p1 = Some dst"
    using set_source_ok [OF p len(2)] by blast
  obtain p2 where p2: "ip_set_destination H src p1 = Some p2" "seg w p2" "length p2 = length p1" "view w p2 = view w p1"
    "ip_source H p2 = Some dst" "ip_destination H p2 = Some src"
    using set_destination_ok [OF p1(2) len(1)] p1(5) by auto
  have v2: "valid p2" using p2(2) by (simp add: segment_def)
  obtain q where q: "ip4_write_checksum H p2 = Some q" "seg w q" "view w q = view w p2"
    "ip_source H q = Some dst" "ip_destination H q = Some src" "ip4_calculate_checksum H q = Some 0xFFFF"
    using write_checksum_ok [OF p2(2)] p2(5,6) by auto
  have lq: "length q = length p2"
  proof -
    obtain a where a: "ip4_set_checksum H 0 p2 = Some a" "valid a" "length a = length p2"
      using set_checksum [OF v2, of 0] by blast
    obtain c where c: "ip4_calculate_checksum H a = Some c"
      using calculate [OF a(2)] by blast
    obtain b where "ip4_set_checksum H (NOT c) a = Some b" "length b = length a"
      using set_checksum [OF a(2), of "NOT c"] by blast
    with a c q(1) show ?thesis by (simp add: ip4_write_checksum_def)
  qed
  obtain hl where hl: "ip4_header_length H q = Some hl" "fst w = hl" "head (take hl q)"
    "ip_source H (take hl q) = Some dst" "ip_destination H (take hl q) = Some src"
    "ip4_total_length H (take hl q) = Some (word_of_nat (hl + snd w))"
    "ip4_calculate_checksum H (take hl q) = Some 0xFFFF"
    using cut_head [OF q(2)] q(4-6) by auto
  have "fst w + snd w \<le> length q"
    using segment_window [OF q(2)] by (simp add: window_in_def)
  with p1 p2 q hl lq show ?thesis by auto
qed

lemma type_nonempty: "icmp_type I m = Some t \<Longrightarrow> ivalid m \<Longrightarrow> m \<noteq> [] \<Longrightarrow> hd m = t"
  using type_first by fastforce

text \<open>The request is handed on or answered in place.\<close>

lemma request4:
  assumes p: "seg w p" and t: "icmp_type I (view w p) = Some ICMPv4Echo" and c: "icmp_code I (view w p) = Some 0"
    and src: "ip_source H p = Some src" and dst: "ip_destination H p = Some dst"
  shows "\<exists>F. pf_source F = src \<and> pf_destination F = dst \<and> pf_length F = snd w \<and>
     take (snd w) (pf_message F) = view w p \<and> head (pf_header F) \<and>
     ping_quote F = take 8 (view w p) \<and>
     icmp4_frame H dst src (pf_header F) (snd w) \<and> take (length (pf_header F)) (pf_origin F) = pf_header F \<and>
     (accepts F \<longrightarrow> processICMPv4 H I accepts p w = Some (IcmpHanded F)) \<and>
     (\<not> accepts F \<longrightarrow> (\<exists>q. processICMPv4 H I accepts p w = Some (IcmpAnswered F q) \<and> seg w q \<and>
        icmp4_reply H I C dst src w q \<and> drop 4 (view w q) = drop 4 (view w p)))"
proof -
  obtain p1 p2 q hl where s: "ip_set_source H dst p = Some p1" "ip_set_destination H src p1 = Some p2"
     "ip4_write_checksum H p2 = Some q" "seg w q" "view w q = view w p"
     "ip_source H q = Some dst" "ip_destination H q = Some src" "ip4_calculate_checksum H q = Some 0xFFFF"
     "ip4_header_length H q = Some hl" "fst w = hl" "hl + snd w \<le> length q" "head (take hl q)"
     "ip_source H (take hl q) = Some dst" "ip_destination H (take hl q) = Some src"
     "ip4_total_length H (take hl q) = Some (word_of_nat (hl + snd w))" "ip4_calculate_checksum H (take hl q) = Some 0xFFFF"
    using swapped [OF p src dst] by blast
  define F where "F = \<lparr>pf_source = src, pf_destination = dst, pf_header = take hl q,
     pf_origin = take (hl + min (snd w) 8) q, pf_length = snd w, pf_message = drop hl q\<rparr>"
  have slices: "slice 0 hl q = Some (take hl q)" "slice 0 (hl + min (snd w) 8) q = Some (take (hl + min (snd w) 8) q)"
    using s(11) by (auto simp: slice_def)
  note run = processICMPv4_def t c src dst s(1-3,9) slices F_def [symmetric]
  have view: "view w q = take (snd w) (drop hl q)"
    using s(10) by (simp add: view_def)
  have fields: "pf_source F = src" "pf_destination F = dst" "pf_length F = snd w"
    "take (snd w) (pf_message F) = view w p" "head (pf_header F)"
    "icmp4_frame H dst src (pf_header F) (snd w)" "take (length (pf_header F)) (pf_origin F) = pf_header F"
    using s view by (simp_all add: F_def icmp4_frame_def min_absorb2)
  have "ping_quote F = take (min (snd w) 8) (drop hl q)"
    using s(11) by (simp add: F_def ping_quote_def drop_take min_absorb2)
  also have "\<dots> = take 8 (view w q)"
    unfolding view by (simp add: min.commute)
  finally have quote: "ping_quote F = take 8 (view w p)"
    using s(5) by simp
  obtain q1 where q1: "on_window w (icmp_set_type I ICMPv4EchoReply) q = Some q1" "seg w q1"
     "icmp_type I (view w q1) = Some ICMPv4EchoReply" "icmp_code I (view w q1) = Some 0"
     "drop 4 (view w q1) = drop 4 (view w p)" "ip_source H q1 = Some dst" "ip_destination H q1 = Some src"
     "ip4_calculate_checksum H q1 = Some 0xFFFF"
    using message_setter [where f = "icmp_set_type I ICMPv4EchoReply", OF s(4)] set_type [OF seg_valid [OF s(4)], of ICMPv4EchoReply]
      s(5-8) c by auto
  obtain q2 where q2: "on_window w (icmp_set_checksum I 0) q1 = Some q2" "seg w q2"
     "icmp_type I (view w q2) = Some ICMPv4EchoReply" "icmp_code I (view w q2) = Some 0"
     "drop 4 (view w q2) = drop 4 (view w p)" "ip_source H q2 = Some dst" "ip_destination H q2 = Some src"
     "ip4_calculate_checksum H q2 = Some 0xFFFF"
    using message_setter [where f = "icmp_set_checksum I 0", OF q1(2)] set_icmp_checksum [OF seg_valid [OF q1(2)], of 0]
      q1(3-8) by auto
  obtain x where x: "icmp4_compute I (view w q2) 0 = Some x"
    using compute4_total [OF seg_valid [OF q2(2)]] by blast
  obtain q3 where q3: "on_window w (icmp_set_checksum I x) q2 = Some q3" "seg w q3"
     "icmp_type I (view w q3) = Some ICMPv4EchoReply" "icmp_code I (view w q3) = Some 0"
     "drop 4 (view w q3) = drop 4 (view w p)" "ip_source H q3 = Some dst" "ip_destination H q3 = Some src"
     "ip4_calculate_checksum H q3 = Some 0xFFFF" "icmp_set_checksum I x (view w q2) = Some (view w q3)"
    using message_setter [where f = "icmp_set_checksum I x", OF q2(2)] set_icmp_checksum [OF seg_valid [OF q2(2)], of x]
      q2(3-8) by auto
  have "icmp4_reply H I C dst src w q3"
    using q3 compute4 [OF seg_valid [OF q2(2)] x q3(9)] by (simp add: icmp4_reply_def)
  moreover have "\<not> accepts F \<Longrightarrow> processICMPv4 H I accepts p w = Some (IcmpAnswered F q3)"
    by (simp add: run q1(1) q2(1) x q3(1))
  moreover have "accepts F \<Longrightarrow> processICMPv4 H I accepts p w = Some (IcmpHanded F)"
    by (simp add: run)
  ultimately show ?thesis
    using fields quote q3(2,5) by blast
qed

end

end
