(* ===== verification/IcmpRfc.thy ===== *)
theory IcmpRfc
  imports NatIcmp
begin

text \<open>
  The wire layout of RFC 792 as an instance of the ICMP interface, a copied IPv4 header as
  an instance of its, and the properties of pings over IPv4.
\<close>

section \<open>The wire layout\<close>

definition rfc792 :: icmp_ops where
  "rfc792 = \<lparr>icmp_type = (\<lambda>m. index_go m 0), icmp_code = (\<lambda>m. index_go m 1),
     icmp_set_type = (\<lambda>t. put_at 0 [t]), icmp_set_checksum = put16 2,
     icmp4_compute = (\<lambda>m x. if length m < 4 then panic else Some (NOT (csum (drop 4 m) (csum (take 2 m) x)))),
     icmp6_compute = (\<lambda>m a b x n. if length m < 4 then panic
        else Some (NOT (csum (drop 4 m) (csum (take 2 m)
          (ocadd (cs_pseudo rfc1071 ICMPv6ProtocolNumber a b (word_of_nat (length m + n))) x)))))\<rparr>"

definition i8_valid :: "bytes \<Rightarrow> bool" where
  "i8_valid m \<longleftrightarrow> 8 \<le> length m"

lemma rfc792_simps [simp]:
  "icmp_type rfc792 m = index_go m 0" "icmp_code rfc792 m = index_go m 1"
  "icmp_set_type rfc792 t = put_at 0 [t]" "icmp_set_checksum rfc792 = put16 2"
  by (simp_all add: rfc792_def)

text \<open>Storing the complement of the sum without the checksum field makes the sum all ones.\<close>

lemma csum_field:
  assumes "4 \<le> length m" "put16 2 c m = Some q"
  shows "csum q x = ocadd (csum (drop 4 m) (csum (take 2 m) x)) c"
proof -
  have "q = take 2 m @ put_be16 c @ drop 4 m"
    using assms by (auto simp: put16_def put_at_def split: if_splits)
  then have "csum q x = csum (drop 4 m) (csum (put_be16 c) (csum (take 2 m) x))"
    using assms(1) by (simp add: csum_append)
  also have "csum (put_be16 c) y = ocadd y c" for y
    by (simp add: put_be16_def be16_put_be16)
  also have "csum (drop 4 m) (ocadd (csum (take 2 m) x) c) = ocadd (csum (drop 4 m) (csum (take 2 m) x)) c"
    using csum_acc [of "drop 4 m" "ocadd (csum (take 2 m) x) c"] csum_acc [of "drop 4 m" "csum (take 2 m) x"]
    by (simp add: ocadd_ac)
  finally show ?thesis .
qed

lemma csum_shift: "ocadd (csum q x) y = csum q (ocadd x y)"
  using csum_acc [of q x] csum_acc [of q "ocadd x y"] by (simp add: ocadd_ac)

lemma csum_nonzero: "be16 a b \<noteq> 0 \<Longrightarrow> csum (a # b # r) c \<noteq> 0"
  using csum_acc [of r "ocadd c (be16 a b)"] by (simp add: ocadd_zero)

interpretation rfc_icmp: icmp_header rfc792 i8_valid rfc1071
proof
  fix m :: bytes assume m: "i8_valid m"
  then have len: "8 \<le> length m" by (simp add: i8_valid_def)
  show "\<exists>t c. icmp_type rfc792 m = Some t \<and> icmp_code rfc792 m = Some c"
    using len by (auto simp: index_go_def)
  show "\<exists>q. icmp_set_type rfc792 t m = Some q \<and> i8_valid q \<and> length q = length m \<and> icmp_type rfc792 q = Some t \<and>
      icmp_code rfc792 q = icmp_code rfc792 m \<and> drop 4 q = drop 4 m" for t
    using len by (auto simp: put_at_def index_go_def i8_valid_def nth_append)
  show "\<exists>q. icmp_set_checksum rfc792 c m = Some q \<and> i8_valid q \<and> length q = length m \<and> icmp_type rfc792 q = icmp_type rfc792 m \<and>
      icmp_code rfc792 q = icmp_code rfc792 m \<and> drop 4 q = drop 4 m" for c
    using len by (auto simp: put16_def put_at_def index_go_def i8_valid_def nth_append)
  show "\<exists>c. icmp4_compute rfc792 m x = Some c" for x
    using len by (simp add: rfc792_def)
  show "\<exists>c. icmp6_compute rfc792 m a b x n = Some c" for a b x n
    using len by (simp add: rfc792_def)
  show "ocadd (cs_checksum rfc1071 q 0) x = 0xFFFF"
    if "icmp4_compute rfc792 m x = Some c" "icmp_set_checksum rfc792 c m = Some q" for x c q
  proof -
    have "c = NOT (csum (drop 4 m) (csum (take 2 m) x))"
      using that(1) len by (simp add: rfc792_def)
    then show ?thesis
      using csum_field [of m c q x] len that(2) by (simp add: rfc1071_def csum_shift ocadd_NOT)
  qed
  show "ocadd (cs_checksum rfc1071 q (cs_pseudo rfc1071 ICMPv6ProtocolNumber a b (word_of_nat (length m + n)))) x = 0xFFFF"
    if "icmp6_compute rfc792 m a b x n = Some c" "icmp_set_checksum rfc792 c m = Some q" for a b x n c q
  proof -
    let ?y = "cs_pseudo rfc1071 ICMPv6ProtocolNumber a b (word_of_nat (length m + n))"
    have "c = NOT (csum (drop 4 m) (csum (take 2 m) (ocadd ?y x)))"
      using that(1) len by (simp add: rfc792_def del: of_nat_add)
    then have "csum q (ocadd ?y x) = 0xFFFF"
      using csum_field [of m c q "ocadd ?y x"] len that(2) by (simp add: ocadd_NOT del: of_nat_add)
    moreover have "cs_checksum rfc1071 q ?y = csum q ?y"
      by (simp add: rfc1071_def del: of_nat_add)
    ultimately show ?thesis
      by (simp only: csum_shift)
  qed
next
  fix m :: bytes assume "m \<noteq> []"
  then show "icmp_type rfc792 m = Some (hd m)"
    by (simp add: index_go_def hd_conv_nth)
qed

text \<open>Two setters of different fields commute.\<close>

lemma put_at_commute:
  assumes "put_at i bs p = Some q" "put_at j cs p = Some r" "i + length bs \<le> j"
  shows "put_at j cs q = put_at i bs r" "\<exists>t. put_at j cs q = Some t"
proof -
  have len: "i + length bs \<le> length p" "j + length cs \<le> length p"
    and q: "q = take i p @ bs @ drop (i + length bs) p" and r: "r = take j p @ cs @ drop (j + length cs) p"
    using assms by (auto simp: put_at_def split: if_splits)
  have "take j q @ cs @ drop (j + length cs) q = take i r @ bs @ drop (i + length bs) r"
  proof (cases "j \<le> i")
    case True
    then have "j = i" "length bs = 0" using assms(3) by linarith+
    then show ?thesis using len by (simp add: q r min_def)
  qed (use len assms(3) in \<open>auto simp: q r min_def drop_take le_diff_conv2\<close>)
  then show "put_at j cs q = put_at i bs r" "\<exists>t. put_at j cs q = Some t"
    using len put_at_length [OF assms(1)] put_at_length [OF assms(2)] by (simp_all add: put_at_def)
qed

definition v4_head :: "bytes \<Rightarrow> bool" where
  "v4_head h \<longleftrightarrow> 20 \<le> length h \<and> drop_bit 4 (h ! 0) = 4 \<and> v4_hl h = length h"

lemma v4_head_put:
  assumes "v4_head h" "i = 2 \<or> i = 10"
  shows "\<exists>q. put16 i x h = Some q \<and> v4_head q \<and> length q = length h \<and> get16 i q = Some x \<and>
     (\<forall>j. j + 2 \<le> i \<or> i + 2 \<le> j \<longrightarrow> get16 j q = get16 j h) \<and> get_at 12 4 q = get_at 12 4 h \<and> get_at 16 4 q = get_at 16 4 h"
proof -
  have "i + length (put_be16 x) \<le> length h"
    using assms by (auto simp: v4_head_def)
  then obtain q where q: "put_at i (put_be16 x) h = Some q"
    using put_at_total by blast
  have "v4_head q"
    using assms put_at_nth [OF q, of 0] put_at_length [OF q] by (auto simp: v4_head_def v4_hl_def)
  with q assms(2) show ?thesis
    using put_at_length [OF q] put16_get16 [of i x h q] put_at_get_before [OF q] put_at_get_after [OF q]
    by (auto simp: put16_def get16_def)
qed

lemma put16_same: "get16 i h = Some x \<Longrightarrow> put16 i x h = Some h"
proof -
  assume "get16 i h = Some x"
  then have len: "i + 2 \<le> length h" and x: "x = be16 (h ! i) (h ! (i + 1))"
    by (auto simp: get16_def get_at_def split: if_splits)
  have "put_be16 (be16 a b) = [a, b]" for a b
    by (auto simp: put_be16_def be16_def intro!: bit_word_eqI simp: bit_simps dest: bit_imp_le_length)
  moreover have "h = take i h @ [h ! i, h ! (i + 1)] @ drop (i + 2) h"
    using len by (simp add: Cons_nth_drop_Suc)
  ultimately show ?thesis
    using len x by (simp add: put16_def put_at_def)
qed

lemma v4_head_nonzero: "v4_head h \<Longrightarrow> csum h 0 \<noteq> 0"
proof -
  assume h: "v4_head h"
  then obtain a b r where abr: "h = a # b # r"
    by (cases h rule: remdups_adj.cases) (auto simp: v4_head_def)
  have "a \<noteq> 0" using h abr by (auto simp: v4_head_def)
  then have "be16 a b \<noteq> 0"
  proof (rule contrapos_nn)
    assume z: "be16 a b = 0"
    show "a = 0"
    proof (rule bit_word_eqI)
      fix n assume "n < LENGTH(8)"
      then have "bit a n = bit (be16 a b) (n + 8)" by (simp add: be16_def bit_simps)
      then show "bit a n = bit 0 n" by (simp add: z)
    qed
  qed
  then show ?thesis unfolding abr by (rule csum_nonzero)
qed

interpretation rfc_head: ip4_head rfc791 v4_head
proof
  fix h assume h: "v4_head h"
  show "\<exists>n c. ip4_total_length rfc791 h = Some n \<and> ip4_checksum rfc791 h = Some c"
    using h get_at_total [of 2 2 h] get_at_total [of 10 2 h] by (auto simp: v4_head_def get16_def)
  show "\<exists>q. ip4_set_total_length rfc791 n h = Some q \<and> v4_head q \<and> length q = length h \<and> ip4_total_length rfc791 q = Some n \<and>
      ip4_checksum rfc791 q = ip4_checksum rfc791 h \<and> ip_source rfc791 q = ip_source rfc791 h \<and>
      ip_destination rfc791 q = ip_destination rfc791 h" for n
    using v4_head_put [OF h, of 2 n] by auto
  show "\<exists>q. ip4_set_checksum rfc791 c h = Some q \<and> v4_head q \<and> length q = length h \<and> ip4_checksum rfc791 q = Some c \<and>
      ip4_total_length rfc791 q = ip4_total_length rfc791 h \<and> ip_source rfc791 q = ip_source rfc791 h \<and>
      ip_destination rfc791 q = ip_destination rfc791 h" for c
    using v4_head_put [OF h, of 10 c] by auto
  show "ip4_set_total_length rfc791 n h = Some h \<and> ip4_set_checksum rfc791 c h = Some h"
    if "ip4_total_length rfc791 h = Some n" "ip4_checksum rfc791 h = Some c" for n c
    using that by (simp add: put16_same)
  obtain z where z: "put16 10 0 h = Some z" "v4_head z" "length z = length h"
    using v4_head_put [OF h, of 10 0] by blast
  obtain zz where zz: "put16 2 0 z = Some zz" "v4_head zz" "length zz = length h"
    using v4_head_put [OF z(2), of 2 0] z(3) by auto
  have "ip4_calculate_checksum rfc791 r = Some (ocadd (csum zz 0) (ocadd n c))"
    if q: "ip4_set_total_length rfc791 n h = Some q" and r: "ip4_set_checksum rfc791 c q = Some r" for n c q r
  proof -
    obtain q' where q': "put16 2 n h = Some q'" "v4_head q'" "length q' = length h"
      using v4_head_put [OF h, of 2 n] by blast
    then have q'': "put16 2 n h = Some q" "v4_head q" "length q = length h" using q by simp_all
    obtain r' where "put16 10 c q = Some r'" "v4_head r'" "length r' = length q"
      using v4_head_put [OF q''(2), of 10 c] by blast
    then have r': "put16 10 c q = Some r" "v4_head r" "length r = length q" using r by simp_all
    obtain s where s: "put16 10 0 q = Some s" "length s = length q"
      using v4_head_put [OF q''(2), of 10 0] by blast
    have com: "put16 2 n z = Some s"
      using put_at_commute(1) [of 2 "put_be16 n" h q 10 "put_be16 0" z] q''(1) z(1) s(1) by (simp add: put16_def)
    have "csum (take (length h) r) 0 = ocadd (csum (take (length h) s) 0) c"
      using h q'' by (intro csum_put16 [OF _ _ _ s(1) r'(1)]) (auto simp: v4_head_def)
    moreover have "csum (take (length h) s) 0 = ocadd (csum (take (length h) zz) 0) n"
      using h z by (intro csum_put16 [OF _ _ _ zz(1) com]) (auto simp: v4_head_def)
    ultimately have "csum r 0 = ocadd (csum zz 0) (ocadd n c)"
      using zz(3) s(2) r'(3) q''(3) by (simp add: ocadd_assoc)
    moreover have "ip4_calculate_checksum rfc791 r = Some (csum r 0)"
      using r'(2) by (simp add: rfc791_calculate v4_head_def) auto
    ultimately show ?thesis by simp
  qed
  then show "\<exists>rest. rest \<noteq> 0 \<and> (\<forall>n c q r. ip4_set_total_length rfc791 n h = Some q \<longrightarrow>
      ip4_set_checksum rfc791 c q = Some r \<longrightarrow> ip4_calculate_checksum rfc791 r = Some (ocadd rest (ocadd n c)))"
    using v4_head_nonzero [OF zz(2)] by blast
qed

interpretation rfc_icmp4: icmp4_packets rfc791 v4_valid rfc792 i8_valid rfc1071 v4_head
proof unfold_locales
  fix w p assume p: "segment rfc791 v4_valid i8_valid w p"
  then have v: "v4_valid p" and w: "w = (v4_hl p, v4_tl p - v4_hl p)"
    by (auto simp: segment_def rfc791_def split: if_splits)
  let ?h = "take (v4_hl p) p"
  have n: "20 \<le> v4_hl p" "v4_hl p \<le> length p" "v4_hl p \<le> v4_tl p" "length ?h = v4_hl p"
    using v by (auto simp: v4_valid_def)
  then have nth: "?h ! 0 = p ! 0" by simp
  then have hl: "v4_hl ?h = v4_hl p" by (simp add: v4_hl_def)
  have get: "get_at i k ?h = get_at i k p" if "i + k \<le> 20" for i k
    using that n by (simp add: get_at_def drop_take min_absorb1)
  have "get16 2 p = Some (be16 (p ! 2) (p ! 3))"
    using v by (simp add: get16_def get_at_def v4_valid_def)
  then have "get16 2 ?h = Some (word_of_nat (v4_hl p + snd w))"
    using get [of 2 2] n w by (simp add: get16_def v4_tl_def)
  moreover have "v4_head ?h"
    using v n hl nth by (simp add: v4_head_def v4_valid_def)
  moreover have "ip4_header_length rfc791 p = Some (v4_hl p)"
    using v by (auto simp: rfc791_def v4_valid_def)
  ultimately show "\<exists>hl. ip4_header_length rfc791 p = Some hl \<and> fst w = hl \<and> v4_head (take hl p) \<and>
      ip_source rfc791 (take hl p) = ip_source rfc791 p \<and> ip_destination rfc791 (take hl p) = ip_destination rfc791 p \<and>
      ip4_total_length rfc791 (take hl p) = Some (word_of_nat (hl + snd w)) \<and>
      ip4_calculate_checksum rfc791 (take hl p) = ip4_calculate_checksum rfc791 p"
    using w hl n v get [of 12 4] get [of 16 4] by (auto simp: rfc791_calculate v4_valid_def)
next
  show "cs_combine rfc1071 = ocadd" by (simp add: rfc1071_def)
qed

section \<open>Properties\<close>

text \<open>
  An IPv4 ping: the request is handed on with its end points and message, or answered in
  place by an echo reply whose checksums verify; and every message that comes back and is
  not an unreachable error, of whatever length, is written behind a header from the pinged
  host to the sender with the right length and a checksum that verifies.
\<close>

theorem icmp4_conversation:
  assumes "icmp4_packets H valid I ivalid C head"
    and "segment H valid ivalid w p" and "icmp_type I (view w p) = Some ICMPv4Echo" and "icmp_code I (view w p) = Some 0"
    and "ip_source H p = Some src" and "ip_destination H p = Some dst"
  shows "\<exists>F. pf_source F = src \<and> pf_destination F = dst \<and> take (snd w) (pf_message F) = view w p \<and>
     (accepts F \<longrightarrow> processICMPv4 H I accepts p w = Some (IcmpHanded F)) \<and>
     (\<not> accepts F \<longrightarrow> (\<exists>q. processICMPv4 H I accepts p w = Some (IcmpAnswered F q) \<and>
        icmp4_reply H I C dst src w q \<and> drop 4 (view w q) = drop 4 (view w p))) \<and>
     (\<forall>stale message t. icmp_type I message = Some t \<longrightarrow> t \<noteq> ICMPv4DstUnreachable \<longrightarrow>
        (\<exists>h. icmp4_back H I C stale F message = Some (h @ message, False) \<and> icmp4_frame H dst src h (length message)))"
proof -
  obtain F where F: "pf_source F = src" "pf_destination F = dst" "pf_length F = snd w"
     "take (snd w) (pf_message F) = view w p" "head (pf_header F)" "icmp4_frame H dst src (pf_header F) (pf_length F)"
     "accepts F \<longrightarrow> processICMPv4 H I accepts p w = Some (IcmpHanded F)"
     "\<not> accepts F \<longrightarrow> (\<exists>q. processICMPv4 H I accepts p w = Some (IcmpAnswered F q) \<and> segment H valid ivalid w q \<and>
        icmp4_reply H I C dst src w q \<and> drop 4 (view w q) = drop 4 (view w p))"
    using icmp4_packets.request4 [OF assms, of accepts] by metis
  then show ?thesis
    using icmp4_answers.message_back4 [OF icmp4_packets.axioms(2) [OF assms(1)] F(5,6)] by blast
qed

text \<open>An echo request from the device's client to 8.8.8.8.\<close>

definition echo_request :: bytes where
  "echo_request = [0x45, 0, 0, 28, 0, 0, 0, 0, 64, 1, 0, 0, 172, 19, 0, 1, 8, 8, 8, 8,
     8, 0, 0, 0, 0, 1, 0, 2]"

lemma echo_request_facts:
  "segment rfc791 v4_valid i8_valid (20, 8) echo_request"
  "icmp_type rfc792 (view (20, 8) echo_request) = Some ICMPv4Echo" "icmp_code rfc792 (view (20, 8) echo_request) = Some 0"
  "ip_source rfc791 echo_request = Some [172, 19, 0, 1]" "ip_destination rfc791 echo_request = Some [8, 8, 8, 8]"
  by (simp_all add: segment_def rfc791_def v4_valid_def v4_hl_def v4_tl_def i8_valid_def view_def echo_request_def be16_def
      index_go_def get_at_def ICMPv4Echo_def)

theorem icmp4_conversation_witness:
  "\<exists>F q h. processICMPv4 rfc791 rfc792 (\<lambda>_. False) echo_request (20, 8) = Some (IcmpAnswered F q) \<and>
     icmp4_reply rfc791 rfc792 rfc1071 [8, 8, 8, 8] [172, 19, 0, 1] (20, 8) q \<and>
     icmp4_back rfc791 rfc792 rfc1071 (\<lambda>n. replicate n 0) F [0, 0, 7, 7, 7] = Some (h @ [0, 0, 7, 7, 7], False) \<and>
     icmp4_frame rfc791 [8, 8, 8, 8] [172, 19, 0, 1] h 5"
proof -
  have "icmp_type rfc792 [0, 0, 7, 7, 7] = Some 0" "(0 :: byte) \<noteq> ICMPv4DstUnreachable"
    "length [0, 0, 7, 7, 7 :: byte] = 5"
    by (simp_all add: index_go_def ICMPv4DstUnreachable_def)
  then show ?thesis
    using icmp4_conversation [OF rfc_icmp4.icmp4_packets_axioms echo_request_facts, of "\<lambda>_. False"] by metis
qed

text \<open>
  C23.  A destination-unreachable message over IPv4.  What is written quotes the copied header,
  whose addresses are already swapped, so the quotation does not name the request's sender
  as its source; and the length field of the new header counts the message that was
  received, so it is right only if that is as long as what is written.
\<close>

theorem icmp4_error_misquotes:
  assumes "icmp4_packets H valid I ivalid C head"
    and "segment H valid ivalid w p" and "icmp_type I (view w p) = Some ICMPv4Echo" and "icmp_code I (view w p) = Some 0"
    and "ip_source H p = Some src" and "ip_destination H p = Some dst"
    and "\<And>n. length (stale n) = n" and "icmp_type I message = Some ICMPv4DstUnreachable" and "message \<noteq> []"
    and "accepts F" and "processICMPv4 H I accepts p w = Some (IcmpHanded F)"
  shows "\<exists>h u. icmp4_back H I C stale F message = Some (h @ u, True) \<and>
     ip_source H h = Some dst \<and> ip_destination H h = Some src \<and> ip4_calculate_checksum H h = Some 0xFFFF \<and>
     ip_source H (take (length h) (drop 8 u)) = Some dst \<and> ip_destination H (take (length h) (drop 8 u)) = Some src \<and>
     drop (length h) (drop 8 u) = take 8 (view w p) \<and>
     ip4_total_length H h = Some (word_of_nat (length h + (if length u = snd w then length u else length message)))"
proof -
  have "accepts G" if "processICMPv4 H I accepts p w = Some (IcmpHanded G)" for G
    using that assms(10,11) by simp
  moreover obtain G where G: "pf_length G = snd w" "head (pf_header G)" "icmp4_frame H dst src (pf_header G) (pf_length G)"
     "ping_quote G = take 8 (view w p)" "take (length (pf_header G)) (pf_origin G) = pf_header G"
     "accepts G \<longrightarrow> processICMPv4 H I accepts p w = Some (IcmpHanded G)"
     "\<not> accepts G \<longrightarrow> (\<exists>q. processICMPv4 H I accepts p w = Some (IcmpAnswered G q))"
    using icmp4_packets.request4 [OF assms(1-6), of accepts] by metis
  ultimately have "G = F" using assms(11) by auto
  obtain h where h: "icmp4_back H I C stale G message = Some (h @ unreachable stale (pf_origin G) message, True)"
     "length h = length (pf_header G)" "ip_source H h = Some dst" "ip_destination H h = Some src"
     "ip4_calculate_checksum H h = Some 0xFFFF"
     "ip4_total_length H h = Some (word_of_nat (length h +
       (if 8 + length (pf_origin G) = pf_length G then 8 + length (pf_origin G) else length message)))"
    using icmp4_answers.unreachable_back4 [OF icmp4_packets.axioms(2) [OF assms(1)] G(2,3) assms(8,9,7)] by blast
  then show ?thesis
    using G \<open>G = F\<close> drop_unreachable [OF assms(7)] length_unreachable [OF assms(7)]
    by (intro exI [of _ h] exI [of _ "unreachable stale (pf_origin G) message"])
       (auto simp: icmp4_frame_def ping_quote_def simp del: of_nat_add)
qed

definition echo_flow :: ping_flow where
  "echo_flow = \<lparr>pf_source = [172, 19, 0, 1], pf_destination = [8, 8, 8, 8],
     pf_header = [0x45, 0, 0, 28, 0, 0, 0, 0, 64, 1, 190, 189, 8, 8, 8, 8, 172, 19, 0, 1],
     pf_origin = [0x45, 0, 0, 28, 0, 0, 0, 0, 64, 1, 190, 189, 8, 8, 8, 8, 172, 19, 0, 1, 8, 0, 0, 0, 0, 1, 0, 2],
     pf_length = 8, pf_message = [8, 0, 0, 0, 0, 1, 0, 2]\<rparr>"

lemma echo_handed: "processICMPv4 rfc791 rfc792 (\<lambda>_. True) echo_request (20, 8) = Some (IcmpHanded echo_flow)"
  by (simp add: processICMPv4_def echo_request_def echo_flow_def view_def index_go_def ICMPv4Echo_def rfc791_def get_at_def put_at_def
     ip4_write_checksum_def put16_def put_be16_def v4_hl_def be16_def slice_def ocadd_def Let_def)

theorem icmp4_error_misquotes_witness:
  "\<exists>h u. icmp4_back rfc791 rfc792 rfc1071 (\<lambda>n. replicate n 0) echo_flow [3, 1, 0xFC, 0xFE, 0, 0, 0, 0] = Some (h @ u, True) \<and>
     ip_source rfc791 (take (length h) (drop 8 u)) = Some [8, 8, 8, 8]"
  using icmp4_error_misquotes [OF rfc_icmp4.icmp4_packets_axioms echo_request_facts,
    of "\<lambda>n. replicate n 0" "[3, 1, 0xFC, 0xFE, 0, 0, 0, 0]" "\<lambda>_. True" echo_flow] echo_handed
  by (auto simp: index_go_def ICMPv4DstUnreachable_def)

lemma echo_unreachable: "unreachable (\<lambda>n. replicate n 0) (pf_origin echo_flow) [3, 1, 0xFC, 0xFE, 0, 0, 0, 0] =
  [3, 1, 0xFC, 0xFE, 0, 0, 0, 0, 0x45, 0, 0, 28, 0, 0, 0, 0, 64, 1, 190, 189, 8, 8, 8, 8, 172, 19, 0, 1, 8, 0, 0, 0, 0, 1, 0, 2]"
  by (simp add: unreachable_def echo_flow_def copy_into_def eval_nat_numeral)
lemma error_message_verifies: "csum [3, 1, 0xFC, 0xFE, 0, 0, 0, 0] 0 = 0xFFFF"
  by (simp add: be16_def ocadd_def Let_def)
lemma echo_unreachable_sum: "csum [3, 1, 0xFC, 0xFE, 0, 0, 0, 0, 0x45, 0, 0, 28, 0, 0, 0, 0, 64, 1, 190, 189, 8, 8, 8, 8, 172, 19, 0, 1, 8, 0, 0, 0, 0, 1, 0, 2] 0 \<noteq> 0xFFFF"
  by (simp add: be16_def ocadd_def Let_def)
text \<open>
  The ICMP checksum of the rebuilt error is the one that was received: for a message that
  verified, the packet written does not.
\<close>

theorem icmp4_error_checksum_stale:
  "csum [3, 1, 0xFC, 0xFE, 0, 0, 0, 0] 0 = 0xFFFF \<and>
   (\<exists>h u. icmp4_back rfc791 rfc792 rfc1071 (\<lambda>n. replicate n 0) echo_flow [3, 1, 0xFC, 0xFE, 0, 0, 0, 0] = Some (h @ u, True) \<and>
      length h = 20 \<and> length u = 36 \<and> get16 2 h = Some 28 \<and> csum u 0 \<noteq> 0xFFFF)"
proof -
  have h: "icmp4_header rfc791 rfc1071 (pf_header echo_flow) (length [3, 1, 0xFC, 0xFE, 0, 0, 0, 0 :: byte]) = Some (pf_header echo_flow)"
    by (simp add: icmp4_header_def echo_flow_def get16_def get_at_def put16_def put_at_def put_be16_def be16_def rfc1071_def ocadd_def Let_def)
  have f: "get16 2 (pf_header echo_flow) = Some 28" "length (pf_header echo_flow) = 20" "pf_length echo_flow = 8"
    by (simp_all add: echo_flow_def get16_def get_at_def be16_def)
  have "icmp4_back rfc791 rfc792 rfc1071 (\<lambda>n. replicate n 0) echo_flow [3, 1, 0xFC, 0xFE, 0, 0, 0, 0] =
      Some (pf_header echo_flow @ [3, 1, 0xFC, 0xFE, 0, 0, 0, 0, 0x45, 0, 0, 28, 0, 0, 0, 0, 64, 1, 190, 189, 8, 8, 8, 8, 172, 19, 0, 1, 8, 0, 0, 0, 0, 1, 0, 2], True)"
    using h f by (simp add: icmp4_back_def echo_unreachable index_go_def ICMPv4DstUnreachable_def)
  with error_message_verifies echo_unreachable_sum f show ?thesis by force
qed

end
