(* ===== verification/NatUdp6.thy ===== *)
theory NatUdp6
  imports NatUdp
begin

text \<open>\<open>processIPv6UDP\<close>: the answers over IPv6, which have no header checksum, and their UDP checksum.\<close>

definition udp6_answer :: "ip6_ops \<Rightarrow> 'u udp_ops_scheme \<Rightarrow> csum_ops \<Rightarrow> bytes \<times> u16 \<Rightarrow> bytes \<times> u16 \<Rightarrow> bytes \<Rightarrow> bytes \<Rightarrow> bool" where
  "udp6_answer H U C peer client payload r \<longleftrightarrow>
     (\<exists>q. r = q @ payload \<and> ip_source H q = Some (fst peer) \<and> ip_destination H q = Some (fst client) \<and>
        ip6_payload_length H q = Some (word_of_nat (UDPMinimumSize + length payload)) \<and>
        udp_ok U C peer client payload (view (udp_window q) q))"

locale udp_reply6 = udp_packets "templated H" tmpl 16 U uvalid C
  for H :: ip6_ops and tmpl and U :: "'u udp_ops_scheme" and uvalid and C :: csum_ops +
  assumes tmpl_length: "tmpl p \<Longrightarrow> UDPMinimumSize \<le> length p"
    and tmpl_window: "tmpl p \<Longrightarrow> uvalid (view (udp_window p) p)"
    and set_payload_length: "tmpl p \<Longrightarrow>
      \<exists>q. ip6_set_payload_length H n p = Some q \<and> tmpl q \<and> length q = length p \<and> ip6_payload_length H q = Some n \<and>
        ip_source H q = ip_source H p \<and> ip_destination H q = ip_destination H p \<and>
        view (udp_window p) q = view (udp_window p) p"
    and payload_length_splice: "tmpl p \<Longrightarrow> length v = UDPMinimumSize \<Longrightarrow>
      ip6_payload_length H (splice (udp_window p) v p) = ip6_payload_length H p"
begin

lemma reply6:
  assumes t: "tmpl t" and ip: "length (fst src) = 16" and dst: "ip_destination H t = Some client"
    and dp: "udp_destination_port U (view (udp_window t) t) = Some dp"
  shows "\<exists>r. udp6_reply H U C t client src payload = Some r \<and> udp6_answer H U C src (client, dp) payload r"
proof -
  let ?w = "udp_window t" and ?n = "word_of_nat (UDPMinimumSize + length payload) :: u16"
  obtain p1 where p1: "ip_set_source H (fst src) t = Some p1" "tmpl p1" "length p1 = length t"
    "ip_source H p1 = Some (fst src)" "ip_destination H p1 = Some client" "view ?w p1 = view ?w t"
    using set_source [OF t ip] dst by auto
  have w1: "udp_window p1 = ?w"
    using p1(3) by (simp add: udp_window_def)
  obtain p2 where p2: "ip6_set_payload_length H ?n p1 = Some p2" "tmpl p2" "length p2 = length t"
    "ip6_payload_length H p2 = Some ?n" "ip_source H p2 = Some (fst src)" "ip_destination H p2 = Some client"
    "view ?w p2 = view ?w t"
    using set_payload_length [OF p1(2), of ?n] p1 w1 by auto
  have w2: "udp_window p2 = ?w"
    using p2(3) by (simp add: udp_window_def)
  have "segment (templated H) tmpl uvalid ?w p2"
    using p2(2) tmpl_window [OF p2(2)] w2 by (simp add: segment_def)
  then obtain q v where q: "udp_fill U C (snd src) (fst src) client payload ?w p2 = Some q"
    "segment (templated H) tmpl uvalid ?w q" "length q = length p2"
    "udp_ok U C (fst src, snd src) (client, dp) payload (view ?w q)"
    "ip_source H q = ip_source H p2" "ip_destination H q = ip_destination H p2" "length v = snd ?w" "q = splice ?w v p2"
    using udp_fill_ok [of ?w p2 dp "snd src" "fst src" client payload] dp p2(7) by auto
  have "ip6_payload_length H q = Some ?n"
    using payload_length_splice [OF p2(2), of v] q(7,8) w2 p2(4) by (simp add: udp_window_def)
  moreover have "udp_window q = ?w"
    using q(2) by (simp add: segment_def)
  moreover have "udp6_reply H U C t client src payload = Some (q @ payload)"
    using p1(1) p2(1) w2 q(1) tmpl_length [OF p2(2)] by (simp add: udp6_reply_def del: of_nat_add)
  ultimately show ?thesis
    using q p2 by (auto simp: udp6_answer_def simp del: of_nat_add)
qed

end

section \<open>The wire layout\<close>

definition rfc8200_udp :: ip6_ops where
  "rfc8200_udp = \<lparr>ip_source = get_at 8 16, ip_destination = get_at 24 16, ip_set_source = put_at 8, ip_set_destination = put_at 24,
     ip_payload = ip_payload rfc8200, ip6_payload_length = get16 4, ip6_set_payload_length = put16 4\<rparr>"

lemma rfc8200_udp_simps [simp]:
  "ip_source rfc8200_udp = get_at 8 16" "ip_destination rfc8200_udp = get_at 24 16"
  "ip_set_source rfc8200_udp = put_at 8" "ip_set_destination rfc8200_udp = put_at 24"
  "ip6_payload_length rfc8200_udp = get16 4" "ip6_set_payload_length rfc8200_udp = put16 4"
  by (simp_all add: rfc8200_udp_def)

definition v6_tmpl :: "bytes \<Rightarrow> bool" where
  "v6_tmpl p \<longleftrightarrow> length p = 48"

lemma put_at_tmpl6:
  assumes "v6_tmpl p" "i + length bs \<le> 40"
  shows "\<exists>q. put_at i bs p = Some q \<and> v6_tmpl q \<and> length q = length p \<and> get_at i (length bs) q = Some bs \<and>
     (\<forall>j n. j + n \<le> i \<or> i + length bs \<le> j \<longrightarrow> get_at j n q = get_at j n p) \<and>
     view (udp_window p) q = view (udp_window p) p \<and> udp_window q = udp_window p"
proof -
  have "i + length bs \<le> length p"
    using assms by (simp add: v6_tmpl_def)
  then obtain q where q: "put_at i bs p = Some q"
    using put_at_total by blast
  note len = put_at_length [OF q]
  moreover have "view (udp_window p) q = view (udp_window p) p"
    using assms by (intro put_at_view [OF q]) (auto simp: v6_tmpl_def udp_window_def UDPMinimumSize_def)
  ultimately show ?thesis
    using assms(1) q put_at_get_same [OF q refl] put_at_get_before [OF q] put_at_get_after [OF q]
    by (auto simp: udp_window_def v6_tmpl_def)
qed

lemma udp_window6: "v6_tmpl p \<Longrightarrow> udp_window p = (40, 8) \<and> window_in (40, 8) p"
  by (simp add: v6_tmpl_def udp_window_def UDPMinimumSize_def window_in_def)

interpretation rfc_reply6: udp_reply6 rfc8200_udp v6_tmpl rfc768 u8_valid rfc1071
proof unfold_locales
  fix p assume p: "v6_tmpl p"
  then show "\<exists>a. ip_source (templated rfc8200_udp) p = Some a \<and> length a = 16"
    "\<exists>a. ip_destination (templated rfc8200_udp) p = Some a \<and> length a = 16"
    using get_at_total [of 8 16 p] get_at_total [of 24 16 p] by (auto simp: v6_tmpl_def)
  show "\<exists>w. ip_payload (templated rfc8200_udp) p = Some w \<and> window_in w p"
    using udp_window6 [OF p] by simp
  show "UDPMinimumSize \<le> length p"
    using p by (simp add: v6_tmpl_def UDPMinimumSize_def)
  show "u8_valid (view (udp_window p) p)"
    using p udp_window6 [OF p] by (simp add: u8_valid_def view_def v6_tmpl_def)
  show "\<exists>q. ip6_set_payload_length rfc8200_udp n p = Some q \<and> v6_tmpl q \<and> length q = length p \<and>
      ip6_payload_length rfc8200_udp q = Some n \<and> ip_source rfc8200_udp q = ip_source rfc8200_udp p \<and>
      ip_destination rfc8200_udp q = ip_destination rfc8200_udp p \<and> view (udp_window p) q = view (udp_window p) p" for n
    using put_at_tmpl6 [OF p, of 4 "put_be16 n"]
    by (auto simp: put16_def [of 4] get16_def) (simp_all add: put_be16_def be16_put_be16)
  fix a :: bytes assume a: "length a = 16"
  show "\<exists>q. ip_set_source (templated rfc8200_udp) a p = Some q \<and> v6_tmpl q \<and> length q = length p \<and>
      ip_source (templated rfc8200_udp) q = Some a \<and> ip_destination (templated rfc8200_udp) q = ip_destination (templated rfc8200_udp) p \<and>
      ip_payload (templated rfc8200_udp) q = ip_payload (templated rfc8200_udp) p \<and>
      (\<forall>w. ip_payload (templated rfc8200_udp) p = Some w \<longrightarrow> view w q = view w p)"
    using put_at_tmpl6 [OF p, of 8 a] a by auto
  show "\<exists>q. ip_set_destination (templated rfc8200_udp) a p = Some q \<and> v6_tmpl q \<and> length q = length p \<and>
      ip_destination (templated rfc8200_udp) q = Some a \<and> ip_source (templated rfc8200_udp) q = ip_source (templated rfc8200_udp) p \<and>
      ip_payload (templated rfc8200_udp) q = ip_payload (templated rfc8200_udp) p \<and>
      (\<forall>w. ip_payload (templated rfc8200_udp) p = Some w \<longrightarrow> view w q = view w p)"
    using put_at_tmpl6 [OF p, of 24 a] a by auto
next
  fix p w and v :: bytes
  assume p: "v6_tmpl p" and w: "ip_payload (templated rfc8200_udp) p = Some w" "length v = snd w"
  then have "w = (40, 8)" "window_in (40, 8) p" "length v = 8"
    using udp_window6 [OF p] by auto
  then show "v6_tmpl (splice w v p) \<and> ip_source (templated rfc8200_udp) (splice w v p) = ip_source (templated rfc8200_udp) p \<and>
      ip_destination (templated rfc8200_udp) (splice w v p) = ip_destination (templated rfc8200_udp) p \<and>
      ip_payload (templated rfc8200_udp) (splice w v p) = ip_payload (templated rfc8200_udp) p"
    using p splice_get_before [of 8 16 "(40, 8)" p v] splice_get_before [of 24 16 "(40, 8)" p v] length_splice [of "(40, 8)" p v]
    by (simp add: v6_tmpl_def udp_window_def)
next
  fix p and v :: bytes assume p: "v6_tmpl p" and v: "length v = UDPMinimumSize"
  then show "ip6_payload_length rfc8200_udp (splice (udp_window p) v p) = ip6_payload_length rfc8200_udp p"
    using splice_get_before [of 4 2 "(40, 8)" p v] udp_window6 [OF p] by (simp add: get16_def UDPMinimumSize_def)
qed

text \<open>
  Answers over IPv6: from a template with the client as destination, the function
  builds a datagram from the answering peer to the client whose payload length, ports and
  UDP length are right (up to 16 bits) and whose UDP checksum verifies.
\<close>

theorem udp6_reply_is_answer:
  assumes "udp_reply6 H tmpl U uvalid" and "tmpl t" and "length (fst src) = 16"
    and "ip_destination H t = Some client" and "udp_destination_port U (view (udp_window t) t) = Some dp"
  shows "\<exists>r. udp6_reply H U C t client src payload = Some r \<and> udp6_answer H U C src (client, dp) payload r"
  using assms by (rule udp_reply6.reply6)

theorem udp6_reply_is_answer_witness:
  "\<exists>r. udp6_reply rfc8200_udp rfc768 rfc1071 (0x60 # replicate 47 0) (replicate 16 0) (replicate 16 7, 53) [1, 2, 3] = Some r \<and>
     udp6_answer rfc8200_udp rfc768 rfc1071 (replicate 16 7, 53) (replicate 16 0, 0) [1, 2, 3] r"
  by (rule udp6_reply_is_answer [OF rfc_reply6.udp_reply6_axioms])
    (simp_all add: v6_tmpl_def get_at_def view_def udp_window_def UDPMinimumSize_def get16_def be16_def numeral_eq_Suc)

text \<open>A template and an address of zero bytes.\<close>

definition zero_template :: bytes where
  "zero_template = [0, 0, 0, 0, 0, 0, 0, 0, 0, 0, 0, 0, 0, 0, 0, 0, 0, 0, 0, 0, 0, 0, 0, 0,
     0, 0, 0, 0, 0, 0, 0, 0, 0, 0, 0, 0, 0, 0, 0, 0, 0, 0, 0, 0, 0, 0, 0, 0]"

definition zero_address :: bytes where
  "zero_address = [0, 0, 0, 0, 0, 0, 0, 0, 0, 0, 0, 0, 0, 0, 0, 0]"

text \<open>
  The stored checksum is the plain complement of the sum, so for a sum of \<open>FFFF\<close> it is
  zero, which over IPv6 a receiver must discard as ``no checksum'' (RFC 8200, section 8.1,
  has the sender store \<open>FFFF\<close> instead): with zero addresses and ports the two-byte answer
  \<open>FF DA\<close> is such a datagram.
\<close>

theorem udp6_reply_zero_checksum:
  "\<exists>q. udp6_reply rfc8200_udp rfc768 rfc1071 zero_template zero_address (zero_address, 0) [0xFF, 0xDA]
      = Some (q @ [0xFF, 0xDA]) \<and> length q = 48 \<and> get16 46 q = Some 0"
  by (simp add: zero_template_def zero_address_def udp6_reply_def udp_fill_def on_window_def view_def splice_def udp_window_def UDPMinimumSize_def
     put16_def put_at_def get16_def get_at_def put_be16_def be16_def rfc1071_def rfc768_def UDPProtocolNumber_def ocadd_def Let_def)
end
