(* ===== verification/NatIcmp6.thy ===== *)
theory NatIcmp6
  imports IcmpRfc NatUdp6
begin

text \<open>Pings over IPv6: \<open>processICMPv6\<close> and the messages that come back (\<open>nat/icmp.go\<close>).\<close>

text \<open>
  \<open>icmp6_frame\<close>: a header from \<open>peer\<close> to \<open>client\<close> for the message \<open>m\<close>, whose checksum, which
  covers the addresses, verifies.
\<close>

definition icmp6_sum_ok :: "csum_ops \<Rightarrow> bytes \<Rightarrow> bytes \<Rightarrow> bytes \<Rightarrow> bool" where
  "icmp6_sum_ok C peer client m \<longleftrightarrow>
     cs_checksum C m (cs_pseudo C ICMPv6ProtocolNumber peer client (word_of_nat (length m))) = 0xFFFF"

definition icmp6_frame :: "ip6_ops \<Rightarrow> bytes \<Rightarrow> bytes \<Rightarrow> bytes \<Rightarrow> bytes \<Rightarrow> bool" where
  "icmp6_frame H peer client h m \<longleftrightarrow> ip_source H h = Some peer \<and> ip_destination H h = Some client \<and>
     ip6_payload_length H h = Some (word_of_nat (length m))"

definition icmp6_reply :: "ip6_ops \<Rightarrow> icmp_ops \<Rightarrow> csum_ops \<Rightarrow> bytes \<Rightarrow> bytes \<Rightarrow> window \<Rightarrow> bytes \<Rightarrow> bool" where
  "icmp6_reply H I C peer client w q \<longleftrightarrow> ip_source H q = Some peer \<and> ip_destination H q = Some client \<and>
     icmp_type I (view w q) = Some ICMPv6EchoReply \<and> icmp_code I (view w q) = Some 0 \<and> icmp6_sum_ok C peer client (view w q)"

text \<open>
  Packets that end with their payload, which follows the header; eight bytes are an ICMP message.
\<close>

locale icmp6_packets = ip_window H valid 16 ivalid + icmp_header I ivalid C
  for H :: ip6_ops and valid and I :: icmp_ops and ivalid and C :: csum_ops +
  fixes head :: "bytes \<Rightarrow> bool"
  assumes cut6: "segment H valid ivalid w p \<Longrightarrow>
      \<exists>pl. ip6_payload_length H p = Some pl \<and> unat pl = snd w \<and> length p = fst w + snd w \<and> head (take (fst w) p) \<and>
        ip_source H (take (fst w) p) = ip_source H p \<and> ip_destination H (take (fst w) p) = ip_destination H p \<and>
        ip6_payload_length H (take (fst w) p) = Some pl"
    and head_set_payload_length: "head h \<Longrightarrow>
      \<exists>q. ip6_set_payload_length H n h = Some q \<and> length q = length h \<and> ip6_payload_length H q = Some n \<and>
        ip_source H q = ip_source H h \<and> ip_destination H q = ip_destination H h"
    and ivalid_long: "8 \<le> length m \<Longrightarrow> ivalid m"
begin

lemma seg_valid: "seg w p \<Longrightarrow> ivalid (view w p)"
  by (simp add: segment_def)

lemma message_setter:
  assumes p: "seg w p" and f: "f (view w p) = Some v" "ivalid v" "length v = length (view w p)"
  shows "\<exists>q. on_window w f p = Some q \<and> seg w q \<and> view w q = v \<and> ip_source H q = ip_source H p \<and>
     ip_destination H q = ip_destination H p"
  using on_window_ok [where f = f, OF p f] by blast

text \<open>Clearing the checksum and storing the computed one makes the message verify.\<close>

lemma checksum_stored:
  assumes m: "ivalid m"
  shows "\<exists>m0 c q. icmp_set_checksum I 0 m = Some m0 \<and> icmp6_compute I m0 a b 0 0 = Some c \<and> icmp_set_checksum I c m0 = Some q \<and>
     ivalid m0 \<and> ivalid q \<and> length m0 = length m \<and> length q = length m \<and> icmp_type I q = icmp_type I m \<and>
     icmp_code I q = icmp_code I m \<and> drop 4 q = drop 4 m \<and> icmp6_sum_ok C a b q"
proof -
  obtain m0 where m0: "icmp_set_checksum I 0 m = Some m0" "ivalid m0" "length m0 = length m" "icmp_type I m0 = icmp_type I m"
    "icmp_code I m0 = icmp_code I m" "drop 4 m0 = drop 4 m"
    using set_icmp_checksum [OF m, of 0] by blast
  obtain c where c: "icmp6_compute I m0 a b 0 0 = Some c"
    using compute6_total [OF m0(2)] by blast
  obtain q where q: "icmp_set_checksum I c m0 = Some q" "ivalid q" "length q = length m0" "icmp_type I q = icmp_type I m0"
    "icmp_code I q = icmp_code I m0" "drop 4 q = drop 4 m0"
    using set_icmp_checksum [OF m0(2), of c] by blast
  have "icmp6_sum_ok C a b q"
    using compute6 [OF m0(2) c q(1)] q(3) by (simp add: icmp6_sum_ok_def)
  with m0 c q show ?thesis by auto
qed

lemma swapped:
  assumes p: "seg w p" and src: "ip_source H p = Some src" and dst: "ip_destination H p = Some dst"
  shows "\<exists>p1 q. ip_set_source H dst p = Some p1 \<and> ip_set_destination H src p1 = Some q \<and> seg w q \<and>
     view w q = view w p \<and> ip_source H q = Some dst \<and> ip_destination H q = Some src"
proof -
  have v: "valid p" using p by (simp add: segment_def)
  have len: "length src = 16" "length dst = 16"
    using source_total [OF v] destination_total [OF v] src dst by auto
  obtain p1 where p1: "ip_set_source H dst p = Some p1" "seg w p1" "view w p1 = view w p" "ip_source H p1 = Some dst"
    using set_source_ok [OF p len(2)] by blast
  then show ?thesis
    using set_destination_ok [OF p1(2) len(1)] by auto
qed

lemma request6:
  assumes p: "seg w p" and t: "icmp_type I (view w p) = Some ICMPv6EchoRequest" and c: "icmp_code I (view w p) = Some 0"
    and src: "ip_source H p = Some src" and dst: "ip_destination H p = Some dst"
  shows "\<exists>F. pf_source F = src \<and> pf_destination F = dst \<and> pf_length F = snd w \<and> pf_message F = view w p \<and>
     head (pf_header F) \<and> ip_source H (pf_header F) = Some dst \<and> ip_destination H (pf_header F) = Some src \<and>
     ip6_payload_length H (pf_header F) = Some (word_of_nat (snd w)) \<and>
     pf_origin F = pf_header F @ take 8 (view w p) \<and>
     (accepts F \<longrightarrow> processICMPv6 H I accepts p w = Some (IcmpHanded F)) \<and>
     (\<not> accepts F \<longrightarrow> (\<exists>q. processICMPv6 H I accepts p w = Some (IcmpAnswered F q) \<and>
        icmp6_reply H I C dst src w q \<and> drop 4 (view w q) = drop 4 (view w p)))"
proof -
  obtain p1 q where s: "ip_set_source H dst p = Some p1" "ip_set_destination H src p1 = Some q" "seg w q"
     "view w q = view w p" "ip_source H q = Some dst" "ip_destination H q = Some src"
    using swapped [OF p src dst] by blast
  obtain pl where pl: "ip6_payload_length H q = Some pl" "unat pl = snd w" "length q = fst w + snd w" "head (take (fst w) q)"
     "ip_source H (take (fst w) q) = Some dst" "ip_destination H (take (fst w) q) = Some src"
     "ip6_payload_length H (take (fst w) q) = Some pl"
    using cut6 [OF s(3)] s(5,6) by auto
  define F where "F = \<lparr>pf_source = src, pf_destination = dst, pf_header = take (fst w) q,
     pf_origin = take (fst w + min (snd w) 8) q, pf_length = snd w, pf_message = drop (fst w) q\<rparr>"
  have slices: "slice 0 (fst w) q = Some (take (fst w) q)"
     "slice 0 (fst w + min (snd w) 8) q = Some (take (fst w + min (snd w) 8) q)"
    using pl(3) by (auto simp: slice_def)
  have run: "processICMPv6 H I accepts p w = (if accepts F then Some (IcmpHanded F) else do {
       p \<leftarrow> on_window w (icmp_set_type I ICMPv6EchoReply) q;
       p \<leftarrow> on_window w (icmp_set_checksum I 0) p;
       src' \<leftarrow> ip_source H p; dst' \<leftarrow> ip_destination H p;
       c \<leftarrow> icmp6_compute I (view w p) src' dst' 0 0;
       p \<leftarrow> on_window w (icmp_set_checksum I c) p;
       Some (IcmpAnswered F p) })"
    by (simp add: processICMPv6_def t c src dst s(1,2) pl(1-3) slices F_def Let_def)
  have view: "view w q = drop (fst w) q"
    using pl(3) by (simp add: view_def)
  have "word_of_nat (snd w) = pl"
    using pl(2) by (simp flip: pl(2))
  moreover have "pf_origin F = pf_header F @ take 8 (view w p)"
    using pl(3) by (simp add: F_def take_add view s(4) [symmetric] min_def)
  ultimately have fields: "pf_source F = src" "pf_destination F = dst" "pf_length F = snd w" "pf_message F = view w p"
     "head (pf_header F)" "ip_source H (pf_header F) = Some dst" "ip_destination H (pf_header F) = Some src"
     "ip6_payload_length H (pf_header F) = Some (word_of_nat (snd w))" "pf_origin F = pf_header F @ take 8 (view w p)"
    using pl s(4) view by (simp_all add: F_def)
  obtain q1 where q1: "on_window w (icmp_set_type I ICMPv6EchoReply) q = Some q1" "seg w q1"
     "icmp_type I (view w q1) = Some ICMPv6EchoReply" "icmp_code I (view w q1) = Some 0"
     "drop 4 (view w q1) = drop 4 (view w p)" "ip_source H q1 = Some dst" "ip_destination H q1 = Some src"
    using message_setter [where f = "icmp_set_type I ICMPv6EchoReply", OF s(3)] set_type [OF seg_valid [OF s(3)], of ICMPv6EchoReply]
      s(4-6) c by auto
  obtain m0 x m where m: "icmp_set_checksum I 0 (view w q1) = Some m0" "icmp6_compute I m0 dst src 0 0 = Some x"
     "icmp_set_checksum I x m0 = Some m" "ivalid m0" "ivalid m" "length m0 = length (view w q1)" "length m = length (view w q1)"
     "icmp_type I m = Some ICMPv6EchoReply" "icmp_code I m = Some 0" "drop 4 m = drop 4 (view w p)" "icmp6_sum_ok C dst src m"
    using checksum_stored [OF seg_valid [OF q1(2)], of dst src] q1(3-5) by auto
  obtain q2 where q2: "on_window w (icmp_set_checksum I 0) q1 = Some q2" "seg w q2" "view w q2 = m0"
     "ip_source H q2 = Some dst" "ip_destination H q2 = Some src"
    using message_setter [where f = "icmp_set_checksum I 0", OF q1(2) m(1,4,6)] q1(6,7) by auto
  obtain q3 where q3: "on_window w (icmp_set_checksum I x) q2 = Some q3" "seg w q3" "view w q3 = m"
     "ip_source H q3 = Some dst" "ip_destination H q3 = Some src"
    using message_setter [where f = "icmp_set_checksum I x", OF q2(2)] q2 m by auto
  have "\<not> accepts F \<Longrightarrow> processICMPv6 H I accepts p w = Some (IcmpAnswered F q3)"
    by (simp add: run q1(1) q2 m(2) q3(1))
  moreover have "icmp6_reply H I C dst src w q3"
    using q3 m by (simp add: icmp6_reply_def)
  moreover have "accepts F \<Longrightarrow> processICMPv6 H I accepts p w = Some (IcmpHanded F)"
    by (simp add: run)
  ultimately show ?thesis
    using fields q3(3) m(10) by blast
qed

text \<open>The header for a message of any length.\<close>

lemma header_for:
  assumes F: "head (pf_header F)" "ip_source H (pf_header F) = Some peer" "ip_destination H (pf_header F) = Some client"
     "ip6_payload_length H (pf_header F) = Some (word_of_nat (pf_length F))" and r: "length r = length u"
  shows "\<exists>h. (if length u \<noteq> pf_length F then ip6_set_payload_length H (word_of_nat (length u)) (pf_header F)
       else Some (pf_header F)) = Some h \<and> icmp6_frame H peer client h r"
proof (cases "length u = pf_length F")
  case True
  with F r show ?thesis by (simp add: icmp6_frame_def)
next
  case False
  with head_set_payload_length [OF F(1), of "word_of_nat (length u)"] F r show ?thesis
    by (auto simp: icmp6_frame_def)
qed

text \<open>
  A message that comes back, an error or not: the header is right, and the checksum is the
  one for the addresses found in the packet's buffer at that time.
\<close>

lemma message_back6:
  assumes F: "head (pf_header F)" "ip_source H (pf_header F) = Some peer" "ip_destination H (pf_header F) = Some client"
     "ip6_payload_length H (pf_header F) = Some (word_of_nat (pf_length F))"
    and m: "ivalid message" "icmp_type I message = Some t"
    and stale: "\<And>n. length (stale n) = n"
    and now: "ip_source H now = Some a" "ip_destination H now = Some b"
  shows "\<exists>h r t'. icmp6_back H I stale now F message = Some (h @ r, t') \<and> icmp6_frame H peer client h r \<and>
     icmp6_sum_ok C a b r \<and> (t \<noteq> ICMPv6DstUnreachable \<longrightarrow> drop 4 r = drop 4 message) \<and>
     (t = ICMPv6DstUnreachable \<longrightarrow> drop 8 r = pf_origin F)"
proof -
  define u where "u = (if t = ICMPv6DstUnreachable then unreachable stale (pf_origin F) message else message)"
  have u: "ivalid u"
    using m(1) ivalid_long length_unreachable [OF stale] by (simp add: u_def)
  obtain m0 c r where r: "icmp_set_checksum I 0 u = Some m0" "icmp6_compute I m0 a b 0 0 = Some c"
     "icmp_set_checksum I c m0 = Some r" "ivalid r" "length r = length u" "drop 4 r = drop 4 u" "icmp6_sum_ok C a b r"
    using checksum_stored [OF u, of a b] by blast
  obtain t' where t': "icmp_type I r = Some t'"
    using icmp_total [OF r(4)] by blast
  obtain h where h: "(if length u \<noteq> pf_length F then ip6_set_payload_length H (word_of_nat (length u)) (pf_header F)
       else Some (pf_header F)) = Some h" "icmp6_frame H peer client h r"
    using header_for [OF F r(5)] by blast
  have "icmp6_back H I stale now F message = Some (h @ r, t' = ICMPv6DstUnreachable)"
    using h(1) r(1-3) m(2) now t'
    by (cases "length u = pf_length F"; cases "t = ICMPv6DstUnreachable") (simp_all add: icmp6_back_def Let_def u_def)
  moreover have "t = ICMPv6DstUnreachable \<Longrightarrow> drop 8 r = pf_origin F"
    using drop_unreachable [of stale "pf_origin F" message, OF stale] arg_cong [OF r(6), of "drop 4"] by (simp add: u_def)
  ultimately show ?thesis
    using h(2) r(6,7) by (intro exI [of _ h] exI [of _ r]) (auto simp: u_def)
qed

end

section \<open>The wire layout\<close>

definition v6_exact :: "bytes \<Rightarrow> bool" where
  "v6_exact p \<longleftrightarrow> v6_valid p \<and> length p = 40 + v6_pl p"

definition v6_head :: "bytes \<Rightarrow> bool" where
  "v6_head h \<longleftrightarrow> length h = 40"

interpretation rfc_icmp6: icmp6_packets rfc8200_udp v6_exact rfc792 i8_valid rfc1071 v6_head
proof unfold_locales
  fix p assume p: "v6_exact p"
  then have v: "v6_valid p" by (simp add: v6_exact_def)
  have pay: "ip_payload rfc8200_udp p = Some (40, v6_pl p)"
    using v by (simp add: rfc8200_udp_def rfc8200_payload)
  have exact: "v6_exact q" if "v6_valid q" "length q = length p" "ip_payload rfc8200 q = ip_payload rfc8200 p" for q
    using that p rfc8200_payload [OF v] rfc8200_payload [OF that(1)] by (simp add: v6_exact_def)
  show "\<exists>a. ip_source rfc8200_udp p = Some a \<and> length a = 16" "\<exists>a. ip_destination rfc8200_udp p = Some a \<and> length a = 16"
    using rfc6.source_total [OF v] rfc6.destination_total [OF v] by simp_all
  show "\<exists>w. ip_payload rfc8200_udp p = Some w \<and> window_in w p"
    using v pay by (simp add: window_in_def v6_valid_def)
  show "\<exists>q. ip_set_source rfc8200_udp a p = Some q \<and> v6_exact q \<and> length q = length p \<and> ip_source rfc8200_udp q = Some a \<and>
      ip_destination rfc8200_udp q = ip_destination rfc8200_udp p \<and> ip_payload rfc8200_udp q = ip_payload rfc8200_udp p \<and>
      (\<forall>w. ip_payload rfc8200_udp p = Some w \<longrightarrow> view w q = view w p)" if a: "length a = 16" for a
    using put_at_header6 [OF v, of 8 a] a exact by (auto simp: rfc8200_udp_def)
  show "\<exists>q. ip_set_destination rfc8200_udp a p = Some q \<and> v6_exact q \<and> length q = length p \<and> ip_destination rfc8200_udp q = Some a \<and>
      ip_source rfc8200_udp q = ip_source rfc8200_udp p \<and> ip_payload rfc8200_udp q = ip_payload rfc8200_udp p \<and>
      (\<forall>w. ip_payload rfc8200_udp p = Some w \<longrightarrow> view w q = view w p)" if a: "length a = 16" for a
    using put_at_header6 [OF v, of 24 a] a exact by (auto simp: rfc8200_udp_def)
  show "v6_exact (splice w u p) \<and> ip_source rfc8200_udp (splice w u p) = ip_source rfc8200_udp p \<and>
      ip_destination rfc8200_udp (splice w u p) = ip_destination rfc8200_udp p \<and>
      ip_payload rfc8200_udp (splice w u p) = ip_payload rfc8200_udp p"
    if w: "ip_payload rfc8200_udp p = Some w" "length u = snd w" for w and u :: bytes
  proof -
    have w': "ip_payload rfc8200 p = Some w" and win: "window_in w p"
      using w pay v by (auto simp: rfc8200_udp_def window_in_def v6_valid_def)
    show ?thesis
      using rfc6.splice_payload [OF v w' w(2)] exact [of "splice w u p"] length_splice [OF win w(2)]
      by (simp add: rfc8200_udp_def)
  qed
next
  fix w p assume "segment rfc8200_udp v6_exact i8_valid w p"
  then have v: "v6_valid p" "length p = 40 + v6_pl p" and w: "w = (40, v6_pl p)"
    by (auto simp: segment_def v6_exact_def rfc8200_udp_def rfc8200_payload)
  have get: "get_at i n (take 40 p) = get_at i n p" if "i + n \<le> 40" for i n
    using that v(2) by (simp add: get_at_def drop_take min_absorb1)
  have "get16 4 p = Some (be16 (p ! 4) (p ! 5))" and "get16 4 (take 40 p) = get16 4 p"
    using v(2) get [of 4 2] by (simp_all add: get16_def get_at_def)
  with get [of 8 16] get [of 24 16] v w
  show "\<exists>pl. ip6_payload_length rfc8200_udp p = Some pl \<and> unat pl = snd w \<and> length p = fst w + snd w \<and> v6_head (take (fst w) p) \<and>
      ip_source rfc8200_udp (take (fst w) p) = ip_source rfc8200_udp p \<and>
      ip_destination rfc8200_udp (take (fst w) p) = ip_destination rfc8200_udp p \<and>
      ip6_payload_length rfc8200_udp (take (fst w) p) = Some pl"
    by (simp add: v6_pl_def v6_head_def)
next
  fix h n assume "v6_head h"
  then have len: "4 + length (put_be16 n) \<le> length h" by (simp add: v6_head_def)
  obtain q where q: "put_at 4 (put_be16 n) h = Some q"
    using put_at_total [OF len] by blast
  then show "\<exists>q. ip6_set_payload_length rfc8200_udp n h = Some q \<and> length q = length h \<and> ip6_payload_length rfc8200_udp q = Some n \<and>
      ip_source rfc8200_udp q = ip_source rfc8200_udp h \<and> ip_destination rfc8200_udp q = ip_destination rfc8200_udp h"
    using put_at_length [OF q] put16_get16 [of 4 n h q] put_at_get_after [OF q] by (auto simp: put16_def)
next
  fix m :: bytes assume "8 \<le> length m" then show "i8_valid m" by (simp add: i8_valid_def)
qed

section \<open>Properties\<close>


text \<open>An echo request between two unspecified addresses.\<close>

definition echo_request6 :: bytes where
  "echo_request6 = 0x60 # replicate 4 0 @ [8, 58, 64] @ replicate 32 0 @ [128, 0, 0, 0, 0, 1, 0, 2]"

definition zeros16 :: bytes where
  "zeros16 = replicate 16 0"

lemma echo_request6_facts:
  "segment rfc8200_udp v6_exact i8_valid (40, 8) echo_request6"
  "icmp_type rfc792 (view (40, 8) echo_request6) = Some ICMPv6EchoRequest" "icmp_code rfc792 (view (40, 8) echo_request6) = Some 0"
  "ip_source rfc8200_udp echo_request6 = Some zeros16" "ip_destination rfc8200_udp echo_request6 = Some zeros16"
proof -
  have len: "length echo_request6 = 48" by (simp add: echo_request6_def)
  have nth: "echo_request6 ! 0 = 0x60" "echo_request6 ! 4 = 0" "echo_request6 ! 5 = 8"
    by (simp_all add: echo_request6_def nth_append nth_Cons')
  have view: "view (40, 8) echo_request6 = [128, 0, 0, 0, 0, 1, 0, 2]"
    by (simp add: view_def echo_request6_def)
  have pl: "v6_pl echo_request6 = 8" using nth by (simp add: v6_pl_def be16_def)
  with len nth have v: "v6_valid echo_request6" by (simp add: v6_valid_def)
  show "segment rfc8200_udp v6_exact i8_valid (40, 8) echo_request6"
    using v pl len rfc8200_payload [OF v] by (simp add: segment_def v6_exact_def rfc8200_udp_def i8_valid_def view)
  show "icmp_type rfc792 (view (40, 8) echo_request6) = Some ICMPv6EchoRequest" "icmp_code rfc792 (view (40, 8) echo_request6) = Some 0"
    by (simp_all add: view index_go_def ICMPv6EchoRequest_def)
  show "ip_source rfc8200_udp echo_request6 = Some zeros16" "ip_destination rfc8200_udp echo_request6 = Some zeros16"
    by (simp_all add: len get_at_def) (simp_all add: echo_request6_def zeros16_def drop_Cons' take_Cons')
qed


text \<open>Another packet in the same buffer: a source address that ends in one.\<close>

definition other_packet :: bytes where
  "other_packet = replicate 23 0 @ [1] @ replicate 16 0"

lemma other_packet_addresses:
  "ip_source rfc8200_udp other_packet = Some (replicate 15 0 @ [1])" "ip_destination rfc8200_udp other_packet = Some zeros16"
  by (simp_all add: other_packet_def get_at_def zeros16_def)

lemma csum_zeros: "csum (replicate (2 * k) 0 @ bs) c = csum bs c"
  by (induction k) (simp_all add: be16_def)

lemma pseudo_other:
  "cs_pseudo rfc1071 proto (replicate 15 0 @ [1]) zeros16 n = ocadd (cs_pseudo rfc1071 proto zeros16 zeros16 n) 1"
proof -
  have z: "csum zeros16 c = c" for c
    using csum_zeros [of 8 "[]" c] by (simp add: zeros16_def)
  have "replicate 15 0 @ [1 :: byte] = replicate (2 * 7) 0 @ [0, 1]"
    using replicate_append_same [of 14 "0 :: byte"] by (simp add: numeral_eq_Suc)
  then have o: "csum (replicate 15 0 @ [1]) 0 = 1"
    using csum_zeros [of 7 "[0, 1]" 0] by (simp add: be16_def)
  have p: "cs_pseudo rfc1071 proto a b n = csum [0, proto] (csum (put_be16 n) (csum b (csum a 0)))" for a b
    by (simp add: rfc1071_def)
  show ?thesis
    unfolding p z o by (simp only: csum_shift ocadd_0)
qed

text \<open>
  The checksum of an answer is computed over the addresses the packet's buffer holds when
  the answer comes back.  The buffer went to the handler with the request; when it holds
  another packet by then, the answer is written with a checksum that does not verify.
\<close>

theorem icmp6_reads_released_buffer:
  "\<exists>F h r t. processICMPv6 rfc8200_udp rfc792 (\<lambda>_. True) echo_request6 (40, 8) = Some (IcmpHanded F) \<and>
     icmp6_back rfc8200_udp rfc792 (\<lambda>n. replicate n 0) other_packet F [129, 0, 0, 0, 0, 1, 0, 2] = Some (h @ r, t) \<and>
     icmp6_frame rfc8200_udp zeros16 zeros16 h r \<and> \<not> icmp6_sum_ok rfc1071 zeros16 zeros16 r"
proof -
  obtain F where F: "v6_head (pf_header F)" "ip_source rfc8200_udp (pf_header F) = Some zeros16"
     "ip_destination rfc8200_udp (pf_header F) = Some zeros16"
     "ip6_payload_length rfc8200_udp (pf_header F) = Some (word_of_nat (pf_length F))"
     "processICMPv6 rfc8200_udp rfc792 (\<lambda>_. True) echo_request6 (40, 8) = Some (IcmpHanded F)"
    using rfc_icmp6.request6 [OF echo_request6_facts, of "\<lambda>_. True"] by auto
  have m: "i8_valid [129, 0, 0, 0, 0, 1, 0, 2]" "icmp_type rfc792 [129, 0, 0, 0, 0, 1, 0, 2] = Some 129"
     "\<And>n. length (replicate n (0 :: byte)) = n"
    by (simp_all add: i8_valid_def index_go_def)
  obtain h r t where r: "icmp6_back rfc8200_udp rfc792 (\<lambda>n. replicate n 0) other_packet F [129, 0, 0, 0, 0, 1, 0, 2] = Some (h @ r, t)"
     "icmp6_frame rfc8200_udp zeros16 zeros16 h r" "icmp6_sum_ok rfc1071 (replicate 15 0 @ [1]) zeros16 r"
    using rfc_icmp6.message_back6 [OF F(1-4) m other_packet_addresses] by blast
  let ?x = "csum r (cs_pseudo rfc1071 ICMPv6ProtocolNumber zeros16 zeros16 (word_of_nat (length r)))"
  have cs: "cs_checksum rfc1071 = csum" by (simp add: rfc1071_def)
  have "ocadd ?x 1 = 0xFFFF"
    using r(3) by (simp only: icmp6_sum_ok_def pseudo_other cs csum_shift)
  moreover have "ocadd 0xFFFF 1 = (1 :: u16)"
    by (simp add: ocadd_def)
  ultimately have "?x \<noteq> 0xFFFF"
    by auto
  then have "\<not> icmp6_sum_ok rfc1071 zeros16 zeros16 r"
    by (simp add: icmp6_sum_ok_def cs)
  with F(5) r show ?thesis by blast
qed

end
