(* ===== verification/NatUdp6Flow.thy ===== *)
theory NatUdp6Flow
  imports NatIcmp6
begin

text \<open>
  A UDP conversation over IPv6: \<open>processIPv6UDP\<close> and its answers together, with the laws
  the IPv6 header needs, and what becomes of a packet with an extension header.
\<close>

section \<open>The conversation\<close>

locale udp_nat6 = udp_reply6 H tmpl U uvalid C + full: ip_window H valid 16 uvalid
  for H :: ip6_ops and tmpl and U :: "'u udp_ops_scheme" and uvalid and C :: csum_ops and valid +
  assumes cut: "segment H valid uvalid w p \<Longrightarrow>
      \<exists>pl. ip6_payload_length H p = Some pl \<and> unat pl = snd w \<and> length p = fst w + snd w \<and>
        UDPMinimumSize \<le> snd w \<and> fst w + UDPMinimumSize < 65536 \<and> tmpl (take (fst w + UDPMinimumSize) p) \<and>
        ip_destination H (take (fst w + UDPMinimumSize) p) = ip_destination H p \<and>
        udp_destination_port U (view (fst w, UDPMinimumSize) p) = udp_destination_port U (view w p)"
begin

lemma header_end:
  assumes "unat (pl :: u16) = snd w" and "length p = fst w + snd w" and "fst w + UDPMinimumSize < 65536"
  shows "unat (word_of_nat (length p) - pl + word_of_nat UDPMinimumSize :: u16) = fst w + UDPMinimumSize"
proof -
  have "pl = word_of_nat (snd w)" by (simp flip: assms(1))
  then have "word_of_nat (length p) - pl + word_of_nat UDPMinimumSize = (word_of_nat (fst w + UDPMinimumSize) :: u16)"
    by (simp add: assms(2))
  then show ?thesis
    using assms(3) by (simp add: unat_of_nat del: of_nat_add)
qed

lemma conversation6:
  assumes p: "segment H valid uvalid w p" and src: "ip_source H p = Some src" and dst: "ip_destination H p = Some dst"
    and sp: "udp_source_port U (view w p) = Some sp" and dp: "udp_destination_port U (view w p) = Some dp"
  shows "\<exists>F. processIPv6UDP H U p w = Some F \<and> uf_source F = (src, sp) \<and> uf_destination F = (dst, dp) \<and>
     uf_payload F = drop UDPMinimumSize (view w p) \<and>
     (\<forall>peer payload. length (fst peer) = 16 \<longrightarrow>
        (\<exists>r. udp6_reply H U C (uf_template F) src peer payload = Some r \<and> udp6_answer H U C peer (src, sp) payload r))"
proof -
  have len: "length src = 16"
    using full.source_total [of p] p src by (auto simp: segment_def)
  have packets: "udp_packets H valid 16 U uvalid"
    by (intro udp_packets.intro full.ip_window_axioms udp_header_axioms)
  obtain p1 p2 where p1: "ip_set_destination H src p = Some p1"
    and p2: "on_window w (udp_set_destination_port U sp) p1 = Some p2" "segment H valid uvalid w p2" "ip_destination H p2 = Some src"
      "udp_destination_port U (view w p2) = Some sp" "drop UDPMinimumSize (view w p2) = drop UDPMinimumSize (view w p)"
    using udp_packets.redirect [OF packets p src len sp] by blast
  let ?n = "fst w + UDPMinimumSize"
  let ?t = "take ?n p2"
  obtain pl where pl: "ip6_payload_length H p2 = Some pl" "unat pl = snd w" "length p2 = fst w + snd w"
    "UDPMinimumSize \<le> snd w" "?n < 65536"
    and t: "tmpl ?t" "ip_destination H ?t = Some src" "udp_destination_port U (view (fst w, UDPMinimumSize) p2) = Some sp"
    using cut [OF p2(2)] p2(3,4) by auto
  have "udp_window ?t = (fst w, UDPMinimumSize)"
    using pl(3,4) by (simp add: udp_window_def)
  then have "view (udp_window ?t) ?t = view (fst w, UDPMinimumSize) p2"
    by (simp add: view_def drop_take)
  with t have reply: "\<exists>r. udp6_reply H U C ?t src peer payload = Some r \<and> udp6_answer H U C peer (src, sp) payload r"
    if "length (fst peer) = 16" for peer payload
    using reply6 [OF t(1) that t(2)] by simp
  have run: "processIPv6UDP H U p w = Some \<lparr>uf_source = (src, sp), uf_destination = (dst, dp), uf_template = ?t,
      uf_payload = drop ?n p2\<rparr>"
    using header_end [OF pl(2,3,5)] pl(3,4)
    by (simp add: processIPv6UDP_def src dst sp dp p1 p2(1) pl(1) slice_def)
  have "drop ?n p2 = drop UDPMinimumSize (view w p)"
    unfolding p2(5) [symmetric] using pl(3) by (simp add: view_def add.commute)
  with run reply show ?thesis by simp
qed

end

section \<open>The wire layout\<close>

lemma v6_exact_segment:
  "segment rfc8200_udp v6_exact u8_valid w p \<longleftrightarrow> v6_exact p \<and> w = (40, v6_pl p) \<and> u8_valid (view w p)"
  by (auto simp: segment_def v6_exact_def rfc8200_udp_def rfc8200_payload)

interpretation rfc_nat6: udp_nat6 rfc8200_udp v6_tmpl rfc768 u8_valid rfc1071 v6_exact
proof (intro udp_nat6.intro rfc_reply6.udp_reply6_axioms udp_nat6_axioms.intro)
  show "ip_window rfc8200_udp v6_exact 16"
    using rfc_icmp6.ip_window_axioms by (simp add: ip_window_def)
next
  fix w p assume "segment rfc8200_udp v6_exact u8_valid w p"
  then have p: "length p = 40 + v6_pl p" and w: "w = (40, v6_pl p)" and u: "u8_valid (view w p)"
    by (auto simp: v6_exact_segment v6_exact_def)
  then have n: "8 \<le> v6_pl p"
    by (simp add: u8_valid_def view_def)
  have "view (40, 8) p = take 8 (view w p)"
    using n by (simp add: view_def w min_def)
  moreover have "ip6_payload_length rfc8200_udp p = Some (be16 (p ! 4) (p ! 5))"
    using p by (simp add: get16_def get_at_def)
  moreover have "get_at 24 16 (take 48 p) = get_at 24 16 p"
    using p n by (simp add: get_at_def drop_take min_def)
  ultimately show "\<exists>pl. ip6_payload_length rfc8200_udp p = Some pl \<and> unat pl = snd w \<and> length p = fst w + snd w \<and>
        UDPMinimumSize \<le> snd w \<and> fst w + UDPMinimumSize < 65536 \<and> v6_tmpl (take (fst w + UDPMinimumSize) p) \<and>
        ip_destination rfc8200_udp (take (fst w + UDPMinimumSize) p) = ip_destination rfc8200_udp p \<and>
        udp_destination_port rfc768 (view (fst w, UDPMinimumSize) p) = udp_destination_port rfc768 (view w p)"
    using p w n by (simp add: v6_pl_def UDPMinimumSize_def v6_tmpl_def get16_take)
qed

text \<open>
  A UDP conversation over IPv6: a packet is handed on with its end points and payload, and
  each answer is a datagram from the answering peer to the sender, with the right lengths
  up to 16 bits and a UDP checksum that verifies.
\<close>

theorem udp6_conversation:
  assumes "udp_nat6 H tmpl U uvalid valid"
    and "segment H valid uvalid w p" and "ip_source H p = Some src" and "ip_destination H p = Some dst"
    and "udp_source_port U (view w p) = Some sp" and "udp_destination_port U (view w p) = Some dp"
  shows "\<exists>F. processIPv6UDP H U p w = Some F \<and> uf_source F = (src, sp) \<and> uf_destination F = (dst, dp) \<and>
     uf_payload F = drop UDPMinimumSize (view w p) \<and>
     (\<forall>addr payload. (\<forall>ip port. addr = Some (ip, port) \<longrightarrow> length ip = 16) \<longrightarrow>
        (\<exists>r. udp6_reply H U C (uf_template F) src (reply_source addr dst dp) payload = Some r \<and>
           udp6_answer H U C (reply_source addr dst dp) (src, sp) payload r))"
proof -
  have "ip_header H valid 16"
    using assms(1) by (simp add: udp_nat6_def ip_window_def)
  then have "length dst = 16"
    using ip_header.destination_total [of H valid 16 p] assms(2,4) by (auto simp: segment_def)
  then have "length (fst (reply_source addr dst dp)) = 16"
    if "\<forall>ip port. addr = Some (ip, port) \<longrightarrow> length ip = 16" for addr
    using that by (auto simp: reply_source_def split: option.split)
  with udp_nat6.conversation6 [OF assms, of C] show ?thesis by blast
qed

text \<open>A query to port 53 over IPv6, with two bytes of payload.\<close>

definition dns_query6 :: bytes where
  "dns_query6 = [0x60, 0, 0, 0, 0, 10, 17, 64] @ [0xFD, 0, 0, 0, 0, 0, 0, 0, 0, 0, 0, 0, 0, 0, 0, 1] @
     [0xFD, 0, 0, 0, 0, 0, 0, 0, 0, 0, 0, 0, 0, 0, 0, 2] @ [0xC0, 0, 0, 53, 0, 10, 0, 0, 1, 2]"

lemma dns_query6_fields:
  "segment rfc8200_udp v6_exact u8_valid (40, 10) dns_query6"
  "ip_source rfc8200_udp dns_query6 = Some [0xFD, 0, 0, 0, 0, 0, 0, 0, 0, 0, 0, 0, 0, 0, 0, 1]"
  "ip_destination rfc8200_udp dns_query6 = Some [0xFD, 0, 0, 0, 0, 0, 0, 0, 0, 0, 0, 0, 0, 0, 0, 2]"
  "udp_source_port rfc768 (view (40, 10) dns_query6) = Some 0xC000"
  "udp_destination_port rfc768 (view (40, 10) dns_query6) = Some 53"
  by (simp_all add: v6_exact_segment v6_exact_def v6_valid_def v6_pl_def u8_valid_def view_def dns_query6_def be16_def get_at_def get16_def)

theorem udp6_conversation_witness:
  "\<exists>F r. processIPv6UDP rfc8200_udp rfc768 dns_query6 (40, 10) = Some F \<and> snd (uf_source F) = 0xC000 \<and>
     snd (uf_destination F) = 53 \<and> uf_payload F = [1, 2] \<and>
     udp6_reply rfc8200_udp rfc768 rfc1071 (uf_template F) (fst (uf_source F)) (uf_destination F) [3, 4, 5] = Some r \<and>
     udp6_answer rfc8200_udp rfc768 rfc1071 (uf_destination F) (uf_source F) [3, 4, 5] r"
proof -
  have "drop UDPMinimumSize (view (40, 10) dns_query6) = [1, 2]"
    by (simp add: dns_query6_def view_def UDPMinimumSize_def)
  with udp6_conversation [OF rfc_nat6.udp_nat6_axioms dns_query6_fields, of rfc1071]
  show ?thesis by (metis fst_conv option.distinct(1) option.simps(4) reply_source_def snd_conv)
qed

section \<open>Extension headers\<close>

text \<open>
  \<open>parse.IPv6\<close> follows the chain of extension headers to the transport protocol, but the
  handler gets \<open>ipHdr.Payload()\<close>, which starts after the 40 fixed bytes: of the same query
  behind an 8-byte hop-by-hop header the ports are read from the option bytes.
\<close>

definition dns_query6_options :: bytes where
  "dns_query6_options = [0x60, 0, 0, 0, 0, 18, 0, 64] @ [0xFD, 0, 0, 0, 0, 0, 0, 0, 0, 0, 0, 0, 0, 0, 0, 1] @
     [0xFD, 0, 0, 0, 0, 0, 0, 0, 0, 0, 0, 0, 0, 0, 0, 2] @ [17, 0, 1, 4, 0, 0, 0, 0] @ [0xC0, 0, 0, 53, 0, 10, 0, 0, 1, 2]"

theorem extension_header_read_as_ports:
  "\<exists>F. processIPv6UDP rfc8200_udp rfc768 dns_query6_options (40, 18) = Some F \<and>
     snd (uf_source F) = 0x1100 \<and> snd (uf_destination F) = 0x0104 \<and> uf_payload F = [0xC0, 0, 0, 53, 0, 10, 0, 0, 1, 2]"
proof -
  have p: "segment rfc8200_udp v6_exact u8_valid (40, 18) dns_query6_options"
    "ip_source rfc8200_udp dns_query6_options = Some [0xFD, 0, 0, 0, 0, 0, 0, 0, 0, 0, 0, 0, 0, 0, 0, 1]"
    "ip_destination rfc8200_udp dns_query6_options = Some [0xFD, 0, 0, 0, 0, 0, 0, 0, 0, 0, 0, 0, 0, 0, 0, 2]"
    "udp_source_port rfc768 (view (40, 18) dns_query6_options) = Some 0x1100"
    "udp_destination_port rfc768 (view (40, 18) dns_query6_options) = Some 0x0104"
    by (simp_all add: v6_exact_segment v6_exact_def v6_valid_def v6_pl_def u8_valid_def view_def dns_query6_options_def
        be16_def get_at_def get16_def)
  have "drop UDPMinimumSize (view (40, 18) dns_query6_options) = [0xC0, 0, 0, 53, 0, 10, 0, 0, 1, 2]"
    by (simp add: dns_query6_options_def view_def UDPMinimumSize_def)
  with rfc_nat6.conversation6 [OF p] show ?thesis by fastforce
qed

end
