(* ===== verification/UdpPath6.thy ===== *)
theory UdpPath6
  imports UdpPath NatUdp6Flow
begin

text \<open>
  The same UDP session over IPv6, composed of \<open>processIPv6UDP\<close>, the connection to the core and
  the IPv6 answers, and what becomes of an answer whose end point is a domain.
\<close>

definition write_back6 :: "ip6_ops \<Rightarrow> 'u udp_ops_scheme \<Rightarrow> csum_ops \<Rightarrow> udp_flow \<Rightarrow> bytes writer" where
  "write_back6 H U C F payload addr =
     map_option (\<lambda>r. ([r], False)) (udp6_reply H U C (uf_template F) (fst (uf_source F))
       (reply_source addr (fst (uf_destination F)) (snd (uf_destination F))) payload)"

definition udp6_session :: "ip6_ops \<Rightarrow> 'u udp_ops_scheme \<Rightarrow> csum_ops \<Rightarrow> (bytes \<Rightarrow> string) \<Rightarrow> bool \<Rightarrow> (nat \<Rightarrow> bool) \<Rightarrow> bytes \<Rightarrow> window
    \<Rightarrow> (bool \<times> buffer) list \<Rightarrow> (buffer list \<times> bytes list \<times> loop_end) go" where
  "udp6_session H U C text_of isDns picks p w answers = do {
     F \<leftarrow> processIPv6UDP H U p w;
     session_through (write_back6 H U C F) isDns picks (ip_target FamilyIPv6 text_of (uf_destination F)) (uf_payload F) answers
   }"

text \<open>Answers the IPv6 code can write: not empty, and from an IPv6 address or the dialled server.\<close>

definition ipv6_buffer :: "buffer \<Rightarrow> bool" where
  "ipv6_buffer b \<longleftrightarrow> bf_bytes b \<noteq> [] \<and>
     (case bf_endpoint b of
        None \<Rightarrow> True
      | Some e \<Rightarrow> addr_family (dst_address e) = FamilyIPv6 \<and> (case addr_ip (dst_address e) of None \<Rightarrow> False | Some ip \<Rightarrow> length ip = 16))"

definition answer_peer6 :: "bool \<Rightarrow> bytes \<times> u16 \<Rightarrow> buffer \<Rightarrow> bytes \<times> u16" where
  "answer_peer6 isDns server b =
     (if isDns then server
      else case bf_endpoint b of None \<Rightarrow> server | Some e \<Rightarrow> (the (addr_ip (dst_address e)), dst_port e))"

lemma answer_source6:
  assumes "ipv6_buffer b" "length (fst server) = 16"
  shows "\<exists>ip. fst (udp_source (queued (ip_target FamilyIPv6 text_of server) b)) = Some ip \<and> length ip = 16 \<and>
    reply_source (relay_addr isDns (queued (ip_target FamilyIPv6 text_of server) b)) (fst server) (snd server) = answer_peer6 isDns server b"
  using assms
  by (auto simp: ipv6_buffer_def packet_of_def new_conn_def udp_source_def ip_target_def relay_addr_def reply_source_def answer_peer6_def
      Let_def split: option.splits)



text \<open>
  An answer whose end point is a domain is given the source \<open>net.AnyIP\<close>, which has four bytes:
  over IPv6 they replace the first four of the client's own address, which the template has
  as its source, and the checksum, made for the four bytes, does not verify.
\<close>

definition domain_answer :: buffer where
  "domain_answer = \<lparr>bf_bytes = [3, 4, 5], bf_endpoint = Some \<lparr>dst_address = \<lparr>addr_family = FamilyDomain, addr_ip = None, addr_domain = Some ''a.b'',
     addr_string = ''a.b''\<rparr>, dst_port = 53, dst_network = Network_UDP\<rparr>\<rparr>"

definition garbled_header :: bytes where
  "garbled_header = [0x60, 0, 0, 0, 0, 11, 17, 64] @ [0, 0, 0, 0, 0, 0, 0, 0, 0, 0, 0, 0, 0, 0, 0, 1] @
     [0xFD, 0, 0, 0, 0, 0, 0, 0, 0, 0, 0, 0, 0, 0, 0, 1] @ [0, 53, 0xC0, 0, 0, 11, 58, 157]"

definition query6_flow :: udp_flow where
  "query6_flow = \<lparr>uf_source = ([0xFD, 0, 0, 0, 0, 0, 0, 0, 0, 0, 0, 0, 0, 0, 0, 1], 0xC000),
     uf_destination = ([0xFD, 0, 0, 0, 0, 0, 0, 0, 0, 0, 0, 0, 0, 0, 0, 2], 53),
     uf_template = [0x60, 0, 0, 0, 0, 10, 17, 64] @ [0xFD, 0, 0, 0, 0, 0, 0, 0, 0, 0, 0, 0, 0, 0, 0, 1] @
       [0xFD, 0, 0, 0, 0, 0, 0, 0, 0, 0, 0, 0, 0, 0, 0, 1] @ [0xC0, 0, 0xC0, 0, 0, 10, 0, 0], uf_payload = [1, 2]\<rparr>"

lemma query6_processed: "processIPv6UDP rfc8200_udp rfc768 dns_query6 (40, 10) = Some query6_flow"
  by (simp add: processIPv6UDP_def dns_query6_def query6_flow_def get_at_def get16_def view_def be16_def on_window_def splice_def
      put16_def put_at_def put_be16_def rfc768_def slice_def UDPMinimumSize_def)

lemma query6_reply:
  "udp6_reply rfc8200_udp rfc768 rfc1071 (uf_template query6_flow) (fst (uf_source query6_flow)) ([0, 0, 0, 0], 53) [3, 4, 5]
   = Some (garbled_header @ [3, 4, 5])"
  by (simp add: query6_flow_def garbled_header_def udp6_reply_def udp_fill_def on_window_def view_def splice_def udp_window_def UDPMinimumSize_def
     put16_def put_at_def get16_def get_at_def put_be16_def be16_def rfc1071_def rfc768_def UDPProtocolNumber_def ocadd_def Let_def)

lemma domain_answer_session:
  "\<exists>sent. udp6_session rfc8200_udp rfc768 rfc1071 (\<lambda>_. []) False (\<lambda>_. True) dns_query6 (40, 10) [(True, domain_answer)]
     = Some (sent, [garbled_header @ [3, 4, 5]], Stuck)"
proof -
  have "write_back6 rfc8200_udp rfc768 rfc1071 query6_flow [3, 4, 5] (Some ([0, 0, 0, 0], 53)) = Some ([garbled_header @ [3, 4, 5]], False)"
    using query6_reply by (simp add: write_back6_def reply_source_def uint16_of_def)
  then show ?thesis
    by (simp add: udp6_session_def query6_processed session_through_def answer_session_def conn_writeTo_def new_conn_def domain_answer_def offer_def packet_of_def
        conn_readFrom_def udp_source_def AnyIP_def cache_cap_def)
qed

lemma garbled_sum:
  "\<not> udp_ok rfc768 rfc1071 ([0, 0, 0, 0, 0, 0, 0, 0, 0, 0, 0, 0, 0, 0, 0, 1], 53)
     ([0xFD, 0, 0, 0, 0, 0, 0, 0, 0, 0, 0, 0, 0, 0, 0, 1], 0xC000) [3, 4, 5] (view (udp_window garbled_header) garbled_header)"
  by (simp add: udp_ok_def garbled_header_def view_def udp_window_def UDPMinimumSize_def get16_def get_at_def put_be16_def be16_def rfc1071_def rfc768_def
      UDPProtocolNumber_def ocadd_def Let_def)

theorem domain_answer_over_ipv6:
  "\<exists>sent q. udp6_session rfc8200_udp rfc768 rfc1071 (\<lambda>_. []) False (\<lambda>_. True) dns_query6 (40, 10) [(True, domain_answer)] =
       Some (sent, [q @ [3, 4, 5]], Stuck) \<and>
     ip_source rfc8200_udp q = Some [0, 0, 0, 0, 0, 0, 0, 0, 0, 0, 0, 0, 0, 0, 0, 1] \<and>
     ip_destination rfc8200_udp q = Some [0xFD, 0, 0, 0, 0, 0, 0, 0, 0, 0, 0, 0, 0, 0, 0, 1] \<and>
     \<not> udp_ok rfc768 rfc1071 ([0, 0, 0, 0, 0, 0, 0, 0, 0, 0, 0, 0, 0, 0, 0, 1], 53)
         ([0xFD, 0, 0, 0, 0, 0, 0, 0, 0, 0, 0, 0, 0, 0, 0, 1], 0xC000) [3, 4, 5] (view (udp_window q) q)"
proof -
  obtain sent where "udp6_session rfc8200_udp rfc768 rfc1071 (\<lambda>_. []) False (\<lambda>_. True) dns_query6 (40, 10) [(True, domain_answer)] =
       Some (sent, [garbled_header @ [3, 4, 5]], Stuck)"
    using domain_answer_session by blast
  moreover have "ip_source rfc8200_udp garbled_header = Some [0, 0, 0, 0, 0, 0, 0, 0, 0, 0, 0, 0, 0, 0, 0, 1]"
    "ip_destination rfc8200_udp garbled_header = Some [0xFD, 0, 0, 0, 0, 0, 0, 0, 0, 0, 0, 0, 0, 0, 0, 1]"
    by (simp_all add: garbled_header_def get_at_def)
  ultimately show ?thesis using garbled_sum by blast
qed

end
