(* ===== verification/NatDevice.thy ===== *)
theory NatDevice
  imports NatUdp6Flow NatFlow
begin

text \<open>
  \<open>nat/nat.go\<close>: the system tun.  One goroutine reads packets from the device into a buffer
  and passes each to the handler of its protocol.  A handler may take the buffer over, and
  then the loop goes on with a new one of the standard size.
\<close>

section \<open>One packet\<close>

text \<open>
  The libraries the handlers use, \<open>header.IPVersion\<close>, \<open>parse.IPv6\<close> (the transport protocol,
  when the headers parse) and the answer of \<open>NewPingPacket\<close>.
\<close>

record 's device_env =
  de_lru :: "'s lru_ops"
  de_ip4 :: ip4_ops
  de_ip6 :: ip6_ops
  de_tcp :: tcp_ops
  de_udp :: udp_ops
  de_icmp :: icmp_ops
  de_csum :: csum_ops
  de_version :: "bytes \<Rightarrow> int"
  de_parse6 :: "bytes \<Rightarrow> byte option"
  de_accepts :: "ping_flow \<Rightarrow> bool"

text \<open>
  What a packet leads to: a packet written to the device, a flow handed to \<open>NewPacket\<close>, a
  request handed to \<open>NewPingPacket\<close>.
\<close>

datatype device_event = ToDevice bytes | ToUdp udp_flow | ToPing ping_flow

definition ICMPv4ProtocolNumber :: byte where "ICMPv4ProtocolNumber = 1"

lemmas protocol_numbers = TCPProtocolNumber_def UDPProtocolNumber_def ICMPv4ProtocolNumber_def ICMPv6ProtocolNumber_def

fun written :: "bytes option \<Rightarrow> device_event list" where
  "written None = []"
| "written (Some q) = [ToDevice q]"

text \<open>The result of an ICMP handler: what it did, and whether the buffer is taken.\<close>

fun icmp_outcome :: "icmp_result \<Rightarrow> device_event list \<times> bool" where
  "icmp_outcome IcmpIgnored = ([], False)"
| "icmp_outcome (IcmpHanded F) = ([ToPing F], True)"
| "icmp_outcome (IcmpAnswered F q) = ([ToPing F, ToDevice q], False)"

text \<open>\<open>deliverPacket\<close>: the events, the result (is the buffer taken) and the forwarder.\<close>

definition deliver4 :: "'s device_env \<Rightarrow> 's tcpForwarder \<Rightarrow> bytes \<Rightarrow> (device_event list \<times> bool \<times> 's tcpForwarder) go" where
  "deliver4 E t p = do {
     proto \<leftarrow> ip4_protocol (de_ip4 E) p;
     if proto = TCPProtocolNumber then do {
       w \<leftarrow> ip_payload (de_ip4 E) p;
       (q, t') \<leftarrow> processIPv4 (de_lru E) (de_ip4 E) (de_tcp E) (de_csum E) t p w;
       Some (written q, False, t')
     } else if proto = UDPProtocolNumber then do {
       w \<leftarrow> ip_payload (de_ip4 E) p;
       F \<leftarrow> processIPv4UDP (de_ip4 E) (de_udp E) p w;
       Some ([ToUdp F], True, t)
     } else if proto = ICMPv4ProtocolNumber then do {
       w \<leftarrow> ip_payload (de_ip4 E) p;
       r \<leftarrow> processICMPv4 (de_ip4 E) (de_icmp E) (de_accepts E) p w;
       Some (fst (icmp_outcome r), snd (icmp_outcome r), t)
     } else Some ([], False, t)
   }"

definition deliver6 :: "'s device_env \<Rightarrow> 's tcpForwarder \<Rightarrow> bytes \<Rightarrow> (device_event list \<times> bool \<times> 's tcpForwarder) go" where
  "deliver6 E t p =
     (case de_parse6 E p of
        None \<Rightarrow> Some ([], False, t)
      | Some proto \<Rightarrow>
          if proto = TCPProtocolNumber then do {
            w \<leftarrow> ip_payload (de_ip6 E) p;
            (q, t') \<leftarrow> processIPv6 (de_lru E) (de_ip6 E) (de_tcp E) (de_csum E) t p w;
            Some (written q, False, t')
          } else if proto = UDPProtocolNumber then do {
            w \<leftarrow> ip_payload (de_ip6 E) p;
            F \<leftarrow> processIPv6UDP (de_ip6 E) (de_udp E) p w;
            Some ([ToUdp F], True, t)
          } else if proto = ICMPv6ProtocolNumber then do {
            w \<leftarrow> ip_payload (de_ip6 E) p;
            r \<leftarrow> processICMPv6 (de_ip6 E) (de_icmp E) (de_accepts E) p w;
            Some (fst (icmp_outcome r), snd (icmp_outcome r), t)
          } else Some ([], False, t))"

definition deliverPacket :: "'s device_env \<Rightarrow> 's tcpForwarder \<Rightarrow> bytes \<Rightarrow> (device_event list \<times> bool \<times> 's tcpForwarder) go" where
  "deliverPacket E t p =
     (if de_version E p = 4 then deliver4 E t p
      else if de_version E p = 6 then deliver6 E t p
      else Some ([], False, t))"

section \<open>The loop\<close>

text \<open>
  \<open>cap\<close> is the length of the slice the device is read into, \<open>b\<close> numbers the buffers in the
  order the loop allocates them.  The list holds the packets the device has; a read takes
  one and loses what does not fit.  An empty read into a slice with room is the end of the
  file, and so is the end of the list.  The trace says for each packet which buffer it was
  read into and what became of it; with it come the buffer the loop holds at the end and
  the forwarder.
\<close>

type_synonym trace = "(nat \<times> bytes \<times> device_event list) list"

fun device_loop :: "'s device_env \<Rightarrow> nat \<Rightarrow> nat \<Rightarrow> nat \<Rightarrow> 's tcpForwarder \<Rightarrow> bytes list
    \<Rightarrow> (trace \<times> nat \<times> 's tcpForwarder) go" where
  "device_loop E bufSize cap b t [] = Some ([], b, t)"
| "device_loop E bufSize cap b t (x # xs) =
     (if x = [] \<and> 0 < cap then Some ([], b, t)
      else do {
        (ev, taken, t') \<leftarrow> deliverPacket E t (take cap x);
        (tr, held, t'') \<leftarrow> (if taken then device_loop E bufSize bufSize (Suc b) t' xs
                         else device_loop E bufSize cap b t' xs);
        Some ((b, take cap x, ev) # tr, held, t'')
      })"

text \<open>
  \<open>dispatchLoop\<close>: the first buffer has the size of the MTU.  \<open>defer cache.Release()\<close> fixes its
  receiver where it stands, so what is released at the end is the first buffer.
\<close>

record 's device_end =
  dn_trace :: trace
  dn_held :: nat
  dn_released :: nat
  dn_forwarder :: "'s tcpForwarder"

definition dispatchLoop_device :: "'s device_env \<Rightarrow> nat \<Rightarrow> nat \<Rightarrow> 's tcpForwarder \<Rightarrow> bytes list \<Rightarrow> 's device_end go" where
  "dispatchLoop_device E bufSize mtu t xs = do {
     (tr, held, t') \<leftarrow> device_loop E bufSize mtu 0 t xs;
     Some \<lparr>dn_trace = tr, dn_held = held, dn_released = 0, dn_forwarder = t'\<rparr>
   }"

text \<open>\<open>New\<close>: the forwarder, or the listener's error; then the loop above runs on it.\<close>

definition newSystemTun :: "(string \<Rightarrow> bytes \<Rightarrow> 'e + int) \<Rightarrow> 's \<Rightarrow> int \<Rightarrow> 'e + 's tcpForwarder" where
  "newSystemTun listen sessions0 ipv6Mode = newTcpForwarder listen sessions0 ipv6Mode"

section \<open>Buffers\<close>

text \<open>A packet's events take its buffer over when they hand it to a handler that keeps it.\<close>

fun takes :: "device_event list \<Rightarrow> bool" where
  "takes [ToUdp F] = True"
| "takes [ToPing F] = True"
| "takes _ = False"

lemma takes_written [simp]: "\<not> takes (written q)"
  by (cases q) simp_all

lemma takes_icmp [simp]: "takes (fst (icmp_outcome r)) = snd (icmp_outcome r)"
  by (cases r) simp_all

lemma deliver4_taken: "deliver4 E t p = Some (ev, taken, t') \<Longrightarrow> taken = takes ev"
  by (auto simp: deliver4_def bind_eq_Some_conv split: if_splits)

lemma deliver6_taken: "deliver6 E t p = Some (ev, taken, t') \<Longrightarrow> taken = takes ev"
  by (auto simp: deliver6_def bind_eq_Some_conv split: if_splits option.splits)

lemma deliverPacket_taken: "deliverPacket E t p = Some (ev, taken, t') \<Longrightarrow> taken = takes ev"
  by (auto simp: deliverPacket_def dest: deliver4_taken deliver6_taken split: if_splits)

text \<open>The buffers the trace takes over, in order.\<close>

definition taken_buffers :: "trace \<Rightarrow> nat list" where
  "taken_buffers tr = map fst (filter (\<lambda>(b, p, ev). takes ev) tr)"

lemma taken_buffers_simps [simp]:
  "taken_buffers [] = []"
  "taken_buffers ((b, p, ev) # tr) = (if takes ev then b # taken_buffers tr else taken_buffers tr)"
  by (simp_all add: taken_buffers_def)

text \<open>
  The buffers taken over are consecutive, the one after them is held at the end, and the
  buffer a packet is read into was not taken over before.
\<close>

lemma device_loop_buffers:
  "device_loop E bufSize cap b t xs = Some (tr, held, t') \<Longrightarrow>
     b \<le> held \<and> taken_buffers tr = [b..<held] \<and> (\<forall>e \<in> set tr. b \<le> fst e \<and> fst e \<le> held) \<and> sorted (map fst tr) \<and>
     (\<forall>i j. i < j \<longrightarrow> j < length tr \<longrightarrow> takes (snd (snd (tr ! i))) \<longrightarrow> fst (tr ! i) < fst (tr ! j))"
proof (induction E bufSize cap b t xs arbitrary: tr held t' rule: device_loop.induct)
  case (2 E bufSize cap b t x xs)
  show ?case
  proof (cases "x = [] \<and> 0 < cap")
    case False
    with "2.prems" obtain ev taken t1 tr' where d: "deliverPacket E t (take cap x) = Some (ev, taken, t1)"
      and rest: "(if taken then device_loop E bufSize bufSize (Suc b) t1 xs else device_loop E bufSize cap b t1 xs) = Some (tr', held, t')"
      and tr: "tr = (b, take cap x, ev) # tr'"
      by (auto simp: bind_eq_Some_conv simp del: not_gr_zero)
    note taken = deliverPacket_taken [OF d]
    let ?c = "if taken then Suc b else b"
    have IH: "?c \<le> held \<and> taken_buffers tr' = [?c..<held] \<and> (\<forall>e \<in> set tr'. ?c \<le> fst e \<and> fst e \<le> held) \<and> sorted (map fst tr') \<and>
        (\<forall>i j. i < j \<longrightarrow> j < length tr' \<longrightarrow> takes (snd (snd (tr' ! i))) \<longrightarrow> fst (tr' ! i) < fst (tr' ! j))"
      using "2.IH"(1) [OF False d refl refl, of tr' held t'] "2.IH"(2) [OF False d refl refl, of tr' held t'] rest
      by (cases taken) simp_all
    have "fst (tr ! i) < fst (tr ! j)" if ij: "i < j" "j < length tr" "takes (snd (snd (tr ! i)))" for i j
    proof (cases i)
      case 0
      then have "taken" using ij taken tr by simp
      then have "\<forall>e \<in> set tr'. Suc b \<le> fst e" using IH by simp
      moreover obtain k where "j = Suc k" "k < length tr'" using ij tr by (cases j) auto
      ultimately show ?thesis using 0 tr nth_mem [of k tr'] by fastforce
    next
      case (Suc k)
      then show ?thesis using IH ij tr by (cases j) auto
    qed
    moreover have "taken_buffers tr = [b..<held]"
      using IH taken tr by (auto simp: upt_conv_Cons split: if_splits)
    ultimately show ?thesis
      using IH tr by (auto split: if_splits)
  qed (use "2.prems" in auto)
qed auto

text \<open>
  Buffers of the device loop.  A packet is never read into a buffer that was handed over
  with an earlier one.  But what the loop releases when it ends is its first buffer, and
  that one was handed over exactly if any was; the buffer it holds then is not released.
\<close>

theorem device_buffers:
  assumes "dispatchLoop_device E bufSize mtu t xs = Some d"
  shows "(\<forall>i j. i < j \<longrightarrow> j < length (dn_trace d) \<longrightarrow> takes (snd (snd (dn_trace d ! i))) \<longrightarrow>
       fst (dn_trace d ! i) < fst (dn_trace d ! j)) \<and>
     (dn_released d \<in> set (taken_buffers (dn_trace d)) \<longleftrightarrow> taken_buffers (dn_trace d) \<noteq> []) \<and>
     (dn_held d = dn_released d \<longleftrightarrow> taken_buffers (dn_trace d) = [])"
proof -
  obtain tr held t' where "device_loop E bufSize mtu 0 t xs = Some (tr, held, t')"
    and d: "d = \<lparr>dn_trace = tr, dn_held = held, dn_released = 0, dn_forwarder = t'\<rparr>"
    using assms by (auto simp: dispatchLoop_device_def bind_eq_Some_conv)
  from device_loop_buffers [OF this(1)] show ?thesis
    by (auto simp: d)
qed

end
