(* ===== verification/NatDeviceSafe.thy ===== *)
theory NatDeviceSafe
  imports NatDevice
begin

text \<open>
  The whole system tun: on packets whose headers are valid no handler panics, whatever
  the order of protocols and IP versions, and the session table keeps addresses of the
  right length.  What makes the loop fail is a packet that was cut short by the buffer.
\<close>

section \<open>Well-formed packets and tables\<close>

definition wf_table :: "('s \<Rightarrow> peerKey \<Rightarrow> peerValue option) \<Rightarrow> 's tcpForwarder \<Rightarrow> bool" where
  "wf_table look t \<longleftrightarrow>
     (\<forall>k v. look (tf_sessions t) k = Some v \<longrightarrow> length (sourceAddress v) = length (destinationAddress k))"

definition good4 :: "'s device_env \<Rightarrow> (bytes \<Rightarrow> bool) \<Rightarrow> (bytes \<Rightarrow> bool) \<Rightarrow> (bytes \<Rightarrow> bool) \<Rightarrow> (bytes \<Rightarrow> bool) \<Rightarrow> bytes \<Rightarrow> bool" where
  "good4 E valid tvalid uvalid ivalid p \<longleftrightarrow> de_version E p = 4 \<and> valid p \<and>
     (case (ip4_protocol (de_ip4 E) p, ip_payload (de_ip4 E) p) of
        (Some proto, Some w) \<Rightarrow>
          (if proto = TCPProtocolNumber then tvalid (view w p)
           else if proto = UDPProtocolNumber then uvalid (view w p)
           else proto = ICMPv4ProtocolNumber \<longrightarrow> ivalid (view w p))
      | _ \<Rightarrow> False)"

definition good6 :: "'s device_env \<Rightarrow> (bytes \<Rightarrow> bool) \<Rightarrow> (bytes \<Rightarrow> bool) \<Rightarrow> (bytes \<Rightarrow> bool) \<Rightarrow> (bytes \<Rightarrow> bool) \<Rightarrow> bytes \<Rightarrow> bool" where
  "good6 E valid tvalid uvalid ivalid p \<longleftrightarrow> de_version E p = 6 \<and> valid p \<and>
     (case (de_parse6 E p, ip_payload (de_ip6 E) p) of
        (None, _) \<Rightarrow> True
      | (Some proto, Some w) \<Rightarrow>
          (if proto = TCPProtocolNumber then tvalid (view w p)
           else if proto = UDPProtocolNumber then uvalid (view w p)
           else proto = ICMPv6ProtocolNumber \<longrightarrow> ivalid (view w p))
      | _ \<Rightarrow> False)"

locale device =
  tcp4: nat_forwarder4 "de_ip4 E" valid4 4 "de_tcp E" tvalid "de_csum E" "de_lru E" look +
  udp4: udp_nat4 "de_ip4 E" tmpl "de_udp E" uvalid "de_csum E" valid4 +
  icmp4: icmp4_packets "de_ip4 E" valid4 "de_icmp E" ivalid "de_csum E" head4 +
  tcp6: nat_forwarder "de_ip6 E" valid6 16 "de_tcp E" tvalid "de_csum E" "de_lru E" look +
  icmp6: icmp6_packets "de_ip6 E" valid6 "de_icmp E" ivalid "de_csum E" head6 +
  udp6: udp_nat6 "de_ip6 E" tmpl6 "de_udp E" uvalid "de_csum E" valid6
  for E :: "'s device_env" and valid4 valid6 tvalid uvalid ivalid tmpl tmpl6 head4 head6
    and look :: "'s \<Rightarrow> peerKey \<Rightarrow> peerValue option"
begin

abbreviation good :: "bytes \<Rightarrow> bool" where
  "good p \<equiv> good4 E valid4 tvalid uvalid ivalid p \<or> good6 E valid6 tvalid uvalid ivalid p"

lemma wf_out:
  assumes "wf_table look t" "length src = length dst"
    and "look (tf_sessions t') = (look (tf_sessions t))(\<lparr>destinationAddress = dst, sourcePort = sp\<rparr> \<mapsto>
      (case look (tf_sessions t) \<lparr>destinationAddress = dst, sourcePort = sp\<rparr> of
         None \<Rightarrow> \<lparr>sourceAddress = src, destinationPort = dp\<rparr> | Some old \<Rightarrow> old))"
  shows "wf_table look t'"
  using assms by (auto simp: wf_table_def split: option.splits)

lemma tcp4_safe:
  assumes p: "segment (de_ip4 E) valid4 tvalid w p" and t: "wf_table look t"
  shows "\<exists>q t'. processIPv4 (de_lru E) (de_ip4 E) (de_tcp E) (de_csum E) t p w = Some (q, t') \<and> wf_table look t'"
proof -
  have v: "valid4 p" "tvalid (view w p)" using p by (simp_all add: segment_def)
  obtain src dst sp dp where f: "length src = 4" "length dst = 4" "flow (de_ip4 E) (de_tcp E) w p src sp dst dp"
    using tcp4.source_total [OF v(1)] tcp4.destination_total [OF v(1)] tcp4.ports_total [OF v(2)] by (auto simp: flow_def)
  let ?k = "\<lparr>destinationAddress = dst, sourcePort = dp\<rparr>"
  consider "sp \<noteq> tf_port t" | "sp = tf_port t" "look (tf_sessions t) ?k = None"
    | v0 where "sp = tf_port t" "look (tf_sessions t) ?k = Some v0" by fastforce
  then show ?thesis
  proof cases
    case 1
    then show ?thesis
      using tcp4.out4 [OF p f(3) 1] wf_out [OF t, of src dst] f(1,2) by (auto simp: vlanClient4_def)
  next
    case 2
    then show ?thesis
      using tcp4.unknown4 [OF p f(3) [unfolded 2(1)] 2(2)] t by (auto simp: wf_table_def)
  next
    case 3
    then have "length (sourceAddress v0) = 4" using t f(2) by (auto simp: wf_table_def)
    then show ?thesis
      using tcp4.in4 [OF p f(3) [unfolded 3(1)] 3(2)] t by (auto simp: wf_table_def)
  qed
qed

lemma tcp6_safe:
  assumes p: "segment (de_ip6 E) valid6 tvalid w p" and t: "wf_table look t"
  shows "\<exists>q t'. processIPv6 (de_lru E) (de_ip6 E) (de_tcp E) (de_csum E) t p w = Some (q, t') \<and> wf_table look t'"
proof -
  have v: "valid6 p" "tvalid (view w p)" using p by (simp_all add: segment_def)
  obtain src dst sp dp where f: "length src = 16" "length dst = 16" "flow (de_ip6 E) (de_tcp E) w p src sp dst dp"
    using tcp6.source_total [OF v(1)] tcp6.destination_total [OF v(1)] tcp4.ports_total [OF v(2)] by (auto simp: flow_def)
  let ?k = "\<lparr>destinationAddress = dst, sourcePort = dp\<rparr>"
  consider "sp \<noteq> tf_port t" | "sp = tf_port t" "look (tf_sessions t) ?k = None"
    | v0 where "sp = tf_port t" "look (tf_sessions t) ?k = Some v0" by fastforce
  then show ?thesis
  proof cases
    case 1
    then show ?thesis
      using tcp6.out6 [OF p f(3) 1] wf_out [OF t, of src dst] f(1,2) by (auto simp: vlanClient6_def)
  next
    case 2
    then show ?thesis
      using tcp6.unknown6 [OF p f(3) [unfolded 2(1)] 2(2)] t by (auto simp: wf_table_def)
  next
    case 3
    then have "length (sourceAddress v0) = 16" using t f(2) by (auto simp: wf_table_def)
    then show ?thesis
      using tcp6.in6 [OF p f(3) [unfolded 3(1)] 3(2)] t by (auto simp: wf_table_def)
  qed
qed

lemma udp4_safe:
  assumes p: "segment (de_ip4 E) valid4 uvalid w p"
  shows "\<exists>F. processIPv4UDP (de_ip4 E) (de_udp E) p w = Some F"
proof -
  have v: "valid4 p" "uvalid (view w p)" using p by (simp_all add: segment_def)
  obtain src dst sp dp n where "ip_source (de_ip4 E) p = Some src" "ip_destination (de_ip4 E) p = Some dst"
    "udp_source_port (de_udp E) (view w p) = Some sp" "udp_destination_port (de_udp E) (view w p) = Some dp"
    using tcp4.source_total [OF v(1)] tcp4.destination_total [OF v(1)] udp4.udp_total [OF v(2)] by blast
  from udp4.conversation4 [OF p this] show ?thesis by blast
qed

lemma udp6_safe:
  assumes p: "segment (de_ip6 E) valid6 uvalid w p"
  shows "\<exists>F. processIPv6UDP (de_ip6 E) (de_udp E) p w = Some F"
proof -
  have v: "valid6 p" "uvalid (view w p)" using p by (simp_all add: segment_def)
  obtain src dst sp dp n where "ip_source (de_ip6 E) p = Some src" "ip_destination (de_ip6 E) p = Some dst"
    "udp_source_port (de_udp E) (view w p) = Some sp" "udp_destination_port (de_udp E) (view w p) = Some dp"
    using tcp6.source_total [OF v(1)] tcp6.destination_total [OF v(1)] udp4.udp_total [OF v(2)] by blast
  from udp6.conversation6 [OF p this] show ?thesis by blast
qed

lemma icmp4_safe:
  assumes p: "segment (de_ip4 E) valid4 ivalid w p"
  shows "\<exists>r. processICMPv4 (de_ip4 E) (de_icmp E) accepts p w = Some r"
proof -
  have v: "valid4 p" "ivalid (view w p)" using p by (simp_all add: segment_def)
  obtain t c where tc: "icmp_type (de_icmp E) (view w p) = Some t" "icmp_code (de_icmp E) (view w p) = Some c"
    using icmp4.icmp_total [OF v(2)] by blast
  obtain src dst where f: "ip_source (de_ip4 E) p = Some src" "ip_destination (de_ip4 E) p = Some dst"
    using tcp4.source_total [OF v(1)] tcp4.destination_total [OF v(1)] by blast
  show ?thesis
  proof (cases "t = ICMPv4Echo \<and> c = 0")
    case True
    then show ?thesis using icmp4.request4 [OF p _ _ f, of accepts] tc by blast
  next
    case False
    then show ?thesis using tc by (auto simp: processICMPv4_def)
  qed
qed

lemma icmp6_safe:
  assumes p: "segment (de_ip6 E) valid6 ivalid w p"
  shows "\<exists>r. processICMPv6 (de_ip6 E) (de_icmp E) accepts p w = Some r"
proof -
  have v: "valid6 p" "ivalid (view w p)" using p by (simp_all add: segment_def)
  obtain t c where tc: "icmp_type (de_icmp E) (view w p) = Some t" "icmp_code (de_icmp E) (view w p) = Some c"
    using icmp4.icmp_total [OF v(2)] by blast
  obtain src dst where f: "ip_source (de_ip6 E) p = Some src" "ip_destination (de_ip6 E) p = Some dst"
    using tcp6.source_total [OF v(1)] tcp6.destination_total [OF v(1)] by blast
  show ?thesis
  proof (cases "t = ICMPv6EchoRequest \<and> c = 0")
    case True
    then show ?thesis using icmp6.request6 [OF p _ _ f, of accepts] tc by blast
  next
    case False
    then show ?thesis using tc by (auto simp: processICMPv6_def)
  qed
qed

lemma deliver_safe:
  assumes p: "good p" and t: "wf_table look t"
  shows "\<exists>ev taken t'. deliverPacket E t p = Some (ev, taken, t') \<and> wf_table look t'"
proof (cases "good4 E valid4 tvalid uvalid ivalid p")
  case True
  then obtain proto w where f: "de_version E p = 4" "valid4 p" "ip4_protocol (de_ip4 E) p = Some proto" "ip_payload (de_ip4 E) p = Some w"
    and good: "if proto = TCPProtocolNumber then tvalid (view w p) else if proto = UDPProtocolNumber then uvalid (view w p)
           else proto = ICMPv4ProtocolNumber \<longrightarrow> ivalid (view w p)"
    by (auto simp: good4_def split: option.splits)
  note run = deliverPacket_def deliver4_def f protocol_numbers
  consider "proto = TCPProtocolNumber" | "proto = UDPProtocolNumber" | "proto = ICMPv4ProtocolNumber"
    | "proto \<noteq> TCPProtocolNumber" "proto \<noteq> UDPProtocolNumber" "proto \<noteq> ICMPv4ProtocolNumber" by blast
  then show ?thesis
  proof cases
    case 1
    with good f have "segment (de_ip4 E) valid4 tvalid w p" by (simp add: segment_def)
    from tcp4_safe [OF this t] show ?thesis using 1 by (auto simp: run)
  next
    case 2
    with good f have "segment (de_ip4 E) valid4 uvalid w p" by (simp add: segment_def protocol_numbers)
    from udp4_safe [OF this] show ?thesis using 2 t by (auto simp: run)
  next
    case 3
    with good f have "segment (de_ip4 E) valid4 ivalid w p" by (simp add: segment_def protocol_numbers)
    from icmp4_safe [OF this, of "de_accepts E"] show ?thesis using 3 t by (auto simp: run)
  next
    case 4
    then show ?thesis using t by (auto simp: deliverPacket_def deliver4_def f)
  qed
next
  case False
  with p have g: "good6 E valid6 tvalid uvalid ivalid p" by simp
  then have f: "de_version E p = 6" "valid6 p" by (simp_all add: good6_def)
  obtain w where w: "ip_payload (de_ip6 E) p = Some w"
    using tcp6.payload_total [OF f(2)] by blast
  note run = deliverPacket_def deliver6_def f w
  show ?thesis
  proof (cases "de_parse6 E p")
    case None
    then show ?thesis using t by (auto simp: run)
  next
    case (Some proto)
    with g w have good: "if proto = TCPProtocolNumber then tvalid (view w p) else if proto = UDPProtocolNumber then uvalid (view w p)
           else proto = ICMPv6ProtocolNumber \<longrightarrow> ivalid (view w p)"
      by (simp add: good6_def)
    consider "proto = TCPProtocolNumber" | "proto = UDPProtocolNumber" | "proto = ICMPv6ProtocolNumber"
      | "proto \<noteq> TCPProtocolNumber" "proto \<noteq> UDPProtocolNumber" "proto \<noteq> ICMPv6ProtocolNumber" by blast
    then show ?thesis
    proof cases
      case 1
      with good f w have "segment (de_ip6 E) valid6 tvalid w p" by (simp add: segment_def)
      from tcp6_safe [OF this t] show ?thesis using 1 Some by (auto simp: run)
    next
      case 2
      with good f w have "segment (de_ip6 E) valid6 uvalid w p" by (simp add: segment_def protocol_numbers)
      from udp6_safe [OF this] show ?thesis using 2 t Some by (auto simp: run protocol_numbers)
    next
      case 3
      with good f w have "segment (de_ip6 E) valid6 ivalid w p" by (simp add: segment_def protocol_numbers)
      from icmp6_safe [OF this, of "de_accepts E"] show ?thesis using 3 t Some by (auto simp: run protocol_numbers)
    next
      case 4
      then show ?thesis using t Some by (auto simp: run)
    qed
  qed
qed

lemma loop_safe:
  assumes "\<forall>x \<in> set xs. good x \<and> x \<noteq> [] \<and> length x \<le> cap \<and> length x \<le> bufSize" and "wf_table look t"
  shows "\<exists>tr held t'. device_loop E bufSize cap b t xs = Some (tr, held, t') \<and> wf_table look t' \<and> map (fst \<circ> snd) tr = xs"
  using assms
proof (induction xs arbitrary: cap b t)
  case (Cons x xs)
  have x: "take cap x = x" using Cons.prems(1) by simp
  obtain ev taken t1 where d: "deliverPacket E t x = Some (ev, taken, t1)" "wf_table look t1"
    using deliver_safe [OF _ Cons.prems(2), of x] Cons.prems(1) by auto
  have "\<exists>tr held t'. device_loop E bufSize (if taken then bufSize else cap) (if taken then Suc b else b) t1 xs = Some (tr, held, t') \<and>
      wf_table look t' \<and> map (fst \<circ> snd) tr = xs"
    using Cons.prems(1) by (intro Cons.IH d(2)) auto
  with d(1) x Cons.prems(1) show ?case
    by (cases taken) auto
qed simp

end

section \<open>The wire layouts\<close>

definition rfc_device :: "(ping_flow \<Rightarrow> bool) \<Rightarrow> timed_table device_env" where
  "rfc_device accepts = \<lparr>de_lru = timed_lru, de_ip4 = rfc791, de_ip6 = rfc8200_udp, de_tcp = rfc793, de_udp = rfc768,
     de_icmp = rfc792, de_csum = rfc1071,
     de_version = (\<lambda>p. if p = [] then - 1 else int (unat (drop_bit 4 (p ! 0)))),
     de_parse6 = (\<lambda>p. if length p < 40 then None else Some (p ! 6)), de_accepts = accepts\<rparr>"

lemma rfc_device_simps [simp]:
  "de_lru (rfc_device a) = timed_lru" "de_ip4 (rfc_device a) = rfc791" "de_ip6 (rfc_device a) = rfc8200_udp"
  "de_tcp (rfc_device a) = rfc793" "de_udp (rfc_device a) = rfc768" "de_icmp (rfc_device a) = rfc792"
  "de_csum (rfc_device a) = rfc1071" "de_accepts (rfc_device a) = a"
  "de_version (rfc_device a) p = (if p = [] then - 1 else int (unat (drop_bit 4 (p ! 0))))"
  "de_parse6 (rfc_device a) p = (if length p < 40 then None else Some (p ! 6))"
  by (simp_all add: rfc_device_def)

interpretation nat6_exact: nat_forwarder rfc8200_udp v6_exact 16 rfc793 tcp_valid rfc1071 timed_lru tt_look
  by unfold_locales

interpretation rfc_dev: device "rfc_device a" v4_valid v6_exact tcp_valid u8_valid i8_valid v4_tmpl v6_tmpl v4_head v6_head tt_look
  by (rule device.intro) (simp_all add: nat4.nat_forwarder4_axioms rfc_nat4.udp_nat4_axioms rfc_icmp4.icmp4_packets_axioms
      nat6_exact.nat_forwarder_axioms rfc_icmp6.icmp6_packets_axioms rfc_nat6.udp_nat6_axioms)

section \<open>Properties\<close>


lemma sample_good:
  "good4 (rfc_device a) v4_valid tcp_valid u8_valid i8_valid dns_query"
  "good4 (rfc_device a) v4_valid tcp_valid u8_valid i8_valid (ip4_sample app4 server4 out_seg)"
  "good4 (rfc_device a) v4_valid tcp_valid u8_valid i8_valid echo_request"
  "good6 (rfc_device a) v6_exact tcp_valid u8_valid i8_valid (ip6_sample app6 server6 out_seg)"
  by (simp_all add: good4_def good6_def sample_defs sample_eval dns_query_def echo_request_def u8_valid_def i8_valid_def
      v6_exact_def rfc8200_udp_def protocol_numbers index_go_def)

lemma dns_delivered: "\<exists>F. deliverPacket (rfc_device a) fresh_forwarder dns_query = Some ([ToUdp F], True, fresh_forwarder)"
proof -
  obtain F where "processIPv4UDP rfc791 rfc768 dns_query (20, 10) = Some F"
    using rfc_dev.udp4_safe [of a "(20, 10)" dns_query] dns_query_segment by auto
  then show ?thesis
    using dns_query_segment
    by (simp add: deliverPacket_def deliver4_def segment_def) (simp add: dns_query_def rfc791_def index_go_def protocol_numbers)
qed

lemma fresh_forwarder_wf: "wf_table tt_look fresh_forwarder"
  by (simp add: wf_table_def fresh_forwarder_ok)

lemma sample_lengths:
  "dns_query \<noteq> []" "length dns_query = 30" "echo_request \<noteq> []" "length echo_request = 28"
  "ip4_sample app4 server4 out_seg \<noteq> []" "length (ip4_sample app4 server4 out_seg) = 40"
  "ip6_sample app6 server6 out_seg \<noteq> []" "length (ip6_sample app6 server6 out_seg) = 60"
  by (simp_all add: dns_query_def echo_request_def sample_defs)


text \<open>
  C19.  The buffer that follows a handed-over one has the standard size, whatever the MTU.  On a
  device with a larger MTU, a UDP packet followed by a TCP packet longer than that size
  makes the loop panic: the TCP packet is cut, and its payload reaches beyond the buffer.
  The same TCP packet alone is delivered.
\<close>

theorem device_large_packet_crashes:
  assumes "deliverPacket (rfc_device a) t p = Some (ev, True, t1)" and "p \<noteq> []" and "length p \<le> mtu"
    and "good4 (rfc_device a) v4_valid tcp_valid u8_valid i8_valid x" and "x ! 9 = TCPProtocolNumber"
    and "v4_tl x = length x" and "20 \<le> bufSize" and "bufSize < length x" and "length x \<le> mtu" and "wf_table tt_look t"
  shows "dispatchLoop_device (rfc_device a) bufSize mtu t [p, x] = None \<and>
     dispatchLoop_device (rfc_device a) bufSize mtu t [x] \<noteq> None"
proof -
  let ?y = "take bufSize x"
  have y: "?y \<noteq> []" "?y ! 0 = x ! 0" "?y ! 9 = x ! 9" "9 < length ?y" "v4_tl ?y = v4_tl x" "length ?y = bufSize"
    using assms(7,8) by (auto simp: v4_tl_def)
  have x0: "int (unat (drop_bit 4 (x ! 0))) = 4" "x \<noteq> []"
    using assms(4) by (auto simp: good4_def split: if_splits)
  have "ip_payload rfc791 ?y = None"
    using y(5,6) assms(6,8) by (simp add: rfc791_def)
  moreover have "ip4_protocol rfc791 ?y = Some TCPProtocolNumber"
    using y(3,4) assms(5) by (simp add: rfc791_def index_go_def)
  ultimately have cut: "deliverPacket (rfc_device a) t1 ?y = None"
    using y(1,2) x0(1) by (simp add: deliverPacket_def deliver4_def)
  have "device_loop (rfc_device a) bufSize mtu 0 t [p, x] = None"
    using assms(1-3) x0(2) cut by simp
  moreover have "device_loop (rfc_device a) bufSize mtu 0 t [x] \<noteq> None"
  proof -
    obtain ev taken t2 where "deliverPacket (rfc_device a) t x = Some (ev, taken, t2)"
      using rfc_dev.deliver_safe [of a x t] assms(4,10) by blast
    then show ?thesis using assms(9) x0(2) by (cases taken) simp_all
  qed
  ultimately show ?thesis
    by (auto simp: dispatchLoop_device_def bind_eq_None_conv)
qed

theorem device_large_packet_crashes_witness:
  "dispatchLoop_device (rfc_device (\<lambda>_. False)) 32 64 fresh_forwarder [dns_query, ip4_sample app4 server4 out_seg] = None"
proof -
  obtain F where d: "deliverPacket (rfc_device (\<lambda>_. False)) fresh_forwarder dns_query = Some ([ToUdp F], True, fresh_forwarder)"
    using dns_delivered by blast
  have "ip4_sample app4 server4 out_seg ! 9 = TCPProtocolNumber" "v4_tl (ip4_sample app4 server4 out_seg) = 40"
    by (simp_all add: sample_defs sample_eval TCPProtocolNumber_def)
  then show ?thesis
    using device_large_packet_crashes [OF d sample_lengths(1) _ sample_good(2) _ _ _ _ _ fresh_forwarder_wf, of 64 32] sample_lengths
    by simp
qed

text \<open>The buffers of a run that hands one over.\<close>

theorem device_buffers_witness:
  "\<exists>d. dispatchLoop_device (rfc_device (\<lambda>_. False)) 2048 1500 fresh_forwarder [dns_query] = Some d \<and>
     dn_released d \<in> set (taken_buffers (dn_trace d)) \<and> dn_held d \<noteq> dn_released d"
proof -
  obtain F where d: "deliverPacket (rfc_device (\<lambda>_. False)) fresh_forwarder dns_query = Some ([ToUdp F], True, fresh_forwarder)"
    using dns_delivered by blast
  have "take 1500 dns_query = dns_query" by (simp add: sample_lengths)
  with d obtain r where r: "dispatchLoop_device (rfc_device (\<lambda>_. False)) 2048 1500 fresh_forwarder [dns_query] = Some r"
     "dn_trace r = [(0, dns_query, [ToUdp F])]"
    by (auto simp: dispatchLoop_device_def sample_lengths)
  from device_buffers [OF r(1)] r show ?thesis by simp
qed

end
