(* ===== verification/UdpNat.thy ===== *)
theory UdpNat
  imports UdpPath6 NatDeviceSafe GoStrings
begin

text \<open>
  All UDP clients of the device together.  The device loop reads packets of any protocol
  (\<open>NatDevice\<close>); each UDP packet reaches \<open>NewPacket\<close>, which sends it through the session of its
  source and makes the session when there is none.  Here a handler is done with its packet
  before the next one starts; what the handlers do to each other is the matter of \<open>TunLock\<close> and \<open>TunIsolation\<close>.
\<close>

section \<open>The table of sessions\<close>

text \<open>
  A session: its connection to the core, the flow of its first packet, whose headers every
  answer is built from, and whether that packet was for the DNS server of the tun.
\<close>

record nat_session =
  ns_conn :: dispatcher_conn
  ns_first :: udp_flow
  ns_dns :: bool

definition target_of :: "(bytes \<Rightarrow> string) \<Rightarrow> bytes \<times> u16 \<Rightarrow> destination" where
  "target_of text_of d = ip_target (if length (fst d) = 4 then FamilyIPv4 else FamilyIPv6) text_of d"

text \<open>\<open>NewPacket\<close> up to its loop, with a dial and a write that succeed; \<open>key\<close> is \<open>NetAddr\<close>.\<close>

definition NewPacket_in :: "(bytes \<times> u16 \<Rightarrow> string) \<Rightarrow> (bytes \<Rightarrow> string) \<Rightarrow> string \<Rightarrow> udp_flow \<Rightarrow> (string \<rightharpoonup> nat_session) \<Rightarrow> (string \<rightharpoonup> nat_session) go" where
  "NewPacket_in key text_of router F tbl =
     (let dest = target_of text_of (uf_destination F);
          S = (case tbl (key (uf_source F)) of
                 Some S \<Rightarrow> S
               | None \<Rightarrow> \<lparr>ns_conn = new_conn dest, ns_first = F, ns_dns = (addr_string (dst_address dest) = router)\<rparr>)
      in do {
        (good, c) \<leftarrow> conn_writeTo True (uf_payload F) dest (ns_conn S);
        Some (tbl(key (uf_source F) \<mapsto> S\<lparr>ns_conn := c\<rparr>))
      })"

fun udp_sessions :: "(bytes \<times> u16 \<Rightarrow> string) \<Rightarrow> (bytes \<Rightarrow> string) \<Rightarrow> string \<Rightarrow> udp_flow list \<Rightarrow> (string \<rightharpoonup> nat_session) \<Rightarrow> (string \<rightharpoonup> nat_session) go" where
  "udp_sessions key text_of router [] tbl = Some tbl"
| "udp_sessions key text_of router (F # Fs) tbl = do {
     tbl \<leftarrow> NewPacket_in key text_of router F tbl;
     udp_sessions key text_of router Fs tbl
   }"

text \<open>What becomes of a client's session when the flows \<open>G\<close> of this client arrive.\<close>

definition sent_buffer :: "(bytes \<Rightarrow> string) \<Rightarrow> udp_flow \<Rightarrow> buffer" where
  "sent_buffer text_of F = \<lparr>bf_bytes = uf_payload F, bf_endpoint = Some (target_of text_of (uf_destination F))\<rparr>"

definition carry :: "(bytes \<Rightarrow> string) \<Rightarrow> udp_flow list \<Rightarrow> nat_session \<Rightarrow> nat_session" where
  "carry text_of G S = S\<lparr>ns_conn := (ns_conn S)\<lparr>written := dispatcher_conn.written (ns_conn S) @ map (sent_buffer text_of) G,
     timer_updates := timer_updates (ns_conn S) + length G\<rparr>\<rparr>"

definition session_after :: "(bytes \<Rightarrow> string) \<Rightarrow> string \<Rightarrow> udp_flow list \<Rightarrow> nat_session option \<Rightarrow> nat_session option" where
  "session_after text_of router G old = (case (old, G) of
     (None, []) \<Rightarrow> None
   | (None, F # _) \<Rightarrow> Some (carry text_of G \<lparr>ns_conn = new_conn (target_of text_of (uf_destination F)), ns_first = F,
       ns_dns = (addr_string (dst_address (target_of text_of (uf_destination F))) = router)\<rparr>)
   | (Some S, _) \<Rightarrow> Some (carry text_of G S))"

lemma carry_simps [simp]: "carry text_of [] S = S" "carry text_of Fs (carry text_of [F] S) = carry text_of (F # Fs) S"
  by (simp_all add: carry_def)

lemma session_after_Nil [simp]: "session_after text_of router [] old = old"
  by (cases old) (simp_all add: session_after_def)

lemma session_after_Cons: "session_after text_of router Fs (session_after text_of router [F] old) = session_after text_of router (F # Fs) old"
  by (cases old) (simp_all add: session_after_def)

lemma NewPacket_in_result:
  "NewPacket_in key text_of router F tbl = Some (tbl(key (uf_source F) := session_after text_of router [F] (tbl (key (uf_source F)))))"
  by (auto simp: NewPacket_in_def conn_writeTo_def session_after_def carry_def sent_buffer_def Let_def split: option.split)

text \<open>The table keeps the clients apart.\<close>

lemma udp_sessions_result:
  assumes "inj key"
  shows "\<exists>tbl'. udp_sessions key text_of router Fs tbl = Some tbl' \<and>
     (\<forall>client. tbl' (key client) = session_after text_of router (filter (\<lambda>F. uf_source F = client) Fs) (tbl (key client)))"
proof (induction Fs arbitrary: tbl)
  case (Cons F Fs)
  let ?tbl = "tbl(key (uf_source F) := session_after text_of router [F] (tbl (key (uf_source F))))"
  obtain tbl' where "udp_sessions key text_of router Fs ?tbl = Some tbl'"
    "\<forall>client. tbl' (key client) = session_after text_of router (filter (\<lambda>F. uf_source F = client) Fs) (?tbl (key client))"
    using Cons.IH by blast
  then show ?case
    using injD [OF assms] by (auto simp: NewPacket_in_result session_after_Cons)
qed simp

section \<open>The datagrams of the device\<close>

record datagram =
  dg_source :: "bytes \<times> u16"
  dg_destination :: "bytes \<times> u16"
  dg_payload :: bytes

definition datagram_at :: "'m ip_ops_scheme \<Rightarrow> 'u udp_ops_scheme \<Rightarrow> bytes \<Rightarrow> datagram option" where
  "datagram_at H U x = do {
     w \<leftarrow> ip_payload H x;
     src \<leftarrow> ip_source H x;
     dst \<leftarrow> ip_destination H x;
     sp \<leftarrow> udp_source_port U (view w x);
     dp \<leftarrow> udp_destination_port U (view w x);
     Some \<lparr>dg_source = (src, sp), dg_destination = (dst, dp), dg_payload = drop UDPMinimumSize (view w x)\<rparr>
   }"

definition datagram_of :: "'s device_env \<Rightarrow> bytes \<Rightarrow> datagram option" where
  "datagram_of E x =
     (if de_version E x = 4
      then if ip4_protocol (de_ip4 E) x = Some UDPProtocolNumber then datagram_at (de_ip4 E) (de_udp E) x else None
      else if de_parse6 E x = Some UDPProtocolNumber then datagram_at (de_ip6 E) (de_udp E) x else None)"

fun flows_in :: "device_event list \<Rightarrow> udp_flow list" where
  "flows_in [] = []"
| "flows_in (ToUdp F # ev) = F # flows_in ev"
| "flows_in (_ # ev) = flows_in ev"

definition udp_flows :: "trace \<Rightarrow> udp_flow list" where
  "udp_flows tr = concat (map (\<lambda>(b, p, ev). flows_in ev) tr)"

lemma flows_in_others [simp]: "flows_in (NatDevice.written q) = []" "flows_in (fst (icmp_outcome r)) = []"
  by (cases q; simp) (cases r; simp)

text \<open>The function a flow's answers go through, and what it is to make of them.\<close>

definition udp_writer :: "'s device_env \<Rightarrow> udp_flow \<Rightarrow> bytes writer" where
  "udp_writer E F = (if length (fst (uf_source F)) = 4 then write_back4 (de_ip4 E) (de_udp E) (de_csum E) F
     else write_back6 (de_ip6 E) (de_udp E) (de_csum E) F)"

definition udp_answered :: "'s device_env \<Rightarrow> bytes \<times> u16 \<Rightarrow> bytes \<times> u16 \<Rightarrow> bytes \<Rightarrow> bytes \<Rightarrow> bool" where
  "udp_answered E peer client payload r =
     (if length (fst client) = 4 then udp4_answer (de_ip4 E) (de_udp E) (de_csum E) peer client payload r
      else udp6_answer (de_ip6 E) (de_udp E) (de_csum E) peer client payload r)"

definition answerable :: "nat \<Rightarrow> buffer \<Rightarrow> bool" where
  "answerable n b = (if n = 4 then ipv4_buffer b else ipv6_buffer b)"

definition peer_of :: "nat \<Rightarrow> bool \<Rightarrow> bytes \<times> u16 \<Rightarrow> buffer \<Rightarrow> bytes \<times> u16" where
  "peer_of n isDns server b = (if n = 4 then answer_peer isDns server b else answer_peer6 isDns server b)"

definition handed_on :: "'s device_env \<Rightarrow> datagram \<Rightarrow> udp_flow \<Rightarrow> bool" where
  "handed_on E D F \<longleftrightarrow> uf_source F = dg_source D \<and> uf_destination F = dg_destination D \<and>
     take (length (dg_payload D)) (uf_payload F) = dg_payload D \<and>
     length (fst (dg_destination D)) = length (fst (dg_source D)) \<and> length (fst (dg_source D)) \<in> {4, 16} \<and>
     (\<forall>addr payload. length (fst (reply_source addr (fst (dg_destination D)) (snd (dg_destination D)))) = length (fst (dg_source D)) \<longrightarrow>
        (\<exists>r. udp_writer E F payload addr = Some ([r], False) \<and>
          udp_answered E (reply_source addr (fst (dg_destination D)) (snd (dg_destination D))) (dg_source D) payload r))"


context device begin

lemma handed_on4:
  assumes x: "segment (de_ip4 E) valid4 uvalid w x" and D: "datagram_at (de_ip4 E) (de_udp E) x = Some D"
  shows "\<exists>F. processIPv4UDP (de_ip4 E) (de_udp E) x w = Some F \<and> handed_on E D F"
proof -
  obtain src dst sp dp where f: "ip_source (de_ip4 E) x = Some src" "ip_destination (de_ip4 E) x = Some dst"
      "udp_source_port (de_udp E) (view w x) = Some sp" "udp_destination_port (de_udp E) (view w x) = Some dp"
    and D: "D = \<lparr>dg_source = (src, sp), dg_destination = (dst, dp), dg_payload = drop UDPMinimumSize (view w x)\<rparr>"
    using D x by (auto simp: datagram_at_def segment_def bind_eq_Some_conv)
  have len: "length src = 4" "length dst = 4"
    using tcp4.source_total [of x] tcp4.destination_total [of x] x f(1,2) by (auto simp: segment_def)
  have view: "length (view w x) = snd w"
    using udp4.full.segment_window [OF x] by (simp add: length_view)
  obtain F where F: "processIPv4UDP (de_ip4 E) (de_udp E) x w = Some F" "uf_source F = (src, sp)" "uf_destination F = (dst, dp)"
     "take (snd w - UDPMinimumSize) (uf_payload F) = drop UDPMinimumSize (view w x)"
     and reply: "\<forall>peer payload. length (fst peer) = 4 \<longrightarrow> (\<exists>r. udp4_reply (de_ip4 E) (de_udp E) (de_csum E) (uf_template F) src peer payload = Some r \<and>
        udp4_answer (de_ip4 E) (de_udp E) (de_csum E) peer (src, sp) payload r)"
    using udp4.conversation4 [OF x f] by blast
  have "\<exists>r. udp_writer E F payload addr = Some ([r], False) \<and> udp_answered E (reply_source addr dst dp) (src, sp) payload r"
    if "length (fst (reply_source addr dst dp)) = length src" for addr payload
    using reply [rule_format, of "reply_source addr dst dp" payload] that len F(2,3)
    by (auto simp: udp_writer_def udp_answered_def write_back4_def)
  then have "handed_on E D F"
    using len F(2-4) view by (simp add: handed_on_def D)
  with F(1) show ?thesis by blast
qed

lemma handed_on6:
  assumes x: "segment (de_ip6 E) valid6 uvalid w x" and D: "datagram_at (de_ip6 E) (de_udp E) x = Some D"
  shows "\<exists>F. processIPv6UDP (de_ip6 E) (de_udp E) x w = Some F \<and> handed_on E D F"
proof -
  obtain src dst sp dp where f: "ip_source (de_ip6 E) x = Some src" "ip_destination (de_ip6 E) x = Some dst"
      "udp_source_port (de_udp E) (view w x) = Some sp" "udp_destination_port (de_udp E) (view w x) = Some dp"
    and D: "D = \<lparr>dg_source = (src, sp), dg_destination = (dst, dp), dg_payload = drop UDPMinimumSize (view w x)\<rparr>"
    using D x by (auto simp: datagram_at_def segment_def bind_eq_Some_conv)
  have len: "length src = 16" "length dst = 16"
    using tcp6.source_total [of x] tcp6.destination_total [of x] x f(1,2) by (auto simp: segment_def)
  obtain F where F: "processIPv6UDP (de_ip6 E) (de_udp E) x w = Some F" "uf_source F = (src, sp)" "uf_destination F = (dst, dp)"
     "uf_payload F = drop UDPMinimumSize (view w x)"
     and reply: "\<forall>peer payload. length (fst peer) = 16 \<longrightarrow> (\<exists>r. udp6_reply (de_ip6 E) (de_udp E) (de_csum E) (uf_template F) src peer payload = Some r \<and>
        udp6_answer (de_ip6 E) (de_udp E) (de_csum E) peer (src, sp) payload r)"
    using udp6.conversation6 [OF x f] by blast
  have "\<exists>r. udp_writer E F payload addr = Some ([r], False) \<and> udp_answered E (reply_source addr dst dp) (src, sp) payload r"
    if "length (fst (reply_source addr dst dp)) = length src" for addr payload
    using reply [rule_format, of "reply_source addr dst dp" payload] that len F(2,3)
    by (auto simp: udp_writer_def udp_answered_def write_back6_def)
  then have "handed_on E D F"
    using len F(2-4) by (simp add: handed_on_def D)
  with F(1) show ?thesis by blast
qed

text \<open>Every other packet hands no flow on.\<close>

lemma delivered_flow:
  assumes x: "good x" and d: "deliverPacket E t x = Some (ev, taken, t')"
  shows "list_all2 (handed_on E) (case datagram_of E x of None \<Rightarrow> [] | Some D \<Rightarrow> [D]) (flows_in ev)"
proof (cases "good4 E valid4 tvalid uvalid ivalid x")
  case True
  then obtain proto w where f: "de_version E x = 4" "valid4 x" "ip4_protocol (de_ip4 E) x = Some proto" "ip_payload (de_ip4 E) x = Some w"
    and good: "if proto = TCPProtocolNumber then tvalid (view w x) else if proto = UDPProtocolNumber then uvalid (view w x)
           else proto = ICMPv4ProtocolNumber \<longrightarrow> ivalid (view w x)"
    by (auto simp: good4_def split: option.splits)
  show ?thesis
  proof (cases "proto = UDPProtocolNumber")
    case True
    with good f have seg: "segment (de_ip4 E) valid4 uvalid w x" by (simp add: segment_def protocol_numbers)
    obtain n where "udp_source_port (de_udp E) (view w x) \<noteq> None" "udp_destination_port (de_udp E) (view w x) \<noteq> None"
      using udp4.udp_total [of "view w x"] seg by (auto simp: segment_def)
    then obtain D where D: "datagram_at (de_ip4 E) (de_udp E) x = Some D"
      using f tcp4.source_total [OF f(2)] tcp4.destination_total [OF f(2)] by (auto simp: datagram_at_def)
    from handed_on4 [OF seg D] show ?thesis
      using True f D d by (auto simp: datagram_of_def deliverPacket_def deliver4_def protocol_numbers)
  next
    case False
    then show ?thesis
      using f d by (auto simp: datagram_of_def deliverPacket_def deliver4_def bind_eq_Some_conv split: if_splits)
  qed
next
  case False
  with x have g: "good6 E valid6 tvalid uvalid ivalid x" by simp
  then have f: "de_version E x = 6" "valid6 x" by (simp_all add: good6_def)
  obtain w where w: "ip_payload (de_ip6 E) x = Some w"
    using tcp6.payload_total [OF f(2)] by blast
  show ?thesis
  proof (cases "de_parse6 E x = Some UDPProtocolNumber")
    case True
    with g w f have seg: "segment (de_ip6 E) valid6 uvalid w x" by (simp add: segment_def protocol_numbers good6_def)
    have "udp_source_port (de_udp E) (view w x) \<noteq> None" "udp_destination_port (de_udp E) (view w x) \<noteq> None"
      using udp4.udp_total [of "view w x"] seg by (auto simp: segment_def)
    then obtain D where D: "datagram_at (de_ip6 E) (de_udp E) x = Some D"
      using w tcp6.source_total [OF f(2)] tcp6.destination_total [OF f(2)] by (auto simp: datagram_at_def)
    from handed_on6 [OF seg D] show ?thesis
      using True f w D d by (auto simp: datagram_of_def deliverPacket_def deliver6_def protocol_numbers)
  next
    case False
    then show ?thesis
      using f d by (auto simp: datagram_of_def deliverPacket_def deliver6_def bind_eq_Some_conv split: if_splits option.splits)
  qed
qed

lemma loop_flows:
  assumes "\<forall>x \<in> set xs. good x \<and> x \<noteq> [] \<and> length x \<le> cap \<and> length x \<le> bufSize" and "wf_table look t"
  shows "\<exists>tr held t'. device_loop E bufSize cap b t xs = Some (tr, held, t') \<and>
     list_all2 (handed_on E) (List.map_filter (datagram_of E) xs) (udp_flows tr)"
  using assms
proof (induction xs arbitrary: cap b t)
  case (Cons x xs)
  have x: "take cap x = x" "x \<noteq> []" using Cons.prems(1) by simp_all
  obtain ev taken t1 where d: "deliverPacket E t x = Some (ev, taken, t1)" "wf_table look t1"
    using deliver_safe [OF _ Cons.prems(2), of x] Cons.prems(1) by auto
  have flow: "list_all2 (handed_on E) (case datagram_of E x of None \<Rightarrow> [] | Some D \<Rightarrow> [D]) (flows_in ev)"
    using delivered_flow [OF _ d(1)] Cons.prems(1) by simp
  have fits: "\<forall>x \<in> set xs. good x \<and> x \<noteq> [] \<and> length x \<le> (if taken then bufSize else cap) \<and> length x \<le> bufSize"
    using Cons.prems(1) by simp
  obtain tr held t' where rest: "device_loop E bufSize (if taken then bufSize else cap) (if taken then Suc b else b) t1 xs = Some (tr, held, t')"
    "list_all2 (handed_on E) (List.map_filter (datagram_of E) xs) (udp_flows tr)"
    using Cons.IH [OF _ d(2), of "if taken then bufSize else cap" "if taken then Suc b else b"] fits by blast
  have "device_loop E bufSize cap b t (x # xs) = Some ((b, x, ev) # tr, held, t')"
    using d(1) x rest(1) by (cases taken) simp_all
  moreover have "List.map_filter (datagram_of E) (x # xs) = (case datagram_of E x of None \<Rightarrow> [] | Some D \<Rightarrow> [D]) @ List.map_filter (datagram_of E) xs"
    by (simp add: map_filter_simps split: option.split)
  moreover have "udp_flows ((b, x, ev) # tr) = flows_in ev @ udp_flows tr"
    by (simp add: udp_flows_def)
  ultimately show ?case
    using list_all2_appendI [OF flow rest(2)] by auto
qed (simp add: udp_flows_def map_filter_simps)

end


section \<open>Serving a client\<close>

text \<open>
  The core has a client's datagrams, in order, each for its own destination; up to sixteen
  answers go back to the client in order, each from its own peer.
\<close>

definition carries :: "(bytes \<Rightarrow> string) \<Rightarrow> datagram \<Rightarrow> buffer \<Rightarrow> bool" where
  "carries text_of D b \<longleftrightarrow> bf_endpoint b = Some (target_of text_of (dg_destination D)) \<and>
     take (length (dg_payload D)) (bf_bytes b) = dg_payload D"

definition answers_reach :: "'s device_env \<Rightarrow> bool \<Rightarrow> bytes \<times> u16 \<Rightarrow> bytes \<times> u16 \<Rightarrow> nat_session \<Rightarrow> bool" where
  "answers_reach E isDns server client S \<longleftrightarrow>
     (\<forall>answers picks. length answers \<le> 16 \<longrightarrow> (\<forall>b \<in> set answers. answerable (length (fst client)) (snd b)) \<longrightarrow>
        (\<exists>rs. answer_session (udp_writer E (ns_first S)) (ns_dns S) picks answers (ns_conn S) = Some (rs, Stuck) \<and>
           list_all2 (\<lambda>b r. udp_answered E (peer_of (length (fst client)) isDns server (snd b)) client (bf_bytes (snd b)) r) answers rs))"

definition client_served :: "'s device_env \<Rightarrow> (bytes \<Rightarrow> string) \<Rightarrow> string \<Rightarrow> bytes \<times> u16 \<Rightarrow> datagram list \<Rightarrow> nat_session option \<Rightarrow> bool" where
  "client_served E text_of router client Ds S \<longleftrightarrow>
     (case (Ds, S) of
        ([], None) \<Rightarrow> True
      | (D # _, Some S) \<Rightarrow> list_all2 (carries text_of) Ds (dispatcher_conn.written (ns_conn S)) \<and>
          answers_reach E (text_of (fst (dg_destination D)) = router) (dg_destination D) client S
      | _ \<Rightarrow> False)"

lemma peer_reached:
  assumes "answerable n b" "length (fst server) = n" "n \<in> {4, 16}"
  shows "fst (udp_source (queued (target_of text_of server) b)) \<noteq> None \<and> bf_bytes b \<noteq> [] \<and>
     reply_source (relay_addr isDns (queued (target_of text_of server) b)) (fst server) (snd server) = peer_of n isDns server b \<and>
     length (fst (reply_source (relay_addr isDns (queued (target_of text_of server) b)) (fst server) (snd server))) = n"
proof (cases "n = 4")
  case True
  then have b: "ipv4_buffer b" and t: "target_of text_of server = ipv4_destination text_of server"
    using assms by (simp_all add: answerable_def target_of_def)
  obtain ip where ip: "fst (udp_source (queued (ipv4_destination text_of server) b)) = Some ip" "length ip = 4"
    "reply_source (relay_addr isDns (queued (ipv4_destination text_of server) b)) (fst server) (snd server) = answer_peer isDns server b"
    using answer_source [OF b, of "new_conn (ipv4_destination text_of server)" text_of server isDns] assms(2) True by (auto simp: new_conn_def)
  have "length (fst (reply_source (relay_addr isDns (queued (ipv4_destination text_of server) b)) (fst server) (snd server))) = 4"
    using ip(1,2) assms(2) True by (simp add: relay_addr_def reply_source_def)
  then show ?thesis
    using ip b True by (simp add: t peer_of_def ipv4_buffer_def)
next
  case False
  then have b: "ipv6_buffer b" and t: "target_of text_of server = ip_target FamilyIPv6 text_of server" and n: "n = 16"
    using assms by (simp_all add: answerable_def target_of_def)
  obtain ip where ip: "fst (udp_source (queued (ip_target FamilyIPv6 text_of server) b)) = Some ip" "length ip = 16"
    "reply_source (relay_addr isDns (queued (ip_target FamilyIPv6 text_of server) b)) (fst server) (snd server) = answer_peer6 isDns server b"
    using answer_source6 [OF b, of server text_of isDns] assms(2) n by auto
  have "length (fst (reply_source (relay_addr isDns (queued (ip_target FamilyIPv6 text_of server) b)) (fst server) (snd server))) = 16"
    using ip(1,2) assms(2) n by (simp add: relay_addr_def reply_source_def)
  then show ?thesis
    using ip b n by (simp add: t peer_of_def ipv6_buffer_def)
qed

lemma session_answers:
  assumes F: "handed_on E D F" and S: "ns_first S = F" "ns_dns S = isDns" "idle_conn (target_of text_of (dg_destination D)) (ns_conn S)"
  shows "answers_reach E isDns (dg_destination D) (dg_source D) S"
  unfolding answers_reach_def
proof (intro allI impI)
  fix answers :: "(bool \<times> buffer) list" and picks
  assume answers: "length answers \<le> 16" "\<forall>b \<in> set answers. answerable (length (fst (dg_source D))) (snd b)"
  let ?dest = "target_of text_of (dg_destination D)" and ?n = "length (fst (dg_source D))"
  have sent: "bf_bytes (snd b) \<noteq> [] \<and> fst (udp_source (queued ?dest (snd b))) \<noteq> None \<and>
      (\<exists>r. udp_writer E F (bf_bytes (snd b)) (relay_addr isDns (queued ?dest (snd b))) = Some ([r], False) \<and>
        udp_answered E (peer_of ?n isDns (dg_destination D) (snd b)) (dg_source D) (bf_bytes (snd b)) r)" if "b \<in> set answers" for b
  proof -
    have "answerable ?n (snd b)" using answers(2) that by blast
    from peer_reached [OF this, of "dg_destination D" text_of isDns] F show ?thesis
      by (auto simp: handed_on_def)
  qed
  have "\<exists>rs. answer_session (udp_writer E F) isDns picks answers (ns_conn S) = Some (rs, if \<exists>b \<in> set answers. False then Left else Stuck) \<and>
     list_all2 (\<lambda>b r. udp_answered E (peer_of ?n isDns (dg_destination D) (snd b)) (dg_source D) (bf_bytes (snd b)) r)
       (until_failure (\<lambda>_. False) answers) rs"
    by (rule answer_session_writes [OF S(3) answers(1) sent])
  then show "\<exists>rs. answer_session (udp_writer E (ns_first S)) (ns_dns S) picks answers (ns_conn S) = Some (rs, Stuck) \<and>
     list_all2 (\<lambda>b r. udp_answered E (peer_of ?n isDns (dg_destination D) (snd b)) (dg_source D) (bf_bytes (snd b)) r) answers rs"
    by (simp add: until_failure_none S)
qed

lemma sent_carries: "handed_on E D F \<Longrightarrow> carries text_of D (sent_buffer text_of F)"
  by (simp add: handed_on_def carries_def sent_buffer_def)

lemma session_served:
  assumes "list_all2 (handed_on E) Ds Fs" and "\<forall>D \<in> set Ds. dg_source D = client"
  shows "client_served E text_of router client Ds (session_after text_of router Fs None)"
proof (cases Ds)
  case Nil
  then show ?thesis using assms(1) by (simp add: client_served_def)
next
  case (Cons D Ds')
  then obtain F Fs' where F: "Fs = F # Fs'" "handed_on E D F"
    using assms(1) by (auto simp: list_all2_Cons1)
  obtain S where S: "session_after text_of router Fs None = Some S"
    "dispatcher_conn.written (ns_conn S) = map (sent_buffer text_of) Fs" "ns_first S = F"
    "ns_dns S = (text_of (fst (dg_destination D)) = router)" "idle_conn (target_of text_of (dg_destination D)) (ns_conn S)"
    using F by (simp add: session_after_def carry_def new_conn_def idle_conn_def handed_on_def target_of_def ip_target_def)
  have "list_all2 (carries text_of) Ds (map (sent_buffer text_of) Fs)"
    using assms(1) by (auto simp: list_all2_map2 intro: sent_carries elim!: list_all2_mono)
  moreover have "answers_reach E (text_of (fst (dg_destination D)) = router) (dg_destination D) client S"
    using session_answers [OF F(2) S(3-5)] assms(2) Cons by simp
  ultimately show ?thesis
    using S(1,2) Cons by (simp add: client_served_def)
qed

lemma list_all2_filter:
  "list_all2 R xs ys \<Longrightarrow> (\<And>x y. R x y \<Longrightarrow> P x = Q y) \<Longrightarrow> list_all2 R (filter P xs) (filter Q ys)"
  by (induction rule: list_all2_induct) auto

section \<open>Property\<close>



text \<open>A query, a TCP packet, a datagram of the same client for somebody else, a ping and an IPv6 query.\<close>

definition other_query :: bytes where
  "other_query = [0x45, 0, 0, 30, 0, 0, 0, 0, 64, 17, 0, 0, 172, 19, 0, 1, 1, 1, 1, 1,
     0xC0, 0, 0, 9, 0, 10, 0, 0, 3, 4]"

definition hex_key :: "bytes \<times> u16 \<Rightarrow> string" where
  "hex_key d = hex_encode (put_be16 (snd d) @ fst d)"

lemma inj_hex_key: "inj hex_key"
proof (rule injI)
  fix d e assume "hex_key d = hex_key e"
  then have "put_be16 (snd d) @ fst d = put_be16 (snd e) @ fst e"
    unfolding hex_key_def by (rule hex_encode_inj)
  then have "put_be16 (snd d) = put_be16 (snd e)" "fst d = fst e" by simp_all
  then show "d = e" using put_be16_inj by (simp add: prod_eq_iff)
qed

abbreviation sample_trace :: "bytes list" where
  "sample_trace \<equiv> [dns_query, ip4_sample app4 server4 out_seg, other_query, echo_request, dns_query6]"

lemma other_query_good:
  "good4 (rfc_device a) v4_valid tcp_valid u8_valid i8_valid other_query" "length other_query = 30" "other_query \<noteq> []"
  by (simp_all add: good4_def other_query_def rfc791_def v4_valid_def v4_hl_def v4_tl_def be16_def u8_valid_def view_def protocol_numbers index_go_def)

lemma query6_good:
  "good6 (rfc_device a) v6_exact tcp_valid u8_valid i8_valid dns_query6" "length dns_query6 = 50" "dns_query6 \<noteq> []"
proof -
  show "length dns_query6 = 50" "dns_query6 \<noteq> []" by (simp_all add: dns_query6_def)
  have "dns_query6 ! 0 = 0x60" "dns_query6 ! 6 = 17" by (simp_all add: dns_query6_def)
  then show "good6 (rfc_device a) v6_exact tcp_valid u8_valid i8_valid dns_query6"
    using dns_query6_fields(1) \<open>length dns_query6 = 50\<close> \<open>dns_query6 \<noteq> []\<close>
    by (simp add: good6_def segment_def protocol_numbers)
qed

lemma sample_datagrams:
  "datagram_of (rfc_device a) dns_query = Some \<lparr>dg_source = ([172, 19, 0, 1], 0xC000), dg_destination = ([8, 8, 8, 8], 53), dg_payload = [1, 2]\<rparr>"
  "datagram_of (rfc_device a) other_query = Some \<lparr>dg_source = ([172, 19, 0, 1], 0xC000), dg_destination = ([1, 1, 1, 1], 9), dg_payload = [3, 4]\<rparr>"
  "datagram_of (rfc_device a) echo_request = None"
  by (simp_all add: datagram_of_def datagram_at_def dns_query_def other_query_def echo_request_def rfc791_def v4_hl_def v4_tl_def
      be16_def view_def protocol_numbers index_go_def get_at_def get16_def UDPMinimumSize_def)

lemma sample_tcp_datagram: "datagram_of (rfc_device a) (ip4_sample app4 server4 out_seg) = None"
  by (simp add: datagram_of_def sample_defs sample_eval protocol_numbers index_go_def rfc791_def)

lemma query6_datagram:
  "\<exists>D. datagram_of (rfc_device a) dns_query6 = Some D \<and> dg_source D = ([0xFD, 0, 0, 0, 0, 0, 0, 0, 0, 0, 0, 0, 0, 0, 0, 1], 0xC000)"
proof -
  have "dns_query6 \<noteq> []" "dns_query6 ! 0 = 0x60" "dns_query6 ! 6 = 17" by (simp_all add: dns_query6_def)
  then show ?thesis
    using dns_query6_fields query6_good(2) by (simp add: datagram_of_def datagram_at_def segment_def protocol_numbers)
qed


text \<open>
  Whether answers carry their own peer is settled by the first datagram of the source.  When
  that was for the DNS server of the tun, the answers of everybody else the client talks to
  from the same port come from the DNS server, too.
\<close>

theorem dns_session_hides_peers:
  assumes "list_all2 (handed_on E) [D1, D2] Fs" and "dg_source D1 = client" and "dg_source D2 = client" and "length (fst client) = 4"
    and "text_of (fst (dg_destination D1)) = router" and "bytes \<noteq> []"
  shows "\<exists>S r. session_after text_of router Fs None = Some S \<and>
     answer_session (udp_writer E (ns_first S)) (ns_dns S) picks [(pick, \<lparr>bf_bytes = bytes, bf_endpoint = Some (target_of text_of (dg_destination D2))\<rparr>)] (ns_conn S)
       = Some ([r], Stuck) \<and>
     udp_answered E (dg_destination D1) client bytes r"
proof -
  obtain S where S: "session_after text_of router Fs None = Some S" "answers_reach E True (dg_destination D1) client S"
    using session_served [OF assms(1), of client text_of router] assms(2,3,5) by (auto simp: client_served_def split: option.splits)
  let ?b = "\<lparr>bf_bytes = bytes, bf_endpoint = Some (target_of text_of (dg_destination D2))\<rparr>"
  have "length (fst (dg_destination D2)) = 4"
    using assms(1,3,4) by (auto simp: list_all2_Cons1 handed_on_def)
  then have "answerable (length (fst client)) ?b"
    using assms(4,6) by (simp add: answerable_def ipv4_buffer_def target_of_def ip_target_def)
  then obtain rs where "answer_session (udp_writer E (ns_first S)) (ns_dns S) picks [(pick, ?b)] (ns_conn S) = Some (rs, Stuck)"
     "list_all2 (\<lambda>b r. udp_answered E (peer_of (length (fst client)) True (dg_destination D1) (snd b)) client (bf_bytes (snd b)) r) [(pick, ?b)] rs"
    using S(2) [unfolded answers_reach_def, rule_format, of "[(pick, ?b)]" picks] by auto
  with S(1) show ?thesis
    using assms(4) by (auto simp: list_all2_Cons1 peer_of_def answer_peer_def)
qed

end
