(* ===== verification/GvisorIcmp.thy ===== *)
theory GvisorIcmp
  imports NatIcmp6
begin

text \<open>
  \<open>gvisor/icmp.go\<close>: pings under the gVisor stack.  The stack hands over a packet in three
  parts, network header, ICMP header and data.  The code is close to \<open>nat/icmp.go\<close>: the
  theorems compare the two.
\<close>

section \<open>Requests\<close>

record stack_packet =
  sp_network :: bytes
  sp_transport :: bytes
  sp_data :: bytes

text \<open>
  The handler of ICMPv4.  \<open>remote\<close> and \<open>local\<close> are the addresses of the end point, \<open>accepts\<close> the
  answer of \<open>NewPingPacket\<close>, \<open>extracted\<close> what is left of the data after \<open>ExtractVV\<close>, and
  \<open>wr\<close> tells whether the write of the answer succeeds.  The quotation is an owned copy made
  before the header is changed.
\<close>

datatype gicmp_result = GIgnored | GHanded ping_flow | GAnswered ping_flow bytes bool

definition gicmp4 :: "ip4_ops \<Rightarrow> icmp_ops \<Rightarrow> csum_ops \<Rightarrow> (ping_flow \<Rightarrow> bool) \<Rightarrow> (bytes \<Rightarrow> bytes) \<Rightarrow> (bytes \<Rightarrow> bool)
    \<Rightarrow> bytes \<Rightarrow> bytes \<Rightarrow> stack_packet \<Rightarrow> gicmp_result go" where
  "gicmp4 H I C accepts extracted wr remote local k = do {
     t \<leftarrow> icmp_type I (sp_transport k);
     if t \<noteq> ICMPv4Echo then Some GIgnored
     else do {
       let originHdr = sp_network k @ take 8 (sp_transport k);
       src \<leftarrow> ip_source H (sp_network k);
       dst \<leftarrow> ip_destination H (sp_network k);
       h \<leftarrow> ip_set_source H dst (sp_network k);
       h \<leftarrow> ip_set_destination H src h;
       h \<leftarrow> ip4_write_checksum H h;
       let message = sp_transport k @ sp_data k;
       let F = \<lparr>pf_source = remote, pf_destination = local, pf_header = h, pf_origin = originHdr,
                pf_length = length message, pf_message = message\<rparr>;
       if accepts F then Some (GHanded F)
       else do {
         m \<leftarrow> icmp_set_type I ICMPv4EchoReply (sp_transport k);
         m \<leftarrow> icmp_set_checksum I 0 m;
         let d = extracted (sp_data k);
         c \<leftarrow> icmp4_compute I m (cs_checksum C d 0);
         m \<leftarrow> icmp_set_checksum I c m;
         let q = h @ m @ d;
         Some (GAnswered F q (wr q))
       }
     }
   }"

text \<open>The handler of ICMPv6.\<close>

definition gicmp6 :: "ip6_ops \<Rightarrow> icmp_ops \<Rightarrow> csum_ops \<Rightarrow> (ping_flow \<Rightarrow> bool) \<Rightarrow> (bytes \<Rightarrow> bytes) \<Rightarrow> (bytes \<Rightarrow> bool)
    \<Rightarrow> bytes \<Rightarrow> bytes \<Rightarrow> stack_packet \<Rightarrow> gicmp_result go" where
  "gicmp6 H I C accepts extracted wr remote local k = do {
     t \<leftarrow> icmp_type I (sp_transport k);
     if t \<noteq> ICMPv6EchoRequest then Some GIgnored
     else do {
       let originHdr = sp_network k @ take 8 (sp_transport k);
       src \<leftarrow> ip_source H (sp_network k);
       dst \<leftarrow> ip_destination H (sp_network k);
       h \<leftarrow> ip_set_source H dst (sp_network k);
       h \<leftarrow> ip_set_destination H src h;
       let message = sp_transport k @ sp_data k;
       let F = \<lparr>pf_source = remote, pf_destination = local, pf_header = h, pf_origin = originHdr,
                pf_length = length message, pf_message = message\<rparr>;
       if accepts F then Some (GHanded F)
       else do {
         m \<leftarrow> icmp_set_type I ICMPv6EchoReply (sp_transport k);
         m \<leftarrow> icmp_set_checksum I 0 m;
         let d = extracted (sp_data k);
         c \<leftarrow> icmp6_compute I m local remote (cs_checksum C d 0) (length d);
         m \<leftarrow> icmp_set_checksum I c m;
         let q = h @ m @ d;
         Some (GAnswered F q (wr q))
       }
     }
   }"

section \<open>Messages that come back\<close>

text \<open>The bytes of a new view are zero.\<close>

definition zeros :: "nat \<Rightarrow> bytes" where
  "zeros n = replicate n 0"

datatype back_result = BackOk | BackUnreachable | BackWriteFailed

definition gicmp4_back :: "ip4_ops \<Rightarrow> icmp_ops \<Rightarrow> csum_ops \<Rightarrow> (bytes \<Rightarrow> bool) \<Rightarrow> ping_flow \<Rightarrow> bytes \<Rightarrow> (bytes \<times> back_result) go" where
  "gicmp4_back H I C wr F message = do {
     t \<leftarrow> icmp_type I message;
     let icmpHdr = (if t = ICMPv4DstUnreachable then unreachable zeros (pf_origin F) message else message);
     h \<leftarrow> (if length icmpHdr \<noteq> pf_length F then icmp4_header H C (pf_header F) (length message)
          else Some (pf_header F));
     let q = h @ icmpHdr;
     if \<not> wr q then Some (q, BackWriteFailed)
     else do {
       t' \<leftarrow> icmp_type I icmpHdr;
       Some (q, if t' = ICMPv4DstUnreachable then BackUnreachable else BackOk)
     }
   }"

definition gicmp6_back :: "ip6_ops \<Rightarrow> icmp_ops \<Rightarrow> (bytes \<Rightarrow> bool) \<Rightarrow> bytes \<Rightarrow> bytes \<Rightarrow> ping_flow \<Rightarrow> bytes \<Rightarrow> (bytes \<times> back_result) go" where
  "gicmp6_back H I wr remote local F message = do {
     t \<leftarrow> icmp_type I message;
     let icmpHdr = (if t = ICMPv6DstUnreachable then unreachable zeros (pf_origin F) message else message);
     h \<leftarrow> (if length icmpHdr \<noteq> pf_length F then ip6_set_payload_length H (word_of_nat (length icmpHdr)) (pf_header F)
          else Some (pf_header F));
     icmpHdr \<leftarrow> icmp_set_checksum I 0 icmpHdr;
     c \<leftarrow> icmp6_compute I icmpHdr remote local 0 0;
     icmpHdr \<leftarrow> icmp_set_checksum I c icmpHdr;
     let q = h @ icmpHdr;
     if \<not> wr q then Some (q, BackWriteFailed)
     else do {
       t' \<leftarrow> icmp_type I icmpHdr;
       Some (q, if t' = ICMPv6DstUnreachable then BackUnreachable else BackOk)
     }
   }"

section \<open>The two implementations\<close>

text \<open>The result of the system tun's function, which ignores failed writes of this kind.\<close>

definition back_of :: "(bytes \<Rightarrow> bool) \<Rightarrow> bytes \<times> bool \<Rightarrow> bytes \<times> back_result" where
  "back_of wr r = (fst r, if \<not> wr (fst r) then BackWriteFailed else if snd r then BackUnreachable else BackOk)"

text \<open>
  Whatever comes back, both implementations write the same IPv4 packet for the same copied
  header and quotation, when the memory of the system tun happens to be zero.
\<close>

lemma back4_same:
  assumes t: "\<And>m. m \<noteq> [] \<Longrightarrow> icmp_type I m \<noteq> None" and m: "message \<noteq> []"
  shows "gicmp4_back H I C wr F message = map_option (back_of wr) (icmp4_back H I C zeros F message)"
proof -
  have "unreachable zeros (pf_origin F) message \<noteq> []"
    using length_unreachable [of zeros "pf_origin F" message] by (auto simp: zeros_def)
  then have "icmp_type I (unreachable zeros (pf_origin F) message) \<noteq> None" using t by blast
  then show ?thesis
    using t [OF m]
    by (auto simp: gicmp4_back_def icmp4_back_def back_of_def Let_def split: option.splits bind_splits)
qed

text \<open>A header with nothing behind it, for the laws of packets.\<close>

definition bare :: "'m ip_ops_scheme \<Rightarrow> 'm ip_ops_scheme" where
  "bare H = H\<lparr>ip_payload := (\<lambda>p. Some (length p, 0))\<rparr>"

lemma bare_simps [simp]:
  "ip_source (bare H) = ip_source H" "ip_destination (bare H) = ip_destination H"
  "ip_set_source (bare H) = ip_set_source H" "ip_set_destination (bare H) = ip_set_destination H"
  "ip_payload (bare H) p = Some (length p, 0)"
  by (simp_all add: bare_def)

lemma bare4_simps [simp]:
  "ip4_set_checksum (bare H) = ip4_set_checksum H" "ip4_checksum (bare H) = ip4_checksum H"
  "ip4_calculate_checksum (bare H) = ip4_calculate_checksum H" "ip4_total_length (bare H) = ip4_total_length H"
  "ip4_write_checksum (bare H) = ip4_write_checksum H"
  by (simp_all add: bare_def ip4_write_checksum_def fun_eq_iff)

text \<open>\<open>cs_checksum\<close> of a message in two parts, the first of even length.\<close>

locale gvisor_icmp4 = ip4_window "bare H" head 4 "\<lambda>_. True" + icmp4_answers H I ivalid C head
  for H :: ip4_ops and head and I :: icmp_ops and ivalid and C :: csum_ops +
  assumes sum_append: "even (length a) \<Longrightarrow> cs_checksum C (a @ d) 0 = ocadd (cs_checksum C a 0) (cs_checksum C d 0)"
    and ivalid_four: "ivalid m \<Longrightarrow> 4 \<le> length m"
    and set_source_length: "head h \<Longrightarrow> ip_set_source H a h = Some q \<Longrightarrow> ip4_total_length H q = ip4_total_length H h"
    and set_destination_length: "head h \<Longrightarrow> ip_set_destination H a h = Some q \<Longrightarrow> ip4_total_length H q = ip4_total_length H h"
begin

lemma set_checksum_length: "head h \<Longrightarrow> ip4_write_checksum H h = Some q \<Longrightarrow> length q = length h"
proof -
  assume h: "head h" and q: "ip4_write_checksum H h = Some q"
  obtain a where a: "ip4_set_checksum H 0 h = Some a" "head a" "length a = length h"
    using head_set_checksum [OF h, of 0] by blast
  obtain c where c: "ip4_calculate_checksum H a = Some c"
    using calculate [OF a(2)] by auto
  then show ?thesis
    using q a head_set_checksum [OF a(2), of "NOT c"] by (auto simp: ip4_write_checksum_def)
qed

lemma grequest4:
  assumes h: "head (sp_network k)" and m: "ivalid (sp_transport k)" "even (length (sp_transport k))"
    and t: "icmp_type I (sp_transport k) = Some ICMPv4Echo"
    and src: "ip_source H (sp_network k) = Some src" and dst: "ip_destination H (sp_network k) = Some dst"
    and len: "ip4_total_length H (sp_network k) = Some (word_of_nat (length (sp_network k @ sp_transport k @ sp_data k)))"
    and keep: "extracted (sp_data k) = sp_data k"
  shows "\<exists>F. pf_message F = sp_transport k @ sp_data k \<and> pf_length F = length (pf_message F) \<and> head (pf_header F) \<and>
     icmp4_frame H dst src (pf_header F) (pf_length F) \<and> pf_origin F = sp_network k @ take 8 (sp_transport k) \<and>
     (accepts F \<longrightarrow> gicmp4 H I C accepts extracted wr remote local k = Some (GHanded F)) \<and>
     (\<not> accepts F \<longrightarrow> (\<exists>r. gicmp4 H I C accepts extracted wr remote local k = Some (GAnswered F (pf_header F @ r) (wr (pf_header F @ r))) \<and>
        icmp_type I (take (length (sp_transport k)) r) = Some ICMPv4EchoReply \<and> cs_checksum C r 0 = 0xFFFF \<and>
        drop 4 r = drop 4 (pf_message F) \<and> length r = length (pf_message F)))"
proof -
  have seg: "segment (bare H) head (\<lambda>_. True) (length p, 0) p" if "head p" for p
    using that by (simp add: segment_def)
  have l: "length src = 4" "length dst = 4"
    using source_total [OF h] destination_total [OF h] src dst by auto
  obtain p1 where p1: "ip_set_source H dst (sp_network k) = Some p1" "head p1" "length p1 = length (sp_network k)"
    "ip_source H p1 = Some dst"
    using set_source [OF h l(2)] by auto
  obtain p2 where p2: "ip_set_destination H src p1 = Some p2" "head p2" "length p2 = length p1"
    "ip_source H p2 = Some dst" "ip_destination H p2 = Some src"
    using set_destination [OF p1(2) l(1)] p1(4) by auto
  have seg2: "segment (bare H) head (\<lambda>_. True) (length p2, 0) p2"
    by (rule seg [OF p2(2)])
  obtain q where q: "ip4_write_checksum H p2 = Some q" "head q" "ip_source H q = Some dst" "ip_destination H q = Some src"
    "ip4_calculate_checksum H q = Some 0xFFFF" "ip4_total_length H q = ip4_total_length H p2"
    using write_checksum_ok [OF seg2] p2 by (auto simp: segment_def)
  have lq: "length q = length (sp_network k)"
    using set_checksum_length [OF p2(2) q(1)] p1(3) p2(3) by simp
  have tl: "ip4_total_length H q = ip4_total_length H (sp_network k)"
    using q(6) set_destination_length [OF p1(2) p2(1)] set_source_length [OF h p1(1)] by simp
  define F where "F = \<lparr>pf_source = remote, pf_destination = local, pf_header = q, pf_origin = sp_network k @ take 8 (sp_transport k),
      pf_length = length (sp_transport k @ sp_data k), pf_message = sp_transport k @ sp_data k\<rparr>"
  have fields: "pf_message F = sp_transport k @ sp_data k" "pf_length F = length (pf_message F)" "head (pf_header F)"
    "pf_origin F = sp_network k @ take 8 (sp_transport k)" "icmp4_frame H dst src (pf_header F) (pf_length F)" "pf_header F = q"
    using q tl len lq by (simp_all add: F_def icmp4_frame_def add.assoc)
  obtain m1 where m1: "icmp_set_type I ICMPv4EchoReply (sp_transport k) = Some m1" "ivalid m1" "length m1 = length (sp_transport k)"
    "icmp_type I m1 = Some ICMPv4EchoReply" "drop 4 m1 = drop 4 (sp_transport k)"
    using set_type [OF m(1), of ICMPv4EchoReply] by blast
  obtain m2 where m2: "icmp_set_checksum I 0 m1 = Some m2" "ivalid m2" "length m2 = length m1" "icmp_type I m2 = Some ICMPv4EchoReply"
    "drop 4 m2 = drop 4 m1"
    using set_icmp_checksum [OF m1(2), of 0] m1(4) by auto
  let ?x = "cs_checksum C (sp_data k) 0"
  obtain c where c: "icmp4_compute I m2 ?x = Some c"
    using compute4_total [OF m2(2)] by blast
  obtain m3 where m3: "icmp_set_checksum I c m2 = Some m3" "ivalid m3" "length m3 = length m2" "icmp_type I m3 = Some ICMPv4EchoReply"
    "drop 4 m3 = drop 4 m2"
    using set_icmp_checksum [OF m2(2), of c] m2(4) by auto
  have lens: "length m3 = length (sp_transport k)" "drop 4 m3 = drop 4 (sp_transport k)"
    using m1 m2 m3 by simp_all
  have sum: "cs_checksum C (m3 @ sp_data k) 0 = 0xFFFF"
    using sum_append [of m3 "sp_data k"] compute4 [OF m2(2) c m3(1)] m(2) lens by simp
  have "4 \<le> length (sp_transport k)"
    using m(1) ivalid_four by blast
  then have rest: "drop 4 (m3 @ sp_data k) = drop 4 (pf_message F)"
    using lens fields(1) by simp
  have run: "gicmp4 H I C accepts extracted wr remote local k =
      (if accepts F then Some (GHanded F) else Some (GAnswered F (q @ m3 @ sp_data k) (wr (q @ m3 @ sp_data k))))"
    by (simp add: gicmp4_def t src dst p1(1) p2(1) q(1) Let_def F_def m1(1) m2(1) keep c m3(1))
  show ?thesis
    using run fields sum rest m3(4) lens(1)
    by (intro exI [of _ F] conjI impI exI [of _ "m3 @ sp_data k"]) simp_all
qed

end

text \<open>
  Over IPv6 the checksum is computed for the addresses of the end point, in the order of
  the request; the pseudo header's sum does not depend on the order.
\<close>

locale gvisor_icmp6 = icmp6_packets H valid I ivalid C head
  for H :: ip6_ops and valid and I :: icmp_ops and ivalid and C :: csum_ops and head +
  assumes pseudo_commute: "cs_pseudo C proto a b n = cs_pseudo C proto b a n"
begin

lemma gmessage_back6:
  assumes F: "head (pf_header F)" "ip_source H (pf_header F) = Some local" "ip_destination H (pf_header F) = Some remote"
     "ip6_payload_length H (pf_header F) = Some (word_of_nat (pf_length F))"
    and m: "ivalid message" "icmp_type I message = Some t"
  shows "\<exists>h r b. gicmp6_back H I wr remote local F message = Some (h @ r, b) \<and> icmp6_frame H local remote h r \<and>
     icmp6_sum_ok C local remote r \<and> (t \<noteq> ICMPv6DstUnreachable \<longrightarrow> drop 4 r = drop 4 message) \<and>
     (t = ICMPv6DstUnreachable \<longrightarrow> drop 8 r = pf_origin F)"
proof -
  have z: "\<And>n. length (zeros n) = n" by (simp add: zeros_def)
  have now: "ip_source H (pf_header F) = Some local" "ip_destination H (pf_header F) = Some remote"
    using F by simp_all
  define u where "u = (if t = ICMPv6DstUnreachable then unreachable zeros (pf_origin F) message else message)"
  have u: "ivalid u"
    using m(1) ivalid_long length_unreachable [OF z] by (simp add: u_def)
  obtain m0 c r where r: "icmp_set_checksum I 0 u = Some m0" "icmp6_compute I m0 remote local 0 0 = Some c"
     "icmp_set_checksum I c m0 = Some r" "ivalid r" "length r = length u" "drop 4 r = drop 4 u" "icmp6_sum_ok C remote local r"
    using checksum_stored [OF u, of remote local] by blast
  obtain t' where t': "icmp_type I r = Some t'"
    using icmp_total [OF r(4)] by blast
  obtain h where h: "(if length u \<noteq> pf_length F then ip6_set_payload_length H (word_of_nat (length u)) (pf_header F)
       else Some (pf_header F)) = Some h" "icmp6_frame H local remote h r"
    using header_for [OF F r(5)] by blast
  have "\<exists>b. gicmp6_back H I wr remote local F message = Some (h @ r, b)"
    using h(1) r(1-3) m(2) t'
    by (cases "length u = pf_length F"; cases "t = ICMPv6DstUnreachable") (simp_all add: gicmp6_back_def Let_def u_def)
  moreover have "t = ICMPv6DstUnreachable \<Longrightarrow> drop 8 r = pf_origin F"
    using drop_unreachable [of zeros "pf_origin F" message, OF z] arg_cong [OF r(6), of "drop 4"] by (simp add: u_def)
  moreover have "icmp6_sum_ok C local remote r"
    using r(7) pseudo_commute by (simp add: icmp6_sum_ok_def)
  ultimately obtain b where "gicmp6_back H I wr remote local F message = Some (h @ r, b)"
    "t = ICMPv6DstUnreachable \<longrightarrow> drop 8 r = pf_origin F" "icmp6_sum_ok C local remote r" by blast
  then show ?thesis
    using h(2) r(6) by (intro exI [of _ h] exI [of _ r] exI [of _ b]) (auto simp: u_def)
qed

end

section \<open>The wire layout\<close>

lemma v4_head_put_address:
  assumes "v4_head h" "i = 12 \<or> i = 16" "length a = 4"
  shows "\<exists>q. put_at i a h = Some q \<and> v4_head q \<and> length q = length h \<and> get_at i 4 q = Some a \<and>
     (\<forall>j n. j + n \<le> i \<or> i + 4 \<le> j \<longrightarrow> get_at j n q = get_at j n h)"
proof -
  have "i + length a \<le> length h"
    using assms by (auto simp: v4_head_def)
  then obtain q where q: "put_at i a h = Some q"
    using put_at_total by blast
  have "v4_head q"
    using assms put_at_nth [OF q, of 0] put_at_length [OF q] by (auto simp: v4_head_def v4_hl_def)
  with q assms(3) show ?thesis
    using put_at_length [OF q] put_at_get_same [OF q] put_at_get_before [OF q] put_at_get_after [OF q] by auto
qed

interpretation rfc_gicmp4: gvisor_icmp4 rfc791 v4_head rfc792 i8_valid rfc1071
proof unfold_locales
  fix p assume p: "v4_head p"
  then have len: "20 \<le> length p" "v4_hl p = length p" by (simp_all add: v4_head_def)
  show "\<exists>a. ip_source (bare rfc791) p = Some a \<and> length a = 4" "\<exists>a. ip_destination (bare rfc791) p = Some a \<and> length a = 4"
    using len get_at_total [of 12 4 p] get_at_total [of 16 4 p] by auto
  show "\<exists>w. ip_payload (bare rfc791) p = Some w \<and> window_in w p"
    by (simp add: window_in_def)
  show "\<exists>s. ip4_calculate_checksum (bare rfc791) p = Some s"
    using len by (auto simp: rfc791_calculate)
  show "\<exists>q. ip4_set_checksum (bare rfc791) c p = Some q \<and> v4_head q \<and> length q = length p \<and>
      ip4_checksum (bare rfc791) q = Some c \<and> ip_source (bare rfc791) q = ip_source (bare rfc791) p \<and>
      ip_destination (bare rfc791) q = ip_destination (bare rfc791) p \<and> ip_payload (bare rfc791) q = ip_payload (bare rfc791) p \<and>
      ip4_total_length (bare rfc791) q = ip4_total_length (bare rfc791) p \<and>
      (\<forall>w. ip_payload (bare rfc791) p = Some w \<longrightarrow> view w q = view w p)" for c
    using v4_head_put [OF p, of 10 c] by (auto simp: view_def)
  show "\<exists>q. ip_set_source (bare rfc791) a p = Some q \<and> v4_head q \<and> length q = length p \<and> ip_source (bare rfc791) q = Some a \<and>
      ip_destination (bare rfc791) q = ip_destination (bare rfc791) p \<and> ip_payload (bare rfc791) q = ip_payload (bare rfc791) p \<and>
      (\<forall>w. ip_payload (bare rfc791) p = Some w \<longrightarrow> view w q = view w p)" if "length a = 4" for a
    using v4_head_put_address [OF p _ that, of 12] by (auto simp: view_def)
  show "\<exists>q. ip_set_destination (bare rfc791) a p = Some q \<and> v4_head q \<and> length q = length p \<and> ip_destination (bare rfc791) q = Some a \<and>
      ip_source (bare rfc791) q = ip_source (bare rfc791) p \<and> ip_payload (bare rfc791) q = ip_payload (bare rfc791) p \<and>
      (\<forall>w. ip_payload (bare rfc791) p = Some w \<longrightarrow> view w q = view w p)" if "length a = 4" for a
    using v4_head_put_address [OF p _ that, of 16] by (auto simp: view_def)
next
  fix p w and v :: bytes
  assume p: "v4_head p" and w: "ip_payload (bare rfc791) p = Some w" "length v = snd w"
  then have "splice w v p = p" by (auto simp: splice_def)
  then show "v4_head (splice w v p) \<and> ip_source (bare rfc791) (splice w v p) = ip_source (bare rfc791) p \<and>
      ip_destination (bare rfc791) (splice w v p) = ip_destination (bare rfc791) p \<and>
      ip_payload (bare rfc791) (splice w v p) = ip_payload (bare rfc791) p"
    and "ip4_calculate_checksum (bare rfc791) (splice w v p) = ip4_calculate_checksum (bare rfc791) p"
    using p by simp_all
next
  fix p c q d assume "v4_head p" "ip4_set_checksum (bare rfc791) c p = Some q"
  then show "ip4_set_checksum (bare rfc791) d q = ip4_set_checksum (bare rfc791) d p"
    by (simp add: put16_def put_at_twice)
next
  fix p p0 c p1 s
  assume p: "v4_head p" "ip4_set_checksum (bare rfc791) 0 p = Some p0" "ip4_set_checksum (bare rfc791) c p = Some p1"
    "ip4_calculate_checksum (bare rfc791) p0 = Some s"
  then have q: "put16 10 0 p = Some p0" "put16 10 c p = Some p1" by simp_all
  have hl: "v4_hl p0 = length p" "v4_hl p1 = length p" "length p0 = length p" "length p1 = length p"
    using v4_head_put [OF p(1), of 10 0] v4_head_put [OF p(1), of 10 c] q by (auto simp: v4_head_def)
  have "csum (take (length p) p1) 0 = ocadd (csum (take (length p) p0) 0) c"
    using p(1) by (intro csum_put16 [OF _ _ _ q]) (auto simp: v4_head_def)
  then show "ip4_calculate_checksum (bare rfc791) p1 = Some (ocadd s c)"
    using p(4) hl by (simp add: rfc791_calculate split: if_splits)
next
  fix a d :: bytes assume "even (length a)"
  then show "cs_checksum rfc1071 (a @ d) 0 = ocadd (cs_checksum rfc1071 a 0) (cs_checksum rfc1071 d 0)"
    using csum_acc [of d "csum a 0"] by (simp add: rfc1071_def csum_append)
next
  fix m :: bytes assume "i8_valid m" then show "4 \<le> length m" by (simp add: i8_valid_def)
next
  fix h a q assume h: "v4_head h" and q: "ip_set_source rfc791 a h = Some q"
  then show "ip4_total_length rfc791 q = ip4_total_length rfc791 h"
    using put_at_get_before [of 12 a h q 2 2] by (simp add: get16_def)
next
  fix h a q assume h: "v4_head h" and q: "ip_set_destination rfc791 a h = Some q"
  then show "ip4_total_length rfc791 q = ip4_total_length rfc791 h"
    using put_at_get_before [of 16 a h q 2 2] by (simp add: get16_def)
qed

lemma csum_swap: "csum a (csum b c) = csum b (csum a c)"
  using csum_acc [of a "csum b c"] csum_acc [of b "csum a c"] csum_acc [of a c] csum_acc [of b c] by (simp add: ocadd_ac)

interpretation rfc_gicmp6: gvisor_icmp6 rfc8200_udp v6_exact rfc792 i8_valid rfc1071 v6_head
proof unfold_locales
  show "cs_pseudo rfc1071 proto a b n = cs_pseudo rfc1071 proto b a n" for proto a b n
    by (simp add: rfc1071_def csum_swap [of a b])
qed

section \<open>Properties\<close>


definition echo_packet :: stack_packet where
  "echo_packet = \<lparr>sp_network = [0x45, 0, 0, 30, 0, 0, 0, 0, 64, 1, 0, 0, 172, 19, 0, 1, 8, 8, 8, 8],
     sp_transport = [8, 0, 0, 0, 0, 1, 0, 2], sp_data = [7, 9]\<rparr>"

lemma echo_packet_facts:
  "v4_head (sp_network echo_packet)" "i8_valid (sp_transport echo_packet)" "even (length (sp_transport echo_packet))"
  "icmp_type rfc792 (sp_transport echo_packet) = Some ICMPv4Echo"
  "ip_source rfc791 (sp_network echo_packet) = Some [172, 19, 0, 1]" "ip_destination rfc791 (sp_network echo_packet) = Some [8, 8, 8, 8]"
  "ip4_total_length rfc791 (sp_network echo_packet) =
     Some (word_of_nat (length (sp_network echo_packet @ sp_transport echo_packet @ sp_data echo_packet)))"
  by (simp_all add: echo_packet_def v4_head_def v4_hl_def i8_valid_def index_go_def ICMPv4Echo_def get_at_def get16_def be16_def)


end
