(* ===== verification/GvisorBuffer.thy ===== *)
theory GvisorBuffer
  imports Prelude
begin

text \<open>
  \<open>gvisor/dispatchers.go\<close>: the buffer vector packets are scattered into.  The views a packet
  filled leave the vector with the packet, the others stay for the next read.  The arrays
  are modelled by their addresses in an explicit memory, because the views of a delivered
  packet outlive the reads that follow.
\<close>

section \<open>Memory\<close>

record arena =
  ar_next :: nat
  ar_mem :: "nat \<Rightarrow> bytes"

definition alloc :: "nat \<Rightarrow> arena \<Rightarrow> nat \<times> arena" where
  "alloc n m = (ar_next m, m\<lparr>ar_next := Suc (ar_next m), ar_mem := (ar_mem m)(ar_next m := replicate n 0)\<rparr>)"

text \<open>A \<open>buffer.View\<close> (a slice from the start of its array) and an \<open>unix.Iovec\<close>.\<close>

record vview =
  vw_array :: nat
  vw_len :: nat

type_synonym iovec = "(nat \<times> nat) option"

definition contents :: "arena \<Rightarrow> vview \<Rightarrow> bytes" where
  "contents m v = take (vw_len v) (ar_mem m (vw_array v))"

section \<open>The buffer vector\<close>

definition bufConfig :: "nat list" where
  "bufConfig = [128, 256, 256, 512, 1024, 2048, 4096, 8192, 16384, 32768]"

record iovecBuffer =
  ib_views :: "vview option list"
  ib_iovecs :: "iovec list"
  ib_sizes :: "nat list"

definition newIovecBuffer :: "nat list \<Rightarrow> iovecBuffer" where
  "newIovecBuffer sizes = \<lparr>ib_views = replicate (length sizes) None, ib_iovecs = replicate (length sizes) None, ib_sizes = sizes\<rparr>"

text \<open>\<open>nextIovecs\<close>: the leading missing views are allocated and entered in the vector.\<close>

fun next_loop :: "arena \<Rightarrow> nat list \<Rightarrow> vview option list \<Rightarrow> iovec list \<Rightarrow> arena \<times> vview option list \<times> iovec list" where
  "next_loop m (s # ss) (None # vs) (io # ios) =
     (let (a, m') = alloc s m;
          (m'', vs', ios') = next_loop m' ss vs ios
      in (m'', Some \<lparr>vw_array = a, vw_len = s\<rparr> # vs', Some (a, s) # ios'))"
| "next_loop m ss vs ios = (m, vs, ios)"

definition nextIovecs :: "arena \<Rightarrow> iovecBuffer \<Rightarrow> arena \<times> iovecBuffer" where
  "nextIovecs m b =
     (let (m', vs, ios) = next_loop m (ib_sizes b) (ib_views b) (ib_iovecs b)
      in (m', b\<lparr>ib_views := vs, ib_iovecs := ios\<rparr>))"

text \<open>
  \<open>pullViews\<close>: the first view with which \<open>n\<close> bytes are reached is capped, and it and those
  before it are taken out; when the views hold less, none is.
\<close>

definition view_len :: "vview option \<Rightarrow> nat" where
  "view_len v = (case v of None \<Rightarrow> 0 | Some x \<Rightarrow> vw_len x)"

fun pull_loop :: "nat \<Rightarrow> nat \<Rightarrow> vview option list \<Rightarrow> vview option list \<times> vview option list" where
  "pull_loop c n [] = ([], [])"
| "pull_loop c n (v # vs) =
     (let c' = c + view_len v
      in if n \<le> c' then ([map_option (vw_len_update (\<lambda>l. l - (c' - n))) v], None # vs)
         else (case pull_loop c' n vs of
                 ([], rest) \<Rightarrow> ([], v # rest)
               | (us, rest) \<Rightarrow> (v # us, None # rest)))"

definition pullViews :: "iovecBuffer \<Rightarrow> nat \<Rightarrow> vview option list \<times> iovecBuffer" where
  "pullViews b n = (let (us, vs) = pull_loop 0 n (ib_views b) in (us, b\<lparr>ib_views := vs\<rparr>))"

text \<open>
  The kernel's \<open>readv\<close>: a packet is spread over the arrays in order; what does not fit is
  lost.  The result is the number of bytes.
\<close>

fun scatter :: "(nat \<Rightarrow> bytes) \<Rightarrow> iovec list \<Rightarrow> bytes \<Rightarrow> nat \<Rightarrow> bytes" where
  "scatter mem (Some (a, n) # ios) bs = scatter (mem(a := copy_into (mem a) (take n bs))) ios (drop n bs)"
| "scatter mem ios bs = mem"

fun iov_total :: "iovec list \<Rightarrow> nat" where
  "iov_total (Some (a, n) # ios) = n + iov_total ios"
| "iov_total ios = 0"

definition readv :: "arena \<Rightarrow> iovec list \<Rightarrow> bytes \<Rightarrow> nat \<times> arena" where
  "readv m ios bs = (min (length bs) (iov_total ios), m\<lparr>ar_mem := scatter (ar_mem m) ios bs\<rparr>)"

section \<open>The invariant\<close>

text \<open>
  \<open>ready\<close>: the missing views form a prefix; each of the others has its full size, its entry
  of the vector, and an array of its own that was allocated and is in nobody else's hands.
\<close>

definition entry :: "vview option \<Rightarrow> iovec \<Rightarrow> nat \<Rightarrow> arena \<Rightarrow> bool" where
  "entry v io s m \<longleftrightarrow> (case v of None \<Rightarrow> True
     | Some x \<Rightarrow> vw_len x = s \<and> io = Some (vw_array x, s) \<and> vw_array x < ar_next m \<and> length (ar_mem m (vw_array x)) = s)"

fun arrays :: "vview option list \<Rightarrow> nat list" where
  "arrays [] = []"
| "arrays (None # vs) = arrays vs"
| "arrays (Some x # vs) = vw_array x # arrays vs"

fun entries :: "vview option list \<Rightarrow> iovec list \<Rightarrow> nat list \<Rightarrow> arena \<Rightarrow> bool" where
  "entries [] [] [] m = True"
| "entries (v # vs) (io # ios) (s # ss) m \<longleftrightarrow> entry v io s m \<and> entries vs ios ss m \<and> (v \<noteq> None \<longrightarrow> None \<notin> set vs)"
| "entries vs ios ss m = False"

definition ready :: "arena \<Rightarrow> iovecBuffer \<Rightarrow> bool" where
  "ready m b \<longleftrightarrow> entries (ib_views b) (ib_iovecs b) (ib_sizes b) m \<and> distinct (arrays (ib_views b)) \<and> (\<forall>s \<in> set (ib_sizes b). 0 < s)"

lemma arrays_append [simp]: "arrays (us @ vs) = arrays us @ arrays vs"
  by (induction us rule: arrays.induct) simp_all

lemma arrays_bound: "entries vs ios ss m \<Longrightarrow> a \<in> set (arrays vs) \<Longrightarrow> a < ar_next m"
  by (induction vs ios ss m rule: entries.induct) (auto simp: entry_def split: option.splits)

lemma entries_Some: "entries (Some x # vs) ios ss m \<Longrightarrow> None \<notin> set vs"
  by (cases ios; cases ss) auto

lemma entries_mono: "entries vs ios ss m \<Longrightarrow> ar_next m \<le> ar_next m' \<Longrightarrow>
    (\<And>a. a \<in> set (arrays vs) \<Longrightarrow> length (ar_mem m' a) = length (ar_mem m a)) \<Longrightarrow> entries vs ios ss m'"
proof (induction vs ios ss m rule: entries.induct)
  case (2 v vs io ios s ss m)
  have "entries vs ios ss m'"
    using 2 by (cases v) auto
  moreover have "entry v io s m'"
    using 2 by (cases v) (auto simp: entry_def)
  ultimately show ?case using 2 by auto
qed auto

text \<open>After \<open>nextIovecs\<close> no view is missing, and the arrays allocated are new.\<close>

lemma next_loop_spec:
  assumes "entries vs ios ss m" and "distinct (arrays vs)" and "next_loop m ss vs ios = (m', vs', ios')"
  shows "entries vs' ios' ss m' \<and> distinct (arrays vs') \<and> None \<notin> set vs' \<and> ar_next m \<le> ar_next m' \<and>
     (\<forall>a. a < ar_next m \<longrightarrow> ar_mem m' a = ar_mem m a) \<and>
     (\<forall>a \<in> set (arrays vs'). a \<in> set (arrays vs) \<or> ar_next m \<le> a)"
  using assms
proof (induction m ss vs ios arbitrary: m' vs' ios' rule: next_loop.induct)
  case (1 m s ss vs io ios)
  define m1 where "m1 = snd (alloc s m)"
  have al: "alloc s m = (ar_next m, m1)" "ar_next m1 = Suc (ar_next m)" "ar_mem m1 (ar_next m) = replicate s 0"
    "\<And>a. a < ar_next m \<Longrightarrow> ar_mem m1 a = ar_mem m a"
    by (simp_all add: m1_def alloc_def)
  obtain m2 vs2 ios2 where r: "next_loop m1 ss vs ios = (m2, vs2, ios2)"
    by (cases "next_loop m1 ss vs ios") auto
  with "1.prems"(3) al(1) have eq: "m' = m2" "vs' = Some \<lparr>vw_array = ar_next m, vw_len = s\<rparr> # vs2" "ios' = Some (ar_next m, s) # ios2"
    by simp_all
  have e: "entries vs ios ss m" "distinct (arrays vs)" using "1.prems" by simp_all
  have "length (ar_mem m1 a) = length (ar_mem m a)" if "a \<in> set (arrays vs)" for a
    using arrays_bound [OF e(1) that] al(4) by simp
  then have "entries vs ios ss m1"
    using entries_mono [OF e(1), of m1] al(2) by simp
  note IH = "1.IH" [OF refl al(1) [symmetric] this e(2) r]
  have old: "ar_mem m2 a = ar_mem m a" if "a < ar_next m" for a
    using IH al(2,4) that by simp
  have new: "a \<in> set (arrays vs) \<or> Suc (ar_next m) \<le> a" if "a \<in> set (arrays vs2)" for a
    using IH al(2) that by auto
  have "ar_mem m2 (ar_next m) = replicate s 0" using IH al(2,3) by simp
  then show ?case
    using IH al(2) old new arrays_bound [OF e(1)] by (fastforce simp: eq entry_def)
qed (auto elim: entries.elims dest: entries_Some)

section \<open>Reading a packet\<close>

text \<open>The bytes a list of views shows.\<close>

definition shown :: "(nat \<Rightarrow> bytes) \<Rightarrow> vview option list \<Rightarrow> bytes" where
  "shown mem vs = concat (map (\<lambda>v. case v of None \<Rightarrow> [] | Some x \<Rightarrow> take (vw_len x) (mem (vw_array x))) vs)"

lemma shown_simps [simp]:
  "shown mem [] = []" "shown mem (Some x # vs) = take (vw_len x) (mem (vw_array x)) @ shown mem vs"
  "shown mem (None # vs) = shown mem vs"
  by (simp_all add: shown_def)

lemma shown_cong: "(\<And>a. a \<in> set (arrays vs) \<Longrightarrow> mem' a = mem a) \<Longrightarrow> shown mem' vs = shown mem vs"
  by (induction vs rule: arrays.induct) simp_all

lemma scatter_nil [simp]: "scatter mem ios [] = mem"
  by (induction mem ios "[] :: bytes" rule: scatter.induct) (simp_all add: copy_into_def)

lemma length_scatter: "length (scatter mem ios bs a) = length (mem a)"
proof (induction mem ios bs rule: scatter.induct)
  case (1 mem b n ios bs)
  have "length (scatter mem (Some (b, n) # ios) bs a) = length ((mem(b := copy_into (mem b) (take n bs))) a)"
    using "1.IH" by (simp only: scatter.simps)
  then show ?case by simp
qed simp_all

lemma scatter_other: "entries vs ios ss m \<Longrightarrow> None \<notin> set vs \<Longrightarrow> a \<notin> set (arrays vs) \<Longrightarrow> scatter mem ios bs a = mem a"
proof (induction vs ios ss m arbitrary: mem bs rule: entries.induct)
  case (2 v vs io ios s ss m)
  then show ?case by (cases v) (auto simp: entry_def)
qed auto

lemma pull_scatter:
  assumes "entries vs ios ss m" and "None \<notin> set vs" and "distinct (arrays vs)" and "\<forall>s \<in> set ss. 0 < s"
    and "\<And>a. a \<in> set (arrays vs) \<Longrightarrow> length (mem a) = length (ar_mem m a)"
    and "bs \<noteq> []" and "length bs \<le> iov_total ios" and "pull_loop c (c + length bs) vs = (us, rest)"
  shows "shown (scatter mem ios bs) us = bs \<and> us \<noteq> [] \<and> length us \<le> length vs \<and> None \<notin> set us \<and>
     rest = replicate (length us) None @ drop (length us) vs \<and> arrays us = arrays (take (length us) vs)"
  using assms
proof (induction vs ios ss m arbitrary: mem bs c us rest rule: entries.induct)
  case (2 v vs io ios s ss m)
  obtain x where v: "v = Some x" using "2.prems"(2) by (cases v) simp_all
  let ?a = "vw_array x"
  have io: "io = Some (?a, s)" "vw_len x = s" "length (mem ?a) = s" "0 < s"
    using "2.prems" v by (auto simp: entry_def)
  have a: "?a \<notin> set (arrays vs)" using "2.prems"(3) v by simp
  have e: "entries vs ios ss m" "None \<notin> set vs" using "2.prems"(1,2) by auto
  show ?case
  proof (cases "length bs \<le> s")
    case True
    then have "take (length bs) (copy_into (mem ?a) (take s bs)) = bs"
      using io(3) by (simp add: copy_into_def)
    with True "2.prems"(8) io(1,2) v show ?thesis
      by (auto simp: view_len_def)
  next
    case False
    define bs' where "bs' = drop s bs"
    have bs': "bs' \<noteq> []" "length bs = s + length bs'" "take s bs @ bs' = bs" "length (take s bs) = s"
      using False by (simp_all add: bs'_def)
    obtain us' rest' where pull: "pull_loop (c + s) (c + s + length bs') vs = (us', rest')"
      by (cases "pull_loop (c + s) (c + s + length bs') vs") auto
    let ?mem = "mem(?a := copy_into (mem ?a) (take s bs))"
    have "length (?mem b) = length (ar_mem m b)" if "b \<in> set (arrays vs)" for b
      using "2.prems"(5) [of b] a that v by auto
    then have IH: "shown (scatter ?mem ios bs') us' = bs' \<and> us' \<noteq> [] \<and> length us' \<le> length vs \<and> None \<notin> set us' \<and>
        rest' = replicate (length us') None @ drop (length us') vs \<and> arrays us' = arrays (take (length us') vs)"
      using "2.prems"(3,4,7) v io(1) bs' e by (intro "2.IH" [OF _ _ _ _ _ _ _ pull]) auto
    have "scatter mem (io # ios) bs = scatter ?mem ios bs'"
      by (simp add: io(1) bs'_def)
    moreover have "scatter ?mem ios bs' ?a = take s bs"
      using scatter_other [OF e a] io(3) bs'(4) by (simp add: copy_into_def)
    moreover have "us = v # us'" "rest = None # rest'"
      using "2.prems"(8) pull IH bs'(1) by (auto simp: view_len_def v io(2) bs'(2) add.assoc split: list.splits)
    ultimately show ?thesis
      using IH v io(2) bs'(3,4) by simp
  qed
qed auto

section \<open>Runs of reads\<close>

text \<open>One read of \<open>dispatch\<close>: the views of the packet, and what is left.\<close>

definition read_packet :: "arena \<Rightarrow> iovecBuffer \<Rightarrow> bytes \<Rightarrow> vview option list \<times> nat \<times> arena \<times> iovecBuffer" where
  "read_packet m b packet =
     (let (m, b) = nextIovecs m b;
          (n, m) = readv m (ib_iovecs b) packet;
          (vs, b) = pullViews b n
      in (vs, n, m, b))"

lemma iov_total_entries: "entries vs ios ss m \<Longrightarrow> None \<notin> set vs \<Longrightarrow> iov_total ios = sum_list ss"
  by (induction vs ios ss m rule: entries.induct) (auto simp: entry_def split: option.splits)

lemma entries_drop: "entries vs ios ss m \<Longrightarrow> None \<notin> set vs \<Longrightarrow> k \<le> length vs \<Longrightarrow>
    entries (replicate k None @ drop k vs) ios ss m"
proof (induction vs ios ss m arbitrary: k rule: entries.induct)
  case (2 v vs io ios s ss m)
  then show ?case
    by (cases k) (auto simp: entry_def)
qed auto

lemma entries_length: "entries vs ios ss m \<Longrightarrow> length vs = length ss \<and> length ios = length ss"
  by (induction vs ios ss m rule: entries.induct) auto

lemma arrays_replicate [simp]: "arrays (replicate k None) = []"
  by (induction k) simp_all

text \<open>
  A read keeps the invariant, shows the packet, and writes neither to arrays that were there
  and are not in the vector.
\<close>

lemma read_packet_spec:
  assumes b: "ready m b" and p: "packet \<noteq> []" "length packet \<le> sum_list (ib_sizes b)"
    and r: "read_packet m b packet = (vs, n, m', b')"
  shows "ready m' b' \<and> ib_sizes b' = ib_sizes b \<and> n = length packet \<and> shown (ar_mem m') vs = packet \<and> None \<notin> set vs \<and>
     ar_next m \<le> ar_next m' \<and> set (arrays vs) \<inter> set (arrays (ib_views b')) = {} \<and> (\<forall>a \<in> set (arrays vs). a < ar_next m') \<and>
     (\<forall>a. a < ar_next m \<and> a \<notin> set (arrays (ib_views b)) \<longrightarrow>
        ar_mem m' a = ar_mem m a \<and> a \<notin> set (arrays vs) \<and> a \<notin> set (arrays (ib_views b')))"
proof -
  obtain m1 ws ios where nl: "next_loop m (ib_sizes b) (ib_views b) (ib_iovecs b) = (m1, ws, ios)"
    by (cases "next_loop m (ib_sizes b) (ib_views b) (ib_iovecs b)") auto
  have inv: "entries (ib_views b) (ib_iovecs b) (ib_sizes b) m" "distinct (arrays (ib_views b))" "\<forall>s \<in> set (ib_sizes b). 0 < s"
    using b by (simp_all add: ready_def)
  note nx = next_loop_spec [OF inv(1,2) nl]
  have total: "iov_total ios = sum_list (ib_sizes b)"
    using iov_total_entries nx by blast
  obtain us rest where pl: "pull_loop 0 (length packet) ws = (us, rest)"
    by (cases "pull_loop 0 (length packet) ws") auto
  let ?m2 = "m1\<lparr>ar_mem := scatter (ar_mem m1) ios packet\<rparr>"
  have res: "vs = us" "n = length packet" "m' = ?m2" "b' = b\<lparr>ib_views := rest, ib_iovecs := ios\<rparr>"
    using r p(2) nl pl total by (auto simp: read_packet_def nextIovecs_def readv_def pullViews_def Let_def)
  have pull: "shown (scatter (ar_mem m1) ios packet) us = packet \<and> us \<noteq> [] \<and> length us \<le> length ws \<and> None \<notin> set us \<and>
     rest = replicate (length us) None @ drop (length us) ws \<and> arrays us = arrays (take (length us) ws)"
    using pull_scatter [of ws ios "ib_sizes b" m1 "ar_mem m1" packet 0 us rest] nx inv(3) p total pl by simp
  have parts: "set (arrays us) \<union> set (arrays rest) = set (arrays ws)" "set (arrays us) \<inter> set (arrays rest) = {}"
    "distinct (arrays rest)"
    using pull nx arrays_append [of "take (length us) ws" "drop (length us) ws"]
    by (simp_all only: append_take_drop_id) (auto simp: disjoint_iff)
  have "entries rest ios (ib_sizes b) m1"
    using entries_drop [of ws ios "ib_sizes b" m1 "length us"] nx pull by simp
  then have "entries rest ios (ib_sizes b) ?m2"
    by (rule entries_mono) (simp_all add: length_scatter)
  then have "ready m' b'"
    using inv(3) parts(3) by (simp add: ready_def res)
  moreover have "a < ar_next m1" if "a \<in> set (arrays us)" for a
    using arrays_bound [of ws ios "ib_sizes b" m1 a] nx parts(1) that by blast
  moreover have "scatter (ar_mem m1) ios packet a = ar_mem m a \<and> a \<notin> set (arrays us) \<and> a \<notin> set (arrays rest)"
    if "a < ar_next m" "a \<notin> set (arrays (ib_views b))" for a
  proof -
    have "a \<notin> set (arrays ws)" using nx that by auto
    then show ?thesis
      using scatter_other [of ws ios "ib_sizes b" m1 a] nx parts(1) that(1) by auto
  qed
  ultimately show ?thesis
    using pull parts(2) nx by (simp add: res)
qed

end
