(* ===== verification/GvisorLink.thy ===== *)
theory GvisorLink
  imports GvisorBuffer
begin

text \<open>
  \<open>gvisor/dispatchers.go\<close> and \<open>gvisor/endpoint.go\<close>: the link endpoint under the gVisor stack.
  A dispatcher reads packets from the device and hands them to the stack; the endpoint
  starts and stops it, and writes the stack's packets.
\<close>

section \<open>The dispatcher\<close>

text \<open>What \<open>rawfile.BlockingReadvUntilStopped\<close> comes back with.\<close>

datatype read_result = Packet bytes | ReadStopped | ReadFailed

record delivered =
  dl_proto :: int
  dl_size :: nat
  dl_views :: "vview option list"

text \<open>
  \<open>dispatch\<close>: whether to go on, the packet delivered, and memory and vector.  \<open>version\<close> is
  \<open>header.IPVersion\<close> of the packet's first byte.
\<close>

definition dispatch_one :: "(bytes \<Rightarrow> int) \<Rightarrow> arena \<Rightarrow> iovecBuffer \<Rightarrow> read_result
    \<Rightarrow> bool \<times> delivered option \<times> arena \<times> iovecBuffer" where
  "dispatch_one version m b r =
     (let (m, b) = nextIovecs m b
      in case r of
           ReadStopped \<Rightarrow> (False, None, m, b)
         | ReadFailed \<Rightarrow> (False, None, m, b)
         | Packet p \<Rightarrow>
             (let (n, m) = readv m (ib_iovecs b) p
              in if n = 0 then (False, None, m, b)
                 else (let (vs, b) = pullViews b n;
                           h = take 1 (shown (ar_mem m) vs)
                       in if h = [] then (True, None, m, b)
                          else if version h = 4 \<or> version h = 6
                          then (True, Some \<lparr>dl_proto = version h, dl_size = n, dl_views = vs\<rparr>, m, b)
                          else (True, None, m, b))))"

text \<open>\<open>dispatchLoop\<close>: the packets delivered until a read is stopped or fails.\<close>

fun dispatch_loop :: "(bytes \<Rightarrow> int) \<Rightarrow> arena \<Rightarrow> iovecBuffer \<Rightarrow> read_result list \<Rightarrow> delivered list \<times> arena \<times> iovecBuffer" where
  "dispatch_loop version m b [] = ([], m, b)"
| "dispatch_loop version m b (r # rs) =
     (case dispatch_one version m b r of
        (False, d, m, b) \<Rightarrow> ([], m, b)
      | (True, d, m, b) \<Rightarrow>
          (let (ds, m, b) = dispatch_loop version m b rs
           in (case d of None \<Rightarrow> ds | Some x \<Rightarrow> x # ds, m, b)))"

text \<open>The abstract device: a list of packets, of which those of the two versions count.\<close>

definition ip_packets :: "(bytes \<Rightarrow> int) \<Rightarrow> bytes list \<Rightarrow> (int \<times> bytes) list" where
  "ip_packets version ps = map (\<lambda>p. (version (take 1 p), p)) (filter (\<lambda>p. version (take 1 p) = 4 \<or> version (take 1 p) = 6) ps)"

lemma dispatch_one_packet:
  assumes b: "ready m b" and p: "p \<noteq> []" "length p \<le> sum_list (ib_sizes b)"
  obtains vs m' b' where "read_packet m b p = (vs, length p, m', b')"
    and "dispatch_one version m b (Packet p) =
      (True, if version (take 1 p) = 4 \<or> version (take 1 p) = 6
             then Some \<lparr>dl_proto = version (take 1 p), dl_size = length p, dl_views = vs\<rparr> else None, m', b')"
proof -
  obtain vs n m' b' where r: "read_packet m b p = (vs, n, m', b')"
    by (cases "read_packet m b p") auto
  note sp = read_packet_spec [OF b p r]
  then have n: "n = length p" "shown (ar_mem m') vs = p" by simp_all
  with r p(1) that [of vs m' b'] show ?thesis
    by (auto simp: dispatch_one_def read_packet_def Let_def split: prod.splits)
qed

lemma dispatch_loop_refines:
  assumes "ready m b" and "\<forall>p \<in> set ps. p \<noteq> [] \<and> length p \<le> sum_list (ib_sizes b)"
    and "dispatch_loop version m b (map Packet ps @ [ReadStopped]) = (ds, m', b')"
  shows "map (\<lambda>d. (dl_proto d, shown (ar_mem m') (dl_views d))) ds = ip_packets version ps \<and> ar_next m \<le> ar_next m' \<and>
     (\<forall>a. a < ar_next m \<and> a \<notin> set (arrays (ib_views b)) \<longrightarrow> ar_mem m' a = ar_mem m a) \<and>
     (\<forall>d \<in> set ds. None \<notin> set (dl_views d) \<and> dl_size d = length (shown (ar_mem m') (dl_views d)))"
  using assms
proof (induction ps arbitrary: m b ds)
  case Nil
  obtain m1 ws ios where nl: "next_loop m (ib_sizes b) (ib_views b) (ib_iovecs b) = (m1, ws, ios)"
    by (cases "next_loop m (ib_sizes b) (ib_views b) (ib_iovecs b)") auto
  have "ar_next m \<le> ar_next m1" "\<forall>a. a < ar_next m \<longrightarrow> ar_mem m1 a = ar_mem m a"
    using next_loop_spec [OF _ _ nl] Nil(1) by (auto simp: ready_def)
  with Nil(3) nl show ?case
    by (auto simp: dispatch_one_def nextIovecs_def ip_packets_def)
next
  case (Cons p ps)
  have p: "p \<noteq> []" "length p \<le> sum_list (ib_sizes b)" using Cons.prems(2) by simp_all
  obtain vs m1 b1 where r: "read_packet m b p = (vs, length p, m1, b1)"
    and one: "dispatch_one version m b (Packet p) =
      (True, if version (take 1 p) = 4 \<or> version (take 1 p) = 6
             then Some \<lparr>dl_proto = version (take 1 p), dl_size = length p, dl_views = vs\<rparr> else None, m1, b1)"
    using dispatch_one_packet [OF Cons.prems(1) p, of version] by blast
  note sp = read_packet_spec [OF Cons.prems(1) p r]
  obtain ds' where loop: "dispatch_loop version m1 b1 (map Packet ps @ [ReadStopped]) = (ds', m', b')"
    and ds: "ds = (if version (take 1 p) = 4 \<or> version (take 1 p) = 6
             then \<lparr>dl_proto = version (take 1 p), dl_size = length p, dl_views = vs\<rparr> # ds' else ds')"
    using Cons.prems(3) one by (auto split: prod.splits)
  have IH: "map (\<lambda>d. (dl_proto d, shown (ar_mem m') (dl_views d))) ds' = ip_packets version ps \<and> ar_next m1 \<le> ar_next m' \<and>
     (\<forall>a. a < ar_next m1 \<and> a \<notin> set (arrays (ib_views b1)) \<longrightarrow> ar_mem m' a = ar_mem m1 a) \<and>
     (\<forall>d \<in> set ds'. None \<notin> set (dl_views d) \<and> dl_size d = length (shown (ar_mem m') (dl_views d)))"
    using sp Cons.prems(2) by (intro Cons.IH [OF _ _ loop]) auto
  have "shown (ar_mem m') vs = shown (ar_mem m1) vs"
    using IH sp by (intro shown_cong) (auto simp: disjoint_iff)
  then have "shown (ar_mem m') vs = p" using sp by simp
  moreover have "ar_mem m' a = ar_mem m a" if "a < ar_next m" "a \<notin> set (arrays (ib_views b))" for a
    using IH sp that by auto
  ultimately show ?case
    using IH sp ds by (auto simp: ip_packets_def)
qed

definition arena0 :: arena where
  "arena0 = \<lparr>ar_next = 0, ar_mem = (\<lambda>_. [])\<rparr>"

lemma ready_new: "\<forall>s \<in> set sizes. 0 < s \<Longrightarrow> ready m (newIovecBuffer sizes)"
proof -
  have "entries (replicate n None) (replicate n None) ss m" if "length ss = n" for n ss
    using that by (induction n arbitrary: ss) (auto simp: entry_def length_Suc_conv)
  then show "\<forall>s \<in> set sizes. 0 < s \<Longrightarrow> ready m (newIovecBuffer sizes)"
    by (simp add: ready_def newIovecBuffer_def)
qed

section \<open>The endpoint\<close>

text \<open>
  \<open>ep_signal\<close> is the counter of the event descriptor, \<open>ep_loops\<close> the goroutines the wait
  group counts.
\<close>

record 'd rwEndpoint =
  ep_mtu :: u32
  ep_signal :: nat
  ep_loops :: nat
  ep_dispatcher :: "'d option"

text \<open>
  \<open>newStopFd\<close> and \<open>newReadVDispatcher\<close>; \<open>eventfd\<close> is the descriptor the system gives, if it does.
  The flag of the first is its error.
\<close>

record readVDispatcher =
  rv_efd :: int
  rv_fd :: int
  rv_buf :: iovecBuffer

definition newStopFd :: "int option \<Rightarrow> int \<times> bool" where
  "newStopFd eventfd = (case eventfd of None \<Rightarrow> (- 1, True) | Some efd \<Rightarrow> (efd, False))"

definition newReadVDispatcher :: "int option \<Rightarrow> int \<Rightarrow> unit + readVDispatcher" where
  "newReadVDispatcher eventfd fd =
     (case newStopFd eventfd of
        (efd, True) \<Rightarrow> Inl ()
      | (efd, False) \<Rightarrow> Inr \<lparr>rv_efd = efd, rv_fd = fd, rv_buf = newIovecBuffer bufConfig\<rparr>)"

text \<open>\<open>newRwEndpoint\<close>; \<open>eventfd\<close> tells whether the event descriptor can be made.\<close>

definition newRwEndpoint :: "bool \<Rightarrow> int \<Rightarrow> unit + 'd rwEndpoint" where
  "newRwEndpoint eventfd mtu =
     (if eventfd then Inr \<lparr>ep_mtu = word_of_int mtu, ep_signal = 0, ep_loops = 0, ep_dispatcher = None\<rparr> else Inl ())"

text \<open>It fails exactly when its dispatcher cannot be made, and the dispatcher starts with a ready buffer.\<close>

lemma newRwEndpoint_dispatcher:
  "isl (newRwEndpoint (eventfd \<noteq> None) mtu) = isl (newReadVDispatcher eventfd fd)"
  "newReadVDispatcher eventfd fd = Inr d \<Longrightarrow> ready m (rv_buf d) \<and> rv_fd d = fd \<and> eventfd = Some (rv_efd d)"
  using ready_new [of bufConfig m]
  by (auto simp: newRwEndpoint_def newReadVDispatcher_def newStopFd_def bufConfig_def split: option.splits)

definition MTU :: "'d rwEndpoint \<Rightarrow> u32" where
  "MTU e = ep_mtu e"

text \<open>\<open>stop\<close> adds one to the counter, which cannot pass \<open>2^64 - 2\<close>: then the write fails and the code panics.\<close>

definition stop :: "'d rwEndpoint \<Rightarrow> 'd rwEndpoint go" where
  "stop e = (if ep_signal e + 1 < 2 ^ 64 - 1 then Some (e\<lparr>ep_signal := ep_signal e + 1\<rparr>) else panic)"

text \<open>
  \<open>Attach\<close>.  Detaching signals the loop, waits until it has ended and forgets the
  dispatcher; attaching starts a loop.
\<close>

definition Attach :: "'d option \<Rightarrow> 'd rwEndpoint \<Rightarrow> 'd rwEndpoint go" where
  "Attach d e =
     (if d = None \<and> ep_dispatcher e \<noteq> None then do {
        e \<leftarrow> stop e;
        Some (e\<lparr>ep_loops := 0, ep_dispatcher := None\<rparr>)
      } else if d \<noteq> None \<and> ep_dispatcher e = None
      then Some (e\<lparr>ep_dispatcher := d, ep_loops := ep_loops e + 1\<rparr>)
      else Some e)"

definition IsAttached :: "'d rwEndpoint \<Rightarrow> bool" where
  "IsAttached e \<longleftrightarrow> ep_dispatcher e \<noteq> None"

text \<open>A loop that ends on its own: the wait group goes down, the dispatcher stays.\<close>

definition loop_ended :: "'d rwEndpoint \<Rightarrow> 'd rwEndpoint" where
  "loop_ended e = e\<lparr>ep_loops := ep_loops e - 1\<rparr>"

text \<open>
  What the device offers over time: a packet, or nothing.  A read with nothing to take
  blocks, unless the signal is set: then it is stopped.
\<close>

fun offered :: "bool \<Rightarrow> bytes option list \<Rightarrow> read_result list" where
  "offered signal [] = []"
| "offered signal (Some p # xs) = Packet p # offered signal xs"
| "offered signal (None # xs) = (if signal then [ReadStopped] else offered signal xs)"

text \<open>At most one loop runs, and only under a dispatcher.\<close>

definition ep_inv :: "'d rwEndpoint \<Rightarrow> bool" where
  "ep_inv e \<longleftrightarrow> ep_loops e \<le> (if IsAttached e then 1 else 0)"

inductive ep_reachable :: "'d rwEndpoint \<Rightarrow> bool" where
  ep_new: "newRwEndpoint True mtu = Inr e \<Longrightarrow> ep_reachable e"
| ep_attach: "ep_reachable e \<Longrightarrow> Attach d e = Some e' \<Longrightarrow> ep_reachable e'"
| ep_ended: "ep_reachable e \<Longrightarrow> ep_reachable (loop_ended e)"

lemma Attach_inv: "ep_inv e \<Longrightarrow> Attach d e = Some e' \<Longrightarrow> ep_inv e'"
  by (auto simp: ep_inv_def Attach_def stop_def IsAttached_def split: if_splits)

lemma ep_reachable_inv: "ep_reachable e \<Longrightarrow> ep_inv e"
proof (induction rule: ep_reachable.induct)
  case (ep_new mtu e)
  then show ?case by (auto simp: newRwEndpoint_def ep_inv_def)
next
  case (ep_attach e d e')
  then show ?case by (blast intro: Attach_inv)
next
  case (ep_ended e)
  then show ?case by (auto simp: ep_inv_def loop_ended_def IsAttached_def split: if_splits)
qed

text \<open>The signal is never taken back.\<close>

lemma Attach_signal: "Attach d e = Some e' \<Longrightarrow> ep_signal e \<le> ep_signal e'"
  by (auto simp: Attach_def stop_def split: if_splits)

section \<open>Writing\<close>

text \<open>
  \<open>rawfile.AppendIovecFromBytes\<close> with the limit \<open>MaxIovs\<close>: a batch may merge what it is given,
  but keeps the bytes in order.
\<close>

locale iovec_batch =
  fixes append_iovec :: "'b \<Rightarrow> bytes \<Rightarrow> 'b" and gather :: "'b \<Rightarrow> bytes" and batch0 :: 'b
  assumes gather_empty: "gather batch0 = []"
    and gather_append: "gather (append_iovec b v) = gather b @ v"
begin

lemma gather_foldl: "gather (foldl append_iovec b vs) = gather b @ concat vs"
  by (induction vs arbitrary: b) (simp_all add: gather_append)

end

text \<open>
  \<open>WritePackets\<close>: the views of all packets go into one batch, and that into one write; \<open>write\<close>
  is \<open>rawfile.NonBlockingWriteIovec\<close>, which may fail.
\<close>

definition WritePackets :: "('b \<Rightarrow> bytes \<Rightarrow> 'b) \<Rightarrow> ('b \<Rightarrow> bytes) \<Rightarrow> 'b \<Rightarrow> (bytes \<Rightarrow> 'e option) \<Rightarrow> bytes list list \<Rightarrow> bytes \<times> nat \<times> 'e option" where
  "WritePackets append_iovec gather batch0 write pkts =
     (let batch = foldl (foldl append_iovec) batch0 pkts;
          err = write (gather batch)
      in (gather batch, if err = None then length pkts else 0, err))"

text \<open>The documented behaviour with a limit: the last vector takes what no longer fits.\<close>

definition append_limited :: "nat \<Rightarrow> bytes list \<Rightarrow> bytes \<Rightarrow> bytes list" where
  "append_limited maxIovs b v = (if length b < maxIovs \<or> b = [] then b @ [v] else butlast b @ [last b @ v])"

interpretation limited: iovec_batch "append_limited n" concat "[]"
proof
  show "concat (append_limited n b v) = concat b @ v" for b v
    by (cases b rule: rev_cases) (simp_all add: append_limited_def)
qed simp

section \<open>Properties\<close>

text \<open>
  C15.  The dispatcher refines a list of packets: packets of up to the 65664 bytes of the buffer
  vector are handed to the stack whole, in order and under the protocol of their version,
  others are skipped; and no later read overwrites what an earlier packet shows.
\<close>

theorem dispatcher_refines:
  assumes "\<forall>p \<in> set ps. p \<noteq> [] \<and> length p \<le> 65664"
    and "dispatch_loop version arena0 (newIovecBuffer bufConfig) (map Packet ps @ [ReadStopped]) = (ds, m, b)"
  shows "map (\<lambda>d. (dl_proto d, shown (ar_mem m) (dl_views d))) ds = ip_packets version ps \<and>
     (\<forall>d \<in> set ds. None \<notin> set (dl_views d) \<and> dl_size d = length (shown (ar_mem m) (dl_views d)))"
proof -
  have "ready arena0 (newIovecBuffer bufConfig)"
    by (rule ready_new) (simp add: bufConfig_def)
  moreover have "sum_list (ib_sizes (newIovecBuffer bufConfig)) = 65664"
    by (simp add: newIovecBuffer_def bufConfig_def)
  ultimately show ?thesis
    using dispatch_loop_refines [of arena0 "newIovecBuffer bufConfig" ps version ds m b] assms by simp
qed

theorem dispatcher_refines_witness:
  "\<exists>ds m b. dispatch_loop (\<lambda>h. 4) arena0 (newIovecBuffer bufConfig) (map Packet [[0x45, 1], replicate 200 7] @ [ReadStopped]) = (ds, m, b) \<and>
     map (\<lambda>d. shown (ar_mem m) (dl_views d)) ds = [[0x45, 1], replicate 200 7]"
proof -
  obtain ds m b where r: "dispatch_loop (\<lambda>h. 4) arena0 (newIovecBuffer bufConfig) (map Packet [[0x45, 1], replicate 200 7] @ [ReadStopped]) = (ds, m, b)"
    by (cases "dispatch_loop (\<lambda>h. 4) arena0 (newIovecBuffer bufConfig) (map Packet [[0x45, 1], replicate 200 7] @ [ReadStopped])") auto
  have "map (\<lambda>d. (dl_proto d, shown (ar_mem m) (dl_views d))) ds = ip_packets (\<lambda>h. 4) [[0x45, 1], replicate 200 7]"
    using dispatcher_refines [OF _ r] by simp
  from arg_cong [OF this, of "map snd"] r show ?thesis
    by (auto simp: ip_packets_def comp_def)
qed

text \<open>
  C29.  At most one goroutine reads from the device, and none without a dispatcher, whatever the
  order of attaching, detaching and loops that end on their own.
\<close>

theorem one_read_loop:
  assumes "ep_reachable e"
  shows "ep_loops e \<le> 1 \<and> (ep_loops e = 1 \<longrightarrow> IsAttached e)"
  using ep_reachable_inv [OF assms] by (auto simp: ep_inv_def split: if_splits)

theorem one_read_loop_witness:
  "\<exists>e. ep_reachable (e :: nat rwEndpoint) \<and> ep_loops e = 1 \<and> IsAttached e"
proof -
  obtain e0 where e0: "newRwEndpoint True 1500 = Inr (e0 :: nat rwEndpoint)" "ep_dispatcher e0 = None" "ep_loops e0 = 0"
    by (simp add: newRwEndpoint_def)
  let ?e = "e0\<lparr>ep_dispatcher := Some 7, ep_loops := 1\<rparr>"
  have r: "ep_reachable ?e"
    by (rule ep_attach [OF ep_new [OF e0(1)], of "Some 7"]) (simp add: Attach_def e0)
  from one_read_loop [OF r] show ?thesis
    using r by (intro exI [of _ ?e]) simp
qed

text \<open>
  An endpoint that was detached and is attached again counts as attached, but its loop ends
  at the first moment the device has nothing to read: the stop signal is still set.  A loop
  under a fresh endpoint goes on reading.
\<close>

theorem reattached_endpoint_stops_when_idle:
  assumes "Attach (Some d) e = Some e1" and "Attach None e1 = Some e2" and "Attach (Some d) e2 = Some e3"
  shows "IsAttached e3 \<and> 0 < ep_signal e3 \<and>
     offered (0 < ep_signal e3) (map Some ps @ None # map Some qs) = map Packet ps @ [ReadStopped] \<and>
     offered False (map Some ps @ None # map Some qs) = map Packet (ps @ qs)"
proof -
  have "IsAttached e1" using assms(1) by (auto simp: Attach_def IsAttached_def split: if_splits)
  then have "0 < ep_signal e2" using assms(2) by (auto simp: Attach_def stop_def IsAttached_def split: if_splits)
  then have s: "0 < ep_signal e3" using Attach_signal [OF assms(3)] by simp
  have "offered b (map Some xs) = map Packet xs" for b xs
    by (induction xs) simp_all
  then have "offered b (map Some ps @ None # map Some qs) = map Packet ps @ (if b then [ReadStopped] else map Packet qs)" for b
    by (induction ps) simp_all
  moreover have "IsAttached e3" using assms(3) by (auto simp: Attach_def IsAttached_def split: if_splits)
  ultimately show ?thesis using s by simp
qed

theorem reattached_endpoint_stops_when_idle_witness:
  "\<exists>e1 e2 e3. Attach (Some (7 :: nat)) \<lparr>ep_mtu = 1500, ep_signal = 0, ep_loops = 0, ep_dispatcher = None\<rparr> = Some e1 \<and>
     Attach None e1 = Some e2 \<and> Attach (Some 7) e2 = Some e3 \<and> IsAttached e3 \<and>
     offered (0 < ep_signal e3) [None, Some [1]] = [ReadStopped]"
proof -
  let ?e = "\<lparr>ep_mtu = 1500, ep_signal = 0, ep_loops = 0, ep_dispatcher = None\<rparr> :: nat rwEndpoint"
  obtain e1 e2 e3 where e: "Attach (Some 7) ?e = Some e1" "Attach None e1 = Some e2" "Attach (Some 7) e2 = Some e3"
    by (simp add: Attach_def stop_def)
  from reattached_endpoint_stops_when_idle [OF e, of "[]" "[[1]]"] e show ?thesis by auto
qed

text \<open>
  \<open>WritePackets\<close> makes one write of all its packets: several packets reach the device as one
  frame, the concatenation, and all of them are reported as written.
\<close>

theorem packets_written_as_one_frame:
  assumes "iovec_batch append_iovec gather batch0" and "WritePackets append_iovec gather batch0 wr pkts = (frame, n, err)"
  shows "frame = concat (concat pkts) \<and> err = wr frame \<and> n = (if err = None then length pkts else 0)"
proof -
  have "gather (foldl (foldl append_iovec) b pkts) = gather b @ concat (concat pkts)" for b
    by (induction pkts arbitrary: b) (simp_all add: iovec_batch.gather_foldl [OF assms(1)])
  then show ?thesis
    using assms(2) iovec_batch.gather_empty [OF assms(1)] by (auto simp: WritePackets_def Let_def)
qed

theorem packets_written_as_one_frame_witness:
  "WritePackets (append_limited 2) concat [] (\<lambda>_. None :: nat option) [[[1, 2], [3]], [[4], [5]]] = ([1, 2, 3, 4, 5], 2, None)"
proof -
  obtain f n e where r: "WritePackets (append_limited 2) concat [] (\<lambda>_. None :: nat option) [[[1, 2], [3]], [[4], [5]]] = (f, n, e)"
    by (cases "WritePackets (append_limited 2) concat [] (\<lambda>_. None :: nat option) [[[1, 2], [3]], [[4], [5]]]") auto
  from packets_written_as_one_frame [OF limited.iovec_batch_axioms r] r show ?thesis by simp
qed

end
