(* ===== verification/GvisorStack.thy ===== *)
theory GvisorStack
  imports GvisorIcmp GvisorLink GoStrings
begin

text \<open>
  \<open>gvisor/udp.go\<close>, \<open>gvisor/tcp.go\<close> and \<open>gvisor/gvisor.go\<close>: the handlers of UDP and TCP under
  the gVisor stack, the datagrams written back, and the making of the stack.
\<close>

section \<open>End points\<close>

text \<open>
  \<open>stack.TransportEndpointID\<close>; \<open>text_of\<close> is \<open>tcpip.Address.String\<close> and \<open>parse\<close> is
  \<open>v2rayNet.ParseDestination\<close>.
\<close>

record endpoint_id =
  id_remote_address :: bytes
  id_remote_port :: u16
  id_local_address :: bytes
  id_local_port :: u16

definition dest_text :: "string \<Rightarrow> (bytes \<Rightarrow> string) \<Rightarrow> bytes \<Rightarrow> u16 \<Rightarrow> string" where
  "dest_text network text_of a port = network @ '':'' @ join_host_port (text_of a) (itoa (int (unat port)))"

section \<open>UDP\<close>

text \<open>
  \<open>gUdpHandler\<close>.  A flow carries the address answers come from by default, whose making
  panics on a destination that is no IP address.  The result of the handler is always
  \<open>true\<close>, the packet is consumed.
\<close>

datatype gudp_result =
    GMalformed
  | GBadSource
  | GBadDestination
  | GUdpFlow destination destination bytes "bytes \<times> u16"

definition gUdpHandler :: "udp_ops \<Rightarrow> (bytes \<Rightarrow> string) \<Rightarrow> (string \<Rightarrow> 'e + destination) \<Rightarrow> endpoint_id \<Rightarrow> bytes \<Rightarrow> bytes
    \<Rightarrow> gudp_result go" where
  "gUdpHandler U text_of parse i hdr data = do {
     n \<leftarrow> udp_length U hdr;
     if length data + UDPMinimumSize < unat n then Some GMalformed
     else (case parse (dest_text ''udp'' text_of (id_remote_address i) (id_remote_port i)) of
             Inl _ \<Rightarrow> Some GBadSource
           | Inr src \<Rightarrow>
               (case parse (dest_text ''udp'' text_of (id_local_address i) (id_local_port i)) of
                  Inl _ \<Rightarrow> Some GBadDestination
                | Inr dst \<Rightarrow> do {
                    ip \<leftarrow> addr_ip (dst_address dst);
                    Some (GUdpFlow src dst data (ip, dst_port dst))
                  }))
   }"

text \<open>
  A route of the stack: what the code asks it for, and its \<open>WritePacket\<close> over the transport
  segment.  \<open>udp_encode\<close> is \<open>header.UDP.Encode\<close> on a new header.
\<close>

record 'e route =
  rt_local :: bytes
  rt_remote :: bytes
  rt_ipv6 :: bool
  rt_needs_checksum :: bool
  rt_write :: "bytes \<Rightarrow> 'e option"

definition gSendUDP :: "(u16 \<Rightarrow> u16 \<Rightarrow> u16 \<Rightarrow> bytes go) \<Rightarrow> udp_ops \<Rightarrow> csum_ops \<Rightarrow> 'e route \<Rightarrow> bytes \<Rightarrow> u16 \<Rightarrow> u16 \<Rightarrow> (bytes \<times> 'e option) go" where
  "gSendUDP udp_encode U C r data localPort remotePort = do {
     let len = word_of_nat (UDPMinimumSize + length data);
     h \<leftarrow> udp_encode localPort remotePort len;
     h \<leftarrow> (if rt_needs_checksum r \<and> rt_ipv6 r then do {
             let xsum = cs_checksum C data (cs_pseudo C UDPProtocolNumber (rt_local r) (rt_remote r) len);
             c \<leftarrow> udp_calculate_checksum U h xsum;
             udp_set_checksum U (NOT c) h
           } else Some h);
     let sg = h @ data;
     Some (sg, rt_write r sg)
   }"

text \<open>
  \<open>WriteBack\<close>: too long, no route, a failed write, or the number of bytes.  The header's
  addresses are \<open>netHdr\<close>'s.
\<close>

definition UDPMaximumPacketSize :: nat where "UDPMaximumPacketSize = 65535"

datatype 'e write_back = TooLong | NoRoute 'e | WriteFailed bytes 'e | Written bytes nat

definition WriteBack :: "(u16 \<Rightarrow> u16 \<Rightarrow> u16 \<Rightarrow> bytes go) \<Rightarrow> udp_ops \<Rightarrow> csum_ops \<Rightarrow> (bytes \<Rightarrow> bytes \<Rightarrow> 'e + 'e route) \<Rightarrow> bytes \<Rightarrow> bytes
    \<Rightarrow> endpoint_id \<Rightarrow> bytes \<Rightarrow> (bytes \<times> int) option \<Rightarrow> 'e write_back go" where
  "WriteBack udp_encode U C find_route netSrc netDst i b addr =
     (if UDPMaximumPacketSize < length b then Some TooLong
      else (let (localAddress, localPort) =
                  (case addr of None \<Rightarrow> (netDst, id_local_port i) | Some (ip, port) \<Rightarrow> (ip, uint16_of port))
            in case find_route localAddress netSrc of
                 Inl e \<Rightarrow> Some (NoRoute e)
               | Inr r \<Rightarrow> do {
                   (sg, err) \<leftarrow> gSendUDP udp_encode U C r b localPort (id_remote_port i);
                   Some (case err of Some e \<Rightarrow> WriteFailed sg e | None \<Rightarrow> Written sg (length b))
                 }))"

text \<open>A new header holds what was encoded, and no checksum.\<close>

locale udp_encoder = udp_header U uvalid
  for U :: udp_ops and uvalid +
  fixes udp_encode :: "u16 \<Rightarrow> u16 \<Rightarrow> u16 \<Rightarrow> bytes go"
  assumes encode: "\<exists>h. udp_encode s d n = Some h \<and> uvalid h \<and> length h = UDPMinimumSize \<and>
      udp_source_port U h = Some s \<and> udp_destination_port U h = Some d \<and> udp_length U h = Some n \<and>
      udp_set_checksum U 0 h = Some h"
begin

lemma send_udp:
  shows "\<exists>h. gSendUDP udp_encode U C r data s d = Some (h @ data, rt_write r (h @ data)) \<and> length h = UDPMinimumSize \<and>
     udp_source_port U h = Some s \<and> udp_destination_port U h = Some d \<and>
     udp_length U h = Some (word_of_nat (UDPMinimumSize + length data)) \<and>
     (rt_needs_checksum r \<longrightarrow> rt_ipv6 r \<longrightarrow> udp_ok U C (rt_local r, s) (rt_remote r, d) data h) \<and>
     (\<not> rt_ipv6 r \<longrightarrow> udp_set_checksum U 0 h = Some h)"
proof -
  let ?n = "word_of_nat (UDPMinimumSize + length data) :: u16"
  let ?x = "cs_checksum C data (cs_pseudo C UDPProtocolNumber (rt_local r) (rt_remote r) ?n)"
  obtain h where h: "udp_encode s d ?n = Some h" "uvalid h" "length h = UDPMinimumSize" "udp_source_port U h = Some s"
    "udp_destination_port U h = Some d" "udp_length U h = Some ?n" "udp_set_checksum U 0 h = Some h"
    using encode [of s d ?n] by blast
  obtain c where c: "udp_calculate_checksum U h ?x = Some c"
    using udp_calculate [OF h(2)] by blast
  obtain q where q: "udp_set_checksum U (NOT c) h = Some q" "uvalid q" "length q = length h" "udp_length U q = udp_length U h"
    "udp_source_port U q = udp_source_port U h" "udp_destination_port U q = udp_destination_port U h"
    using set_udp_checksum [OF h(2), of "NOT c"] by blast
  have "udp_calculate_checksum U q ?x = Some 0xFFFF"
    using udp_calculate_set [OF h(2,7) q(1) c] by (simp add: ocadd_NOT)
  then have ok: "udp_ok U C (rt_local r, s) (rt_remote r, d) data q"
    using q h by (simp add: udp_ok_def del: of_nat_add)
  show ?thesis
  proof (cases "rt_needs_checksum r \<and> rt_ipv6 r")
    case True
    then show ?thesis using h c q ok by (simp add: gSendUDP_def Let_def del: of_nat_add)
  next
    case False
    then show ?thesis using h by (auto simp: gSendUDP_def Let_def simp del: of_nat_add)
  qed
qed

end

definition rfc768_encode :: "u16 \<Rightarrow> u16 \<Rightarrow> u16 \<Rightarrow> bytes go" where
  "rfc768_encode s d n = Some (put_be16 s @ put_be16 d @ put_be16 n @ [0, 0])"

interpretation rfc_encoder: udp_encoder rfc768 u8_valid rfc768_encode
proof
  show "\<exists>h. rfc768_encode s d n = Some h \<and> u8_valid h \<and> length h = UDPMinimumSize \<and>
      udp_source_port rfc768 h = Some s \<and> udp_destination_port rfc768 h = Some d \<and> udp_length rfc768 h = Some n \<and>
      udp_set_checksum rfc768 0 h = Some h" for s d n
    by (simp add: rfc768_encode_def put_be16_def u8_valid_def UDPMinimumSize_def get16_def get_at_def be16_put_be16 put16_def put_at_def)
qed

section \<open>TCP\<close>

text \<open>
  The forwarder's handler of \<open>gTcpHandler\<close>: the calls it makes on the request (\<open>CreateEndpoint\<close>,
  whose error is \<open>create\<close>, and \<open>Complete\<close>), and what becomes of the connection.  A connection
  whose addresses do not parse is neither handed on nor closed.
\<close>

datatype tcp_event = Completed bool | TcpHanded destination destination | TcpDropped

definition gTcpRequest :: "(bytes \<Rightarrow> string) \<Rightarrow> (string \<Rightarrow> 'e + destination) \<Rightarrow> 'e option \<Rightarrow> endpoint_id \<Rightarrow> tcp_event list" where
  "gTcpRequest text_of parse create i =
     (case create of
        Some e \<Rightarrow> [Completed True]
      | None \<Rightarrow>
          Completed False #
          (case parse (dest_text ''tcp'' text_of (id_remote_address i) (id_remote_port i)) of
             Inl _ \<Rightarrow> [TcpDropped]
           | Inr src \<Rightarrow>
               (case parse (dest_text ''tcp'' text_of (id_local_address i) (id_local_port i)) of
                  Inl _ \<Rightarrow> [TcpDropped]
                | Inr dst \<Rightarrow> [TcpHanded src dst])))"

section \<open>The stack\<close>

datatype net_protocol = Ipv4 | Ipv6
datatype transport_protocol = Tcp | Udp | Icmp4 | Icmp6

record stack_options =
  so_network :: "net_protocol list"
  so_transport :: "transport_protocol list"

definition stack_options_for :: "int \<Rightarrow> stack_options" where
  "stack_options_for ipv6Mode =
     (if ipv6Mode = IPv6Disable then \<lparr>so_network = [Ipv4], so_transport = [Tcp, Udp, Icmp4]\<rparr>
      else if ipv6Mode = IPv6Only then \<lparr>so_network = [Ipv6], so_transport = [Tcp, Udp, Icmp6]\<rparr>
      else \<lparr>so_network = [Ipv4, Ipv6], so_transport = [Tcp, Udp, Icmp4, Icmp6]\<rparr>)"

text \<open>
  \<open>New\<close>: the error of \<open>newRwEndpoint\<close> is thrown away, and with it the endpoint (\<open>None\<close> is the nil
  pointer in the interface); the sniffer's error is returned; an error of the three calls
  that set the NIC up, which \<open>nic\<close> stands for, is a panic (\<open>gMust\<close>).  \<open>nic\<close> is itself partial,
  because the stack calls the endpoint's methods.
\<close>

definition gvisor_new :: "bool \<Rightarrow> int \<Rightarrow> bool \<Rightarrow> 'e option \<Rightarrow> ('d rwEndpoint option \<Rightarrow> 'e option go) \<Rightarrow> int
    \<Rightarrow> ('e + stack_options) go" where
  "gvisor_new eventfd mtu pcap sniffer nic ipv6Mode =
     (let e = (case newRwEndpoint eventfd mtu of Inl _ \<Rightarrow> None | Inr e \<Rightarrow> Some e)
      in case (if pcap then sniffer else None) of
           Some err \<Rightarrow> Some (Inl err)
         | None \<Rightarrow> do {
             err \<leftarrow> nic e;
             if err \<noteq> None then panic else Some (Inr (stack_options_for ipv6Mode))
           })"

text \<open>
  \<open>CreateNIC\<close> attaches the endpoint to the stack (\<open>d\<close>); on the nil pointer \<open>Attach\<close> panics
  where it reads the dispatcher.
\<close>

definition create_nic :: "'d \<Rightarrow> 'd rwEndpoint option \<Rightarrow> 'e option go" where
  "create_nic d e = (case e of None \<Rightarrow> panic | Some e \<Rightarrow> do { _ \<leftarrow> Attach (Some d) e; Some None })"

text \<open>
  \<open>Close\<close> of the stack and of a TCP connection, as the calls they make, and the writer of the
  capture file, which reports a short or failed write as a success.
\<close>

datatype close_event = CloseStack | ClosePcapFile | CloseEndpoint | ExpireDeadline | CloseTCPConn

definition gvisor_Close :: "bool \<Rightarrow> close_event list" where
  "gvisor_Close has_pcap_file = CloseStack # (if has_pcap_file then [ClosePcapFile] else [])"

definition gTcpConn_Close :: "close_event list" where
  "gTcpConn_Close = [CloseEndpoint, ExpireDeadline, CloseTCPConn]"

definition pcap_Write :: "(bytes \<Rightarrow> nat \<times> 'e option) \<Rightarrow> bytes \<Rightarrow> nat \<times> 'e option" where
  "pcap_Write write p = (fst (write p), None)"

section \<open>Properties\<close>

text \<open>
  A datagram written back through the gVisor stack: from the named address, or the
  original destination, to the client's port; over IPv6 its checksum verifies, over IPv4 it
  has none.  The length field is right up to 65527 bytes of payload.
\<close>

theorem written_datagram:
  assumes "udp_encoder U uvalid udp_encode" and "length b \<le> 65527"
    and "find_route (case addr of None \<Rightarrow> netDst | Some (ip, port) \<Rightarrow> ip) netSrc = Inr r" and "\<And>s. rt_write r s = None"
  shows "\<exists>h s. WriteBack udp_encode U C find_route netSrc netDst i b addr = Some (Written (h @ b) (length b)) \<and>
     s = (case addr of None \<Rightarrow> id_local_port i | Some (ip, port) \<Rightarrow> uint16_of port) \<and> length h = 8 \<and>
     udp_source_port U h = Some s \<and> udp_destination_port U h = Some (id_remote_port i) \<and>
     map_option unat (udp_length U h) = Some (length (h @ b)) \<and>
     (rt_needs_checksum r \<longrightarrow> rt_ipv6 r \<longrightarrow> udp_ok U C (rt_local r, s) (rt_remote r, id_remote_port i) b h) \<and>
     (\<not> rt_ipv6 r \<longrightarrow> udp_set_checksum U 0 h = Some h)"
proof -
  let ?s = "case addr of None \<Rightarrow> id_local_port i | Some (ip, port) \<Rightarrow> uint16_of port"
  obtain h where h: "gSendUDP udp_encode U C r b ?s (id_remote_port i) = Some (h @ b, rt_write r (h @ b))" "length h = UDPMinimumSize"
     "udp_source_port U h = Some ?s" "udp_destination_port U h = Some (id_remote_port i)"
     "udp_length U h = Some (word_of_nat (UDPMinimumSize + length b))"
     "rt_needs_checksum r \<longrightarrow> rt_ipv6 r \<longrightarrow> udp_ok U C (rt_local r, ?s) (rt_remote r, id_remote_port i) b h"
     "\<not> rt_ipv6 r \<longrightarrow> udp_set_checksum U 0 h = Some h"
    using udp_encoder.send_udp [OF assms(1), of C r b ?s "id_remote_port i"] by blast
  have "unat (word_of_nat (UDPMinimumSize + length b) :: u16) = length (h @ b)"
    using assms(2) h(2) by (simp add: unat_of_nat UDPMinimumSize_def del: of_nat_add)
  moreover have "WriteBack udp_encode U C find_route netSrc netDst i b addr = Some (Written (h @ b) (length b))"
    using assms(2-4) h(1) by (cases addr) (auto simp: WriteBack_def UDPMaximumPacketSize_def)
  ultimately show ?thesis
    using h by (intro exI [of _ h] exI [of _ ?s]) (simp add: UDPMinimumSize_def del: of_nat_add)
qed

definition test_route :: "nat route" where
  "test_route = \<lparr>rt_local = [8, 8, 8, 8], rt_remote = [10, 0, 0, 2], rt_ipv6 = False, rt_needs_checksum = True, rt_write = (\<lambda>_. None)\<rparr>"

definition test_id :: endpoint_id where
  "test_id = \<lparr>id_remote_address = [10, 0, 0, 2], id_remote_port = 5000, id_local_address = [8, 8, 8, 8], id_local_port = 53\<rparr>"

theorem written_datagram_witness:
  "\<exists>h. WriteBack rfc768_encode rfc768 rfc1071 (\<lambda>_ _. Inr test_route) [10, 0, 0, 2] [8, 8, 8, 8] test_id [1, 2, 3] None
      = Some (Written (h @ [1, 2, 3]) 3) \<and> udp_source_port rfc768 h = Some 53 \<and> map_option unat (udp_length rfc768 h) = Some 11"
proof -
  have "length [1, 2, 3 :: byte] \<le> 65527" "\<And>s. rt_write test_route s = None" "id_local_port test_id = 53"
    by (simp_all add: test_route_def test_id_def)
  with written_datagram [where find_route = "\<lambda>_ _. Inr test_route" and addr = None and netDst = "[8, 8, 8, 8]" and netSrc = "[10, 0, 0, 2]"
      and C = rfc1071 and i = test_id, OF rfc_encoder.udp_encoder_axioms this(1) _ this(2)]
  show ?thesis by auto
qed



text \<open>
  When the event descriptor cannot be made, \<open>New\<close> does not return the error: it goes on with
  the nil endpoint and panics when the stack attaches it.
\<close>

theorem endpoint_error_is_lost:
  "gvisor_new False mtu False sniffer (create_nic d) mode = panic \<and>
   (\<exists>options. gvisor_new True mtu False sniffer (create_nic d) mode = Some (Inr options))"
  by (simp_all add: gvisor_new_def newRwEndpoint_def create_nic_def Attach_def)

end
