(* ===== verification/UdpPathGvisor.thy ===== *)
theory UdpPathGvisor
  imports UdpPath GvisorStack
begin

text \<open>
  A UDP session under the gVisor stack: \<open>gUdpHandler\<close> hands the datagram on, the core gets its
  bytes, and the answers go back through \<open>WriteBack\<close>, whose errors end the relay.
\<close>

definition gvisor_writer :: "(u16 \<Rightarrow> u16 \<Rightarrow> u16 \<Rightarrow> bytes go) \<Rightarrow> udp_ops \<Rightarrow> csum_ops \<Rightarrow> (bytes \<Rightarrow> bytes \<Rightarrow> 'e + 'e route) \<Rightarrow> bytes \<Rightarrow> bytes
    \<Rightarrow> endpoint_id \<Rightarrow> bytes \<times> u16 \<Rightarrow> bytes writer" where
  "gvisor_writer udp_encode U C find_route netSrc netDst i d payload addr =
     map_option (\<lambda>w. case w of Written sg n \<Rightarrow> ([sg], False) | _ \<Rightarrow> ([], True))
       (WriteBack udp_encode U C find_route netSrc netDst i payload
          (case addr of None \<Rightarrow> Some (fst d, uint (snd d)) | Some a \<Rightarrow> Some a))"

text \<open>The result is \<open>None\<close> inside when the handler drops the datagram.\<close>

definition gvisor_udp_session :: "(u16 \<Rightarrow> u16 \<Rightarrow> u16 \<Rightarrow> bytes go) \<Rightarrow> udp_ops \<Rightarrow> csum_ops \<Rightarrow> (bytes \<Rightarrow> bytes \<Rightarrow> 'e + 'e route) \<Rightarrow> bytes \<Rightarrow> bytes
    \<Rightarrow> (bytes \<Rightarrow> string) \<Rightarrow> (string \<Rightarrow> 'p + destination) \<Rightarrow> bool \<Rightarrow> (nat \<Rightarrow> bool) \<Rightarrow> endpoint_id \<Rightarrow> bytes \<Rightarrow> bytes \<Rightarrow> (bool \<times> buffer) list
    \<Rightarrow> (buffer list \<times> bytes list \<times> loop_end) option go" where
  "gvisor_udp_session udp_encode U C find_route netSrc netDst text_of parse isDns picks i hdr data answers = do {
     r \<leftarrow> gUdpHandler U text_of parse i hdr data;
     (case r of
        GUdpFlow src dst payload d \<Rightarrow>
          map_option Some (session_through (gvisor_writer udp_encode U C find_route netSrc netDst i d) isDns picks dst payload answers)
      | _ \<Rightarrow> Some None)
   }"

text \<open>What the stack is to write for an answer: a segment from \<open>peer\<close> over the route there.\<close>

definition segment_for :: "udp_ops \<Rightarrow> csum_ops \<Rightarrow> (bytes \<Rightarrow> bytes \<Rightarrow> 'e + 'e route) \<Rightarrow> bytes \<Rightarrow> u16 \<Rightarrow> bytes \<times> u16 \<Rightarrow> bytes \<Rightarrow> bytes \<Rightarrow> bool" where
  "segment_for U C find_route netSrc client_port peer payload sg \<longleftrightarrow>
     (\<exists>h r. sg = h @ payload \<and> length h = 8 \<and> find_route (fst peer) netSrc = Inr r \<and>
        udp_source_port U h = Some (snd peer) \<and> udp_destination_port U h = Some client_port \<and>
        map_option unat (udp_length U h) = Some (length sg) \<and>
        (rt_needs_checksum r \<longrightarrow> rt_ipv6 r \<longrightarrow> udp_ok U C (rt_local r, snd peer) (rt_remote r, client_port) payload h))"

lemma writer_delivers:
  assumes "udp_encoder U uvalid udp_encode" and "length payload \<le> 65527"
    and "find_route ip netSrc = Inr r" and "\<And>s. rt_write r s = None"
    and "(case addr of None \<Rightarrow> Some (fst d, uint (snd d)) | Some a \<Rightarrow> Some a) = Some (ip, uint port)"
  shows "\<exists>sg. gvisor_writer udp_encode U C find_route netSrc netDst i d payload addr = Some ([sg], False) \<and>
     segment_for U C find_route netSrc (id_remote_port i) (ip, port) payload sg"
proof -
  obtain h where h: "gSendUDP udp_encode U C r payload port (id_remote_port i) = Some (h @ payload, rt_write r (h @ payload))"
     "length h = UDPMinimumSize" "udp_source_port U h = Some port" "udp_destination_port U h = Some (id_remote_port i)"
     "udp_length U h = Some (word_of_nat (UDPMinimumSize + length payload))"
     "rt_needs_checksum r \<longrightarrow> rt_ipv6 r \<longrightarrow> udp_ok U C (rt_local r, port) (rt_remote r, id_remote_port i) payload h"
    using udp_encoder.send_udp [OF assms(1), of C r payload port "id_remote_port i"] by blast
  have "unat (word_of_nat (UDPMinimumSize + length payload) :: u16) = length (h @ payload)"
    using assms(2) h(2) by (simp add: unat_of_nat UDPMinimumSize_def del: of_nat_add)
  then have "segment_for U C find_route netSrc (id_remote_port i) (ip, port) payload (h @ payload)"
    using h assms(3) unfolding segment_for_def by (intro exI [of _ h] exI [of _ r]) (simp add: UDPMinimumSize_def del: of_nat_add)
  moreover have "WriteBack udp_encode U C find_route netSrc netDst i payload (Some (ip, uint port)) = Some (Written (h @ payload) (length payload))"
    using assms(2-4) h(1) by (simp add: WriteBack_def UDPMaximumPacketSize_def)
  ultimately show ?thesis
    using assms(5) by (simp add: gvisor_writer_def)
qed

text \<open>Answers the stack can send: not empty, short enough, from a domain, an IP address or the dialled server.\<close>

definition sendable :: "buffer \<Rightarrow> bool" where
  "sendable b \<longleftrightarrow> bf_bytes b \<noteq> [] \<and> length (bf_bytes b) \<le> 65527 \<and>
     (case bf_endpoint b of
        None \<Rightarrow> True
      | Some e \<Rightarrow> addr_family (dst_address e) = FamilyDomain \<or> addr_ip (dst_address e) \<noteq> None)"

lemma answer_end_point:
  assumes "sendable b" "addr_ip (dst_address dest) = Some ip" "addr_family (dst_address dest) \<noteq> FamilyDomain"
  shows "fst (udp_source (queued dest b)) \<noteq> None"
    "(case relay_addr isDns (queued dest b) of None \<Rightarrow> Some (fst (ip, dst_port dest), uint (snd (ip, dst_port dest))) | Some a \<Rightarrow> Some a)
      = Some (fst (answer_peer isDns (ip, dst_port dest) b), uint (snd (answer_peer isDns (ip, dst_port dest) b)))"
  using assms
  by (auto simp: sendable_def packet_of_def new_conn_def udp_source_def relay_addr_def answer_peer_def AnyIP_def Let_def split: option.splits)

text \<open>
  C12.  A UDP session under the gVisor stack: a well-formed datagram reaches the core with its
  destination, and every answer of up to sixteen queued ones is sent, in order, from its end
  point (or the dialled server's) to the client's port, with the right length and, where the
  route asks for one over IPv6, a checksum that verifies.
\<close>

theorem gvisor_session_delivers:
  assumes "udp_encoder U uvalid udp_encode"
    and "udp_length U hdr = Some n" and "unat n \<le> length data + 8"
    and "parse (dest_text ''udp'' text_of (id_remote_address i) (id_remote_port i)) = Inr src"
    and "parse (dest_text ''udp'' text_of (id_local_address i) (id_local_port i)) = Inr dst"
    and "addr_ip (dst_address dst) = Some ip" and "addr_family (dst_address dst) \<noteq> FamilyDomain"
    and "length answers \<le> 16" and "\<forall>b \<in> set answers. sendable (snd b)"
    and "\<forall>b \<in> set answers. \<exists>r. find_route (fst (answer_peer isDns (ip, dst_port dst) (snd b))) netSrc = Inr r \<and> (\<forall>s. rt_write r s = None)"
  shows "\<exists>sgs. gvisor_udp_session udp_encode U C find_route netSrc netDst text_of parse isDns picks i hdr data answers =
      Some (Some ([\<lparr>bf_bytes = data, bf_endpoint = Some dst\<rparr>], sgs, Stuck)) \<and>
     list_all2 (\<lambda>b sg. segment_for U C find_route netSrc (id_remote_port i) (answer_peer isDns (ip, dst_port dst) (snd b)) (bf_bytes (snd b)) sg)
       answers sgs"
proof -
  let ?d = "(ip, dst_port dst)"
  let ?w = "gvisor_writer udp_encode U C find_route netSrc netDst i ?d"
  let ?R = "\<lambda>b sg. segment_for U C find_route netSrc (id_remote_port i) (answer_peer isDns ?d (snd b)) (bf_bytes (snd b)) sg"
  have handler: "gUdpHandler U text_of parse i hdr data = Some (GUdpFlow src dst data ?d)"
    using assms(2-6) by (simp add: gUdpHandler_def UDPMinimumSize_def)
  have sent: "bf_bytes (snd b) \<noteq> [] \<and> fst (udp_source (queued dst (snd b))) \<noteq> None \<and>
      (\<exists>sg. ?w (bf_bytes (snd b)) (relay_addr isDns (queued dst (snd b))) = Some ([sg], False) \<and> ?R b sg)"
    if b: "b \<in> set answers" for b
  proof -
    have ok: "sendable (snd b)" using assms(9) b by blast
    obtain r where r: "find_route (fst (answer_peer isDns ?d (snd b))) netSrc = Inr r" "\<And>s. rt_write r s = None"
      using assms(10) b by blast
    note peer = answer_end_point [OF ok assms(6,7)]
    have "length (bf_bytes (snd b)) \<le> 65527" using ok by (simp add: sendable_def)
    from writer_delivers [where C = C and netDst = netDst and i = i and payload = "bf_bytes (snd b)" and d = ?d
        and addr = "relay_addr isDns (queued dst (snd b))" and ip = "fst (answer_peer isDns ?d (snd b))"
        and port = "snd (answer_peer isDns ?d (snd b))" and find_route = find_route and netSrc = netSrc and r = r,
        OF assms(1) this r peer(2)] show ?thesis
      using ok peer(1) by (simp add: sendable_def)
  qed
  have "\<exists>sgs. session_through ?w isDns picks dst data answers = Some ([\<lparr>bf_bytes = data, bf_endpoint = Some dst\<rparr>], sgs, Stuck) \<and>
     list_all2 ?R answers sgs"
    by (rule session_through_delivers [OF assms(8) sent])
  then show ?thesis
    by (auto simp: gvisor_udp_session_def handler)
qed

text \<open>One answer to a datagram of \<open>test_id\<close>, which parses as its addresses.\<close>

definition test_text :: "bytes \<Rightarrow> string" where
  "test_text a = (if a = [8, 8, 8, 8] then ''server'' else ''client'')"

definition test_parse :: "string \<Rightarrow> unit + destination" where
  "test_parse t = Inr (if t = dest_text ''udp'' test_text [8, 8, 8, 8] 53 then ip_target FamilyIPv4 (\<lambda>_. []) ([8, 8, 8, 8], 53)
     else ip_target FamilyIPv4 (\<lambda>_. []) ([10, 0, 0, 2], 5000))"

theorem gvisor_session_delivers_witness:
  "\<exists>sg. gvisor_udp_session rfc768_encode rfc768 rfc1071 (\<lambda>_ _. Inr test_route) [10, 0, 0, 2] [8, 8, 8, 8]
       test_text test_parse False (\<lambda>_. True) test_id [0x13, 0x88, 0, 53, 0, 10, 0, 0] [1, 2]
       [(True, \<lparr>bf_bytes = [3, 4, 5], bf_endpoint = None\<rparr>)] =
      Some (Some ([\<lparr>bf_bytes = [1, 2], bf_endpoint = Some (ip_target FamilyIPv4 (\<lambda>_. []) ([8, 8, 8, 8], 53))\<rparr>], [sg], Stuck)) \<and>
     segment_for rfc768 rfc1071 (\<lambda>_ _. Inr test_route) [10, 0, 0, 2] 5000 ([8, 8, 8, 8], 53) [3, 4, 5] sg"
proof -
  let ?a = "[(True, \<lparr>bf_bytes = [3, 4, 5], bf_endpoint = None\<rparr>)] :: (bool \<times> buffer) list"
  let ?server = "ip_target FamilyIPv4 (\<lambda>_. []) ([8, 8, 8, 8], 53)"
  have "dest_text ''udp'' test_text [10, 0, 0, 2] 5000 \<noteq> dest_text ''udp'' test_text [8, 8, 8, 8] 53"
    by (simp add: dest_text_def test_text_def join_host_port_def)
  then have texts: "test_parse (dest_text ''udp'' test_text (id_remote_address test_id) (id_remote_port test_id)) =
      Inr (ip_target FamilyIPv4 (\<lambda>_. []) ([10, 0, 0, 2], 5000))"
    "test_parse (dest_text ''udp'' test_text (id_local_address test_id) (id_local_port test_id)) = Inr ?server"
    by (simp_all add: test_parse_def test_id_def)
  have hdr: "udp_length rfc768 [0x13, 0x88, 0, 53, 0, 10, 0, 0] = Some 10" "unat (10 :: u16) \<le> length [1, 2 :: byte] + 8"
    by (simp_all add: get16_def get_at_def be16_def)
  have server: "addr_ip (dst_address ?server) = Some [8, 8, 8, 8]" "addr_family (dst_address ?server) \<noteq> FamilyDomain"
    by (simp_all add: ip_target_def)
  have a: "length ?a \<le> 16" "\<forall>b \<in> set ?a. sendable (snd b)"
    "\<forall>b \<in> set ?a. \<exists>r. (Inr test_route :: nat + nat route) = Inr r \<and> (\<forall>s. rt_write r s = None)"
    by (simp_all add: sendable_def test_route_def)
  from gvisor_session_delivers [where find_route = "\<lambda>_ _. Inr test_route" and netSrc = "[10, 0, 0, 2]" and netDst = "[8, 8, 8, 8]"
      and C = rfc1071 and isDns = False and picks = "\<lambda>_. True", OF rfc_encoder.udp_encoder_axioms hdr texts server a]
  show ?thesis
    by (auto simp: list_all2_Cons1 answer_peer_def test_id_def) (simp add: ip_target_def)
qed

end
