(* ===== verification/PingPath.thy ===== *)
theory PingPath
  imports UdpPath TunAttr IcmpRfc
begin

text \<open>
  A ping from the device to the core and back, composed of \<open>processICMPv4\<close> (\<open>NatIcmp\<close>), the
  choice of the outbound in \<open>NewPingPacket\<close> (\<open>TunAttr\<close>), the connection \<open>handleUDP\<close> makes
  (\<open>DispatcherConn\<close>), and its loop, which writes each message back through the function of
  \<open>processICMPv4\<close> and ends at the first error that function returns.
\<close>

section \<open>The pieces, put together\<close>

datatype ping_result = PingIgnored | PingAnswered bytes | PingRelayed "buffer list" "bytes list" loop_end

definition ping_back4 :: "ip4_ops \<Rightarrow> icmp_ops \<Rightarrow> csum_ops \<Rightarrow> (nat \<Rightarrow> bytes) \<Rightarrow> ping_flow \<Rightarrow> bytes writer" where
  "ping_back4 H I C stale F message addr = map_option (\<lambda>(r, unreachable). ([r], unreachable)) (icmp4_back H I C stale F message)"

text \<open>
  The first ping of a pair of addresses and the messages the core has for it by then.  The
  ping is offered to \<open>NewPingPacket\<close> when it finds an outbound.
\<close>

definition ping_session :: "ip4_ops \<Rightarrow> icmp_ops \<Rightarrow> csum_ops \<Rightarrow> (nat \<Rightarrow> bytes) \<Rightarrow> (bytes \<Rightarrow> string) \<Rightarrow> ping_outbound option \<Rightarrow> (nat \<Rightarrow> bool)
    \<Rightarrow> bytes \<Rightarrow> window \<Rightarrow> (bool \<times> buffer) list \<Rightarrow> ping_result go" where
  "ping_session H I C stale text_of outbound picks p w answers = do {
     r \<leftarrow> processICMPv4 H I (\<lambda>_. outbound \<noteq> None) p w;
     case r of
       IcmpIgnored \<Rightarrow> Some PingIgnored
     | IcmpAnswered F q \<Rightarrow> Some (PingAnswered q)
     | IcmpHanded F \<Rightarrow> do {
         (sent, rs, e) \<leftarrow> session_through (ping_back4 H I C stale F) False picks
           (ip_target FamilyIPv4 text_of (pf_destination F, 7)) (pf_message F) answers;
         Some (PingRelayed sent rs e)
       }
   }"

section \<open>Messages\<close>

text \<open>Messages the loop can read: not empty, and from an end point \<open>readFrom\<close> has an address for.\<close>

definition readable :: "buffer \<Rightarrow> bool" where
  "readable b \<longleftrightarrow> bf_bytes b \<noteq> [] \<and>
     (case bf_endpoint b of None \<Rightarrow> True | Some e \<Rightarrow> addr_family (dst_address e) = FamilyDomain \<or> addr_ip (dst_address e) \<noteq> None)"

definition is_unreachable :: "bool \<times> buffer \<Rightarrow> bool" where
  "is_unreachable b \<longleftrightarrow> hd (bf_bytes (snd b)) = ICMPv4DstUnreachable"

text \<open>
  What the device gets for a message: the message behind a right header, or, for an error, a
  message that quotes the request.
\<close>

definition ping_answer :: "ip4_ops \<Rightarrow> bytes \<Rightarrow> bytes \<Rightarrow> bytes \<Rightarrow> bool \<times> buffer \<Rightarrow> bytes \<Rightarrow> bool" where
  "ping_answer H peer client request b r \<longleftrightarrow>
     (if is_unreachable b
      then \<exists>h u. r = h @ u \<and> ip_source H h = Some peer \<and> ip_destination H h = Some client \<and>
        ip4_calculate_checksum H h = Some 0xFFFF \<and> hd u = ICMPv4DstUnreachable \<and>
        drop (length h) (drop 8 u) = take 8 request
      else \<exists>h. r = h @ bf_bytes (snd b) \<and> icmp4_frame H peer client h (length (bf_bytes (snd b))))"

lemma ping_target_source:
  "readable b \<Longrightarrow> fst (udp_source (queued (ip_target FamilyIPv4 text_of d) b)) \<noteq> None"
  by (auto simp: readable_def packet_of_def new_conn_def udp_source_def ip_target_def AnyIP_def Let_def split: option.splits)

lemma ping_back_writes:
  assumes A: "icmp4_answers H I ivalid C head"
    and F: "head (pf_header F)" "icmp4_frame H peer client (pf_header F) (pf_length F)" "ping_quote F = take 8 request"
    and stale: "\<And>n. length (stale n) = n" and message: "bf_bytes (snd b) \<noteq> []"
  shows "\<exists>r. ping_back4 H I C stale F (bf_bytes (snd b)) addr = Some ([r], is_unreachable b) \<and> ping_answer H peer client request b r"
proof -
  have t: "icmp_type I (bf_bytes (snd b)) = Some (hd (bf_bytes (snd b)))"
    using icmp_header.type_first [OF icmp4_answers.axioms(1) [OF A] message] .
  show ?thesis
  proof (cases "is_unreachable b")
    case True
    then obtain h where h: "icmp4_back H I C stale F (bf_bytes (snd b)) = Some (h @ unreachable stale (pf_origin F) (bf_bytes (snd b)), True)"
      "length h = length (pf_header F)" "ip_source H h = Some peer" "ip_destination H h = Some client" "ip4_calculate_checksum H h = Some 0xFFFF"
      using icmp4_answers.unreachable_back4 [OF A F(1,2) _ message stale] t by (auto simp: is_unreachable_def)
    have "drop (length h) (drop 8 (unreachable stale (pf_origin F) (bf_bytes (snd b)))) = take 8 request"
      using F(3) h(2) by (simp only: drop_unreachable [OF stale] ping_quote_def)
    then have "ping_answer H peer client request b (h @ unreachable stale (pf_origin F) (bf_bytes (snd b)))"
      unfolding ping_answer_def using True h(3-5) hd_unreachable [OF stale message] is_unreachable_def by auto
    with True h(1) show ?thesis by (simp add: ping_back4_def)
  next
    case False
    then obtain h where h: "icmp4_back H I C stale F (bf_bytes (snd b)) = Some (h @ bf_bytes (snd b), False)"
      "icmp4_frame H peer client h (length (bf_bytes (snd b)))"
      using icmp4_answers.message_back4 [OF A F(1,2) t, of stale] by (auto simp: is_unreachable_def)
    then have "ping_answer H peer client request b (h @ bf_bytes (snd b))"
      using False by (auto simp: ping_answer_def)
    with False h(1) show ?thesis by (simp add: ping_back4_def)
  qed
qed

section \<open>Property\<close>

text \<open>
  C7.  A ping through the program.  Without an outbound for it the device gets an echo reply with
  verifying checksums in its place.  With one, the core gets the request for port 7 of its
  destination, and of up to sixteen messages those up to and including the first
  destination-unreachable one reach the device, in order; that one ends the session, and
  without one the loop waits for more.
\<close>

theorem ping_session_delivers:
  assumes "icmp4_packets H valid I ivalid C head"
    and "segment H valid ivalid w p" and "icmp_type I (view w p) = Some ICMPv4Echo" and "icmp_code I (view w p) = Some 0"
    and "ip_source H p = Some src" and "ip_destination H p = Some dst" and "\<And>n. length (stale n) = n"
    and "length answers \<le> 16" and "\<forall>b \<in> set answers. readable (snd b)"
  shows "if outbound = None
    then \<exists>q. ping_session H I C stale text_of outbound picks p w answers = Some (PingAnswered q) \<and>
      icmp4_reply H I C dst src w q \<and> drop 4 (view w q) = drop 4 (view w p)
    else \<exists>payload rs. ping_session H I C stale text_of outbound picks p w answers =
        Some (PingRelayed [\<lparr>bf_bytes = payload, bf_endpoint = Some (ipv4_destination text_of (dst, 7))\<rparr>] rs
          (if \<exists>b \<in> set answers. is_unreachable b then Left else Stuck)) \<and>
      take (snd w) payload = view w p \<and>
      list_all2 (ping_answer H dst src (view w p)) (until_failure is_unreachable answers) rs"
proof -
  obtain F where F: "pf_destination F = dst" "take (snd w) (pf_message F) = view w p" "head (pf_header F)"
     "ping_quote F = take 8 (view w p)" "icmp4_frame H dst src (pf_header F) (pf_length F)"
     "outbound \<noteq> None \<longrightarrow> processICMPv4 H I (\<lambda>_. outbound \<noteq> None) p w = Some (IcmpHanded F)"
     "outbound = None \<longrightarrow> (\<exists>q. processICMPv4 H I (\<lambda>_. outbound \<noteq> None) p w = Some (IcmpAnswered F q) \<and>
        icmp4_reply H I C dst src w q \<and> drop 4 (view w q) = drop 4 (view w p))"
    using icmp4_packets.request4 [OF assms(1-6), of "\<lambda>_. outbound \<noteq> None"] by (cases outbound) (simp_all, metis+)
  show ?thesis
  proof (cases "outbound = None")
    case True
    with F(7) show ?thesis by (auto simp: ping_session_def)
  next
    case False
    let ?dest = "ip_target FamilyIPv4 text_of (pf_destination F, 7)"
    have sent: "bf_bytes (snd b) \<noteq> [] \<and> fst (udp_source (queued ?dest (snd b))) \<noteq> None \<and>
        (\<exists>r. ping_back4 H I C stale F (bf_bytes (snd b)) (relay_addr False (queued ?dest (snd b))) = Some ([r], is_unreachable b) \<and>
          ping_answer H dst src (view w p) b r)" if "b \<in> set answers" for b
    proof -
      have "readable (snd b)" using assms(9) that by blast
      moreover from this have "bf_bytes (snd b) \<noteq> []" by (simp add: readable_def)
      ultimately show ?thesis
        using ping_back_writes [OF icmp4_packets.axioms(2) [OF assms(1)] F(3,5,4) assms(7)] ping_target_source by blast
    qed
    have "\<exists>rs. session_through (ping_back4 H I C stale F) False picks ?dest (pf_message F) answers =
       Some ([\<lparr>bf_bytes = pf_message F, bf_endpoint = Some ?dest\<rparr>], rs, if \<exists>b \<in> set answers. is_unreachable b then Left else Stuck) \<and>
       list_all2 (ping_answer H dst src (view w p)) (until_failure is_unreachable answers) rs"
      by (rule session_through_writes [OF assms(8) sent])
    with False F show ?thesis by (auto simp: ping_session_def)
  qed
qed

theorem ping_session_delivers_witness:
  "\<exists>payload r h u. ping_session rfc791 rfc792 rfc1071 (\<lambda>n. replicate n 0) (\<lambda>_. []) (Some PingDefault) (\<lambda>_. True) echo_request (20, 8)
        [(True, \<lparr>bf_bytes = [0, 0, 7, 7], bf_endpoint = None\<rparr>), (True, \<lparr>bf_bytes = [3, 1, 0xFC, 0xFE, 0, 0, 0, 0], bf_endpoint = None\<rparr>),
         (True, \<lparr>bf_bytes = [0, 0, 7, 7], bf_endpoint = None\<rparr>)] =
      Some (PingRelayed [\<lparr>bf_bytes = payload, bf_endpoint = Some (ipv4_destination (\<lambda>_. []) ([8, 8, 8, 8], 7))\<rparr>] [h @ [0, 0, 7, 7], r] Left) \<and>
    icmp4_frame rfc791 [8, 8, 8, 8] [172, 19, 0, 1] h (length [0, 0, 7, 7 :: byte]) \<and>
    ping_answer rfc791 [8, 8, 8, 8] [172, 19, 0, 1] (view (20, 8) echo_request)
      (True, \<lparr>bf_bytes = [3, 1, 0xFC, 0xFE, 0, 0, 0, 0], bf_endpoint = None\<rparr>) r"
proof -
  let ?answers = "[(True, \<lparr>bf_bytes = [0, 0, 7, 7], bf_endpoint = None\<rparr>), (True, \<lparr>bf_bytes = [3, 1, 0xFC, 0xFE, 0, 0, 0, 0], bf_endpoint = None\<rparr>),
         (True, \<lparr>bf_bytes = [0, 0, 7, 7], bf_endpoint = None\<rparr>)] :: (bool \<times> buffer) list"
  have a: "\<And>n. length ((\<lambda>n. replicate n (0 :: byte)) n) = n" "length ?answers \<le> 16" "\<forall>b \<in> set ?answers. readable (snd b)"
    by (simp_all add: readable_def)
  show ?thesis
    using ping_session_delivers [OF rfc_icmp4.icmp4_packets_axioms echo_request_facts a, of "Some PingDefault" "\<lambda>_. []" "\<lambda>_. True"]
    by (auto simp: list_all2_Cons1 is_unreachable_def ICMPv4DstUnreachable_def ping_answer_def [of _ _ _ _ "(True, \<lparr>bf_bytes = [0, 0, 7, 7], bf_endpoint = None\<rparr>)"])
qed

end
