(* ===== verification/Http.thy ===== *)
theory Http
  imports GoStrings
begin

text \<open>
  \<open>http.go\<close>: the HTTP client handed to the application.  \<open>net/http\<close>, TLS, SHA-256 and the SOCKS
  handshake are parameters; what the file adds is the client's settings, the way a request is
  put together, and the life of a response.
\<close>

section \<open>Client\<close>

text \<open>
  The settings of \<open>tls.Config\<close> and \<open>http.Transport\<close> that the file writes.  A version 0 means no
  bound, no list of suites the default.
\<close>

record http_client =
  hc_min :: nat
  hc_max :: nat
  hc_suites :: "nat list option"
  hc_pin :: "string option"
  hc_socks :: "int option"
  hc_keep_alives :: bool
  hc_http2 :: bool

definition VersionTLS12 :: nat where "VersionTLS12 = 0x0303"
definition VersionTLS13 :: nat where "VersionTLS13 = 0x0304"

definition NewHttpClient :: http_client where
  "NewHttpClient = \<lparr>hc_min = 0, hc_max = 0, hc_suites = None, hc_pin = None, hc_socks = None, hc_keep_alives = False, hc_http2 = False\<rparr>"

text \<open>\<open>suites\<close> is \<open>tls.CipherSuites()\<close>, each with the versions it supports.\<close>

definition ModernTLS :: "(nat \<times> nat list) list \<Rightarrow> http_client \<Rightarrow> http_client" where
  "ModernTLS suites c = c\<lparr>hc_min := VersionTLS12, hc_suites := Some (map fst suites)\<rparr>"

definition RestrictedTLS :: "(nat \<times> nat list) list \<Rightarrow> http_client \<Rightarrow> http_client" where
  "RestrictedTLS suites c =
     c\<lparr>hc_min := VersionTLS13, hc_suites := Some (map fst (filter (\<lambda>it. VersionTLS13 \<in> set (snd it)) suites))\<rparr>"

definition PinnedTLS12 :: "http_client \<Rightarrow> http_client" where
  "PinnedTLS12 c = c\<lparr>hc_min := VersionTLS12, hc_max := VersionTLS12\<rparr>"

definition PinnedSHA256 :: "string \<Rightarrow> http_client \<Rightarrow> http_client" where
  "PinnedSHA256 sumHex c = c\<lparr>hc_pin := Some sumHex\<rparr>"

definition TrySocks5 :: "int \<Rightarrow> http_client \<Rightarrow> http_client" where
  "TrySocks5 port c = c\<lparr>hc_socks := Some port\<rparr>"

definition KeepAlive :: "http_client \<Rightarrow> http_client" where
  "KeepAlive c = c\<lparr>hc_http2 := True, hc_keep_alives := True\<rparr>"

text \<open>The function of \<open>PinnedSHA256\<close>, on the certificates the peer sent; \<open>True\<close> is acceptance.\<close>

fun verify_pin :: "(bytes \<Rightarrow> bytes) \<Rightarrow> string \<Rightarrow> bytes list \<Rightarrow> bool" where
  "verify_pin sha256 sumHex [] = False"
| "verify_pin sha256 sumHex (rawCert # rawCerts) =
     (if sumHex = hex_encode (sha256 rawCert) then True else verify_pin sha256 sumHex rawCerts)"

text \<open>
  The function of \<open>TrySocks5\<close>: the result, and the connections that were opened.  \<open>dial\<close> is the
  dialer, \<open>handshake\<close> the SOCKS client.
\<close>

definition socks_dial :: "(string \<Rightarrow> string \<Rightarrow> 'e + nat) \<Rightarrow> (nat \<Rightarrow> string \<Rightarrow> 'e option) \<Rightarrow> int \<Rightarrow> string \<Rightarrow> string \<Rightarrow> ('e + nat) \<times> nat list" where
  "socks_dial dial handshake port network addr =
     (let direct = dial network addr;
          opened = (case direct of Inl _ \<Rightarrow> [] | Inr c \<Rightarrow> [c])
      in case dial ''tcp'' (''127.0.0.1:'' @ itoa port) of
           Inl _ \<Rightarrow> (direct, opened)
         | Inr socksConn \<Rightarrow>
             (case handshake socksConn addr of
                Some _ \<Rightarrow> (direct, socksConn # opened)
              | None \<Rightarrow> (Inr socksConn, [socksConn])))"

definition left_open :: "('e + nat) \<times> nat list \<Rightarrow> nat list" where
  "left_open r = filter (\<lambda>c. fst r \<noteq> Inr c) (snd r)"

section \<open>Requests\<close>

text \<open>
  \<open>canon\<close> is the canonical form of a header key, \<open>'u\<close> a parsed URL with its user information, and
  \<open>basic\<close> the value \<open>SetBasicAuth\<close> makes of a name and a password.
\<close>

record 'u http_request =
  rq_url :: "'u option"
  rq_method :: string
  rq_header :: "string \<rightharpoonup> string"
  rq_body :: "bytes option"
  rq_length :: int

definition NewRequest :: "'u http_request" where
  "NewRequest = \<lparr>rq_url = None, rq_method = ''GET'', rq_header = Map.empty, rq_body = None, rq_length = 0\<rparr>"

definition SetHeader :: "(string \<Rightarrow> string) \<Rightarrow> string \<Rightarrow> string \<Rightarrow> 'u http_request \<Rightarrow> 'u http_request" where
  "SetHeader canon k v r = r\<lparr>rq_header := (rq_header r)(canon k \<mapsto> v)\<rparr>"

definition SetMethod :: "string \<Rightarrow> 'u http_request \<Rightarrow> 'u http_request" where
  "SetMethod m r = r\<lparr>rq_method := m\<rparr>"

text \<open>\<open>SetURL\<close>: \<open>url.Parse\<close> returns nil with an error, and the field of the nil pointer is read before the error is.\<close>

definition SetURL :: "(string \<Rightarrow> 'e + 'u) \<Rightarrow> ('u \<Rightarrow> (string \<times> string option) option) \<Rightarrow> (string \<Rightarrow> string \<Rightarrow> string) \<Rightarrow> (string \<Rightarrow> string)
    \<Rightarrow> string \<Rightarrow> 'u http_request \<Rightarrow> ('u http_request \<times> 'e option) go" where
  "SetURL url_parse user_of basic canon link r =
     (case url_parse link of
        Inl e \<Rightarrow> panic
      | Inr u \<Rightarrow>
          (let r = r\<lparr>rq_url := Some u\<rparr>
           in Some (case user_of u of
                None \<Rightarrow> (r, None)
              | Some (name, password) \<Rightarrow>
                  (SetHeader canon ''Authorization'' (basic name (case password of Some p \<Rightarrow> p | None \<Rightarrow> [])) r, None))))"

definition SetUserAgent :: "(string \<Rightarrow> string) \<Rightarrow> string \<Rightarrow> 'u http_request \<Rightarrow> 'u http_request" where
  "SetUserAgent canon agent r = SetHeader canon ''User-Agent'' agent r"

definition RandomUserAgent :: "(string \<Rightarrow> string) \<Rightarrow> nat \<Rightarrow> nat \<Rightarrow> 'u http_request \<Rightarrow> 'u http_request" where
  "RandomUserAgent canon a b r =
     SetHeader canon ''User-Agent'' (''curl/7.'' @ itoa_nat (a mod 54) @ ''.'' @ itoa_nat (b mod 2)) r"

definition SetContent :: "bytes \<Rightarrow> 'u http_request \<Rightarrow> 'u http_request" where
  "SetContent content r = r\<lparr>rq_body := Some content, rq_length := int (length content)\<rparr>"

text \<open>\<open>SetContentString\<close>; \<open>utf8\<close> is the conversion of a Go string, the bytes it holds.\<close>

definition SetContentString :: "(string \<Rightarrow> bytes) \<Rightarrow> string \<Rightarrow> 'u http_request \<Rightarrow> 'u http_request" where
  "SetContentString utf8 content r = SetContent (utf8 content) r"

section \<open>Responses\<close>

text \<open>
  A response: the bytes its body still has and the error that comes after them; whether it
  is closed; and the result \<open>GetContent\<close> keeps.
\<close>

datatype 'e http_error = TransportError 'e | BodyClosed | StatusError string | CreateError 'e | DiskError 'e

record 'e http_response =
  rs_code :: int
  rs_status :: string
  rs_body :: bytes
  rs_body_error :: "'e option"
  rs_closed :: bool
  rs_once :: bool
  rs_content :: bytes
  rs_content_error :: "'e http_error option"

definition arrived :: "int \<Rightarrow> string \<Rightarrow> bytes \<Rightarrow> 'e option \<Rightarrow> 'e http_response" where
  "arrived code status body err =
     \<lparr>rs_code = code, rs_status = status, rs_body = body, rs_body_error = err, rs_closed = False, rs_once = False, rs_content = [], rs_content_error = None\<rparr>"

definition drain :: "'e http_response \<Rightarrow> bytes \<times> 'e http_error option" where
  "drain h = (if rs_closed h then ([], Some BodyClosed) else (rs_body h, map_option TransportError (rs_body_error h)))"

definition GetContent :: "'e http_response \<Rightarrow> (bytes \<times> 'e http_error option) \<times> 'e http_response" where
  "GetContent h =
     (let h = (if rs_once h then h
               else h\<lparr>rs_once := True, rs_content := fst (drain h), rs_content_error := snd (drain h), rs_body := [], rs_closed := True\<rparr>)
      in ((rs_content h, rs_content_error h), h))"

definition GetContentString :: "'e http_response \<Rightarrow> ('e http_error + bytes) \<times> 'e http_response" where
  "GetContentString h =
     (let ((content, err), h) = GetContent h
      in (case err of Some e \<Rightarrow> Inl e | None \<Rightarrow> Inr content, h))"

text \<open>\<open>errorString\<close>, on the text \<open>show\<close> gives to bytes.\<close>

definition errorString :: "(bytes \<Rightarrow> string) \<Rightarrow> 'e http_response \<Rightarrow> string" where
  "errorString text_of h =
     (case fst (GetContentString h) of
        Inl _ \<Rightarrow> ''HTTP '' @ rs_status h
      | Inr content \<Rightarrow> ''HTTP '' @ rs_status h @ '': '' @ text_of content)"

definition Execute :: "(bytes \<Rightarrow> string) \<Rightarrow> ('u http_request \<Rightarrow> 'e + 'e http_response) \<Rightarrow> 'u http_request \<Rightarrow> 'e http_error + 'e http_response" where
  "Execute text_of client_do r =
     (case client_do r of
        Inl e \<Rightarrow> Inl (TransportError e)
      | Inr response \<Rightarrow>
          if rs_code response \<noteq> 200 then Inl (StatusError (errorString text_of response)) else Inr response)"

text \<open>
  \<open>WriteTo\<close>: what is in the file afterwards (\<open>None\<close> when it is not made), the error, and the
  response.  \<open>disk\<close> gives what is stored of the bytes, and an error.
\<close>

definition WriteTo :: "'e option \<Rightarrow> (bytes \<Rightarrow> bytes \<times> 'e option) \<Rightarrow> 'e http_response \<Rightarrow> bytes option \<times> 'e http_error option \<times> 'e http_response" where
  "WriteTo create disk h =
     (case create of
        Some e \<Rightarrow> (None, Some (CreateError e), h\<lparr>rs_closed := True\<rparr>)
      | None \<Rightarrow>
          (let (data, rerr) = drain h; (stored, werr) = disk data
           in (Some stored, case werr of Some e \<Rightarrow> Some (DiskError e) | None \<Rightarrow> rerr, h\<lparr>rs_body := [], rs_closed := True\<rparr>)))"

section \<open>Versions\<close>

text \<open>The three calls that touch the versions, and whether a version is left to negotiate.\<close>

datatype tls_call = CallModern | CallRestricted | CallPinned

definition tls_call :: "(nat \<times> nat list) list \<Rightarrow> tls_call \<Rightarrow> http_client \<Rightarrow> http_client" where
  "tls_call suites k = (case k of CallModern \<Rightarrow> ModernTLS suites | CallRestricted \<Rightarrow> RestrictedTLS suites | CallPinned \<Rightarrow> PinnedTLS12)"

definition has_version :: "http_client \<Rightarrow> bool" where
  "has_version c \<longleftrightarrow> hc_max c = 0 \<or> hc_min c \<le> hc_max c"

lemma tls_bounds:
  "hc_max (fold (tls_call suites) ks NewHttpClient) = (if CallPinned \<in> set ks then VersionTLS12 else 0) \<and>
   hc_min (fold (tls_call suites) ks NewHttpClient) =
     (if ks = [] then 0 else if last ks = CallRestricted then VersionTLS13 else VersionTLS12)"
proof (induction ks rule: rev_induct)
  case (snoc k ks)
  then show ?case
    by (cases k) (auto simp: tls_call_def ModernTLS_def RestrictedTLS_def PinnedTLS12_def)
qed (simp add: NewHttpClient_def)

section \<open>Properties\<close>

text \<open>
  However the three calls are mixed, the client is left without any version to offer exactly
  when TLS 1.2 was pinned at some point and \<open>RestrictedTLS\<close> came last: then every handshake fails.
\<close>

theorem no_version_left_iff:
  "\<not> has_version (fold (tls_call suites) ks NewHttpClient) \<longleftrightarrow> CallPinned \<in> set ks \<and> last ks = CallRestricted"
  using tls_bounds [of suites ks] by (auto simp: has_version_def VersionTLS12_def VersionTLS13_def)

text \<open>
  The pin is met exactly when some certificate the peer sent has the sum, in lower case.  It
  need not be the peer's own: sending the pinned certificate along is enough.
\<close>

theorem pin_accepts_iff:
  "verify_pin sha256 sumHex certs \<longleftrightarrow> sumHex \<in> hex_encode ` sha256 ` set certs"
  by (induction certs) auto

text \<open>A proxy that accepts the connection and fails the handshake costs a connection, left open for good.\<close>

theorem failed_handshake_leaks:
  assumes "dial ''tcp'' (''127.0.0.1:'' @ itoa port) = Inr s" and "handshake s addr = Some e" and "dial network addr \<noteq> Inr s"
  shows "fst (socks_dial dial handshake port network addr) = dial network addr \<and> left_open (socks_dial dial handshake port network addr) = [s]"
  using assms by (auto simp: socks_dial_def left_open_def Let_def split: sum.splits)

theorem failed_handshake_leaks_witness:
  "left_open (socks_dial (\<lambda>network addr. Inr (length addr)) (\<lambda>_ _. Some ()) 1080 ''tcp'' ''a:443'') = [14]"
proof -
  have "itoa 1080 = ''1080''" by code_simp
  then show ?thesis
    using failed_handshake_leaks [of "\<lambda>network addr. Inr (length addr)" 1080 14 "\<lambda>_ _. Some ()" "''a:443''" "()" "''tcp''"] by simp
qed

text \<open>A link that does not parse is a panic, not an error.\<close>

theorem bad_link_panics:
  "SetURL url_parse user_of basic canon link r = panic \<longleftrightarrow> (\<exists>e. url_parse link = Inl e)"
  by (auto simp: SetURL_def Let_def split: sum.splits option.splits)

text \<open>
  A link with a user followed by one without: the first one's credentials stay in the request
  and go to the second one's host.
\<close>

theorem credentials_stay:
  assumes "url_parse link1 = Inr u1" and "user_of u1 = Some (name, Some password)"
    and "url_parse link2 = Inr u2" and "user_of u2 = None"
  shows "\<exists>r1 r2. SetURL url_parse user_of basic canon link1 r = Some (r1, None) \<and> SetURL url_parse user_of basic canon link2 r1 = Some (r2, None) \<and>
     rq_url r2 = Some u2 \<and> rq_header r2 (canon ''Authorization'') = Some (basic name password)"
  using assms by (simp add: SetURL_def SetHeader_def)

theorem credentials_stay_witness:
  "\<exists>r1 r2. SetURL (\<lambda>l. Inr l :: unit + string) (\<lambda>u. if u = ''http://me:pw@a/'' then Some (''me'', Some ''pw'') else None) (\<lambda>n p. n @ p) (\<lambda>k. k) ''http://me:pw@a/'' NewRequest
       = Some (r1, None) \<and>
     SetURL (\<lambda>l. Inr l :: unit + string) (\<lambda>u. if u = ''http://me:pw@a/'' then Some (''me'', Some ''pw'') else None) (\<lambda>n p. n @ p) (\<lambda>k. k) ''http://b/'' r1 = Some (r2, None) \<and>
     rq_url r2 = Some ''http://b/'' \<and> rq_header r2 ''Authorization'' = Some ''mepw''"
  using credentials_stay [of "\<lambda>l. Inr l :: unit + string" "''http://me:pw@a/''" "''http://me:pw@a/''"
      "\<lambda>u. if u = ''http://me:pw@a/'' then Some (''me'', Some ''pw'') else None" "''me''" "''pw''" "''http://b/''" "''http://b/''" "\<lambda>n p. n @ p" "\<lambda>k. k" NewRequest]
  by simp

text \<open>
  Whatever was done with a response before, reading its content again gives the same result
  and changes nothing; the first reading of one that just arrived gives the whole body.
\<close>

theorem content_is_stable:
  "snd (GetContent (snd (GetContent h))) = snd (GetContent h) \<and> fst (GetContent (snd (GetContent h))) = fst (GetContent h) \<and>
   fst (GetContent (arrived code status body None)) = (body, None)"
  by (simp add: GetContent_def Let_def drain_def arrived_def)

text \<open>
  A response is saved whole when it just arrived; after its content was read, saving it
  makes an empty file and reports an error.
\<close>

theorem save_after_read:
  assumes "\<And>d. disk d = (d, None)"
  shows "fst (WriteTo None disk (arrived code status body None)) = Some body \<and>
     fst (WriteTo None disk (snd (GetContent (arrived code status body None)))) = Some [] \<and>
     fst (snd (WriteTo None disk (snd (GetContent (arrived code status body None))))) = Some BodyClosed"
  using assms by (simp add: WriteTo_def GetContent_def drain_def arrived_def)

theorem save_after_read_witness:
  "fst (WriteTo None (\<lambda>d. (d, None)) (snd (GetContent (arrived 200 ''200 OK'' [1, 2] (None :: unit option))))) = Some []"
  using save_after_read [of "\<lambda>d. (d, None :: unit option)" 200 "''200 OK''" "[1, 2]"] by simp

end
