(* ===== verification/Helpers.thy ===== *)
theory Helpers
  imports Http
begin

text \<open>
  The small helpers of the program: the hash functions of \<open>crypto.go\<close>, over hash functions of
  the standard library, and the error constructors of \<open>errors.generated.go\<close>, which \<open>errorgen\<close>
  prints into every package, with the part of \<open>fmt.Sprintf\<close> their formats use.
\<close>

section \<open>crypto.go\<close>

definition Sha1 :: "(bytes \<Rightarrow> bytes) \<Rightarrow> bytes \<Rightarrow> bytes" where
  "Sha1 sha1 data = sha1 data"

definition Sha256Hex :: "(bytes \<Rightarrow> bytes) \<Rightarrow> bytes \<Rightarrow> string" where
  "Sha256Hex sha256 data = hex_encode (sha256 data)"

text \<open>
  The text \<open>Sha256Hex\<close> gives for a certificate is the one \<open>PinnedSHA256\<close> takes: the client then
  accepts exactly the chains with a certificate of that sum.  The comparison is one of texts:
  a sum with a capital letter accepts nothing.
\<close>

theorem pinned_by_Sha256Hex:
  "hc_pin (PinnedSHA256 (Sha256Hex sha256 cert) c) = Some (Sha256Hex sha256 cert) \<and>
   (verify_pin sha256 (Sha256Hex sha256 cert) certs \<longleftrightarrow> (\<exists>x \<in> set certs. sha256 x = sha256 cert))"
  unfolding PinnedSHA256_def Sha256Hex_def pin_accepts_iff by (auto dest!: hex_encode_inj intro: rev_image_eqI)

lemma hex_digit_in: "i < 16 \<Longrightarrow> hex_digits ! i \<in> set hex_digits"
  by (rule nth_mem) (simp add: hex_digits_def)

lemma hex_encode_lower: "x \<in> set (hex_encode bs) \<Longrightarrow> x \<in> set hex_digits"
proof (induction bs)
  case (Cons b bs)
  have "unat b < 256" using unsigned_less [of b] by simp
  then have "unat b div 16 < 16" "unat b mod 16 < 16"
    by (simp_all add: less_mult_imp_div_less)
  then show ?case
    using Cons by (auto simp: hex_encode_def hex_byte_def hex_digit_in)
qed (simp add: hex_encode_def)

theorem capital_pin_accepts_nothing:
  assumes "x \<in> set sumHex" and "x \<in> set ''ABCDEF''"
  shows "\<not> verify_pin sha256 sumHex certs"
  using assms hex_encode_lower by (fastforce simp: pin_accepts_iff hex_digits_def)

theorem capital_pin_accepts_nothing_witness: "\<not> verify_pin (\<lambda>_. [0xAB]) ''AB'' [[1], [2]]"
  using capital_pin_accepts_nothing [of "CHR ''A''" "''AB''" "\<lambda>_. [0xAB]" "[[1], [2]]"] by simp

section \<open>errors.generated.go\<close>

text \<open>
  Arguments of \<open>fmt.Sprintf\<close>: a text (or a value that has one), a number, a slice of
  interfaces.
\<close>

datatype go_value = GoText string | GoInt int | GoSlice "go_value list"

primrec type_text :: "go_value \<Rightarrow> string" where
  "type_text (GoText s) = ''string''"
| "type_text (GoInt n) = ''int''"
| "type_text (GoSlice vs) = ''[]interface {}''"

fun value_text :: "go_value \<Rightarrow> string" where
  "value_text (GoText s) = s"
| "value_text (GoInt n) = itoa n"
| "value_text (GoSlice vs) = ''['' @ join_spaces (map value_text vs) @ '']''"

definition wrong_verb :: "char \<Rightarrow> go_value \<Rightarrow> string" where
  "wrong_verb verb v = ''%!'' @ [verb] @ ''('' @ type_text v @ ''='' @ value_text v @ '')''"

fun verb_text :: "char \<Rightarrow> go_value \<Rightarrow> string" where
  "verb_text verb (GoText s) = (if verb \<in> {CHR ''v'', CHR ''s''} then s else wrong_verb verb (GoText s))"
| "verb_text verb (GoInt n) = (if verb \<in> {CHR ''v'', CHR ''d''} then itoa n else wrong_verb verb (GoInt n))"
| "verb_text verb (GoSlice vs) = ''['' @ join_spaces (map (verb_text verb) vs) @ '']''"

text \<open>\<open>fmt.Sprintf\<close> for formats whose verbs have no flags and no width.\<close>

definition extra_text :: "go_value list \<Rightarrow> string" where
  "extra_text vs = (if vs = [] then [] else
     ''%!(EXTRA '' @ tl (tl (concat (map (\<lambda>v. '', '' @ type_text v @ ''='' @ value_text v) vs))) @ '')'')"

fun sprintf :: "string \<Rightarrow> go_value list \<Rightarrow> string" where
  "sprintf [] vs = extra_text vs"
| "sprintf [c] vs = (if c = CHR ''%'' then ''%!(NOVERB)'' else [c]) @ extra_text vs"
| "sprintf (c # verb # format) vs =
     (if c \<noteq> CHR ''%'' then c # sprintf (verb # format) vs
      else if verb = CHR ''%'' then CHR ''%'' # sprintf format vs
      else case vs of
        [] \<Rightarrow> ''%!'' @ [verb] @ ''(MISSING)'' @ sprintf format []
      | v # vs' \<Rightarrow> verb_text verb v @ sprintf format vs')"

text \<open>
  The text of the error each constructor makes: \<open>concat_values\<close> is what \<open>errors.New\<close> makes of
  its arguments, a text alone being itself.  \<open>newErrorf\<close> passes its arguments, a slice, as one.
\<close>

definition newError :: "(go_value list \<Rightarrow> string) \<Rightarrow> go_value list \<Rightarrow> string" where
  "newError concat_values values = concat_values values"

definition newErrorf :: "(go_value list \<Rightarrow> string) \<Rightarrow> string \<Rightarrow> go_value list \<Rightarrow> string" where
  "newErrorf concat_values format a = concat_values [GoText (sprintf format [GoSlice a])]"

text \<open>A format as its pieces: a verb, and the text behind it, without a percent sign.\<close>

definition format_of :: "string \<Rightarrow> (char \<times> string) list \<Rightarrow> string" where
  "format_of start pieces = start @ concat (map (\<lambda>(verb, t). CHR ''%'' # verb # t) pieces)"

definition plain :: "string \<Rightarrow> bool" where
  "plain s \<longleftrightarrow> CHR ''%'' \<notin> set s"

lemma sprintf_plain: "plain s \<Longrightarrow> sprintf (s @ format) vs = s @ sprintf format vs"
proof (induction s)
  case (Cons c s)
  then show ?case
    by (cases "s @ format") (auto simp: plain_def)
qed simp

lemma sprintf_verb: "verb \<noteq> CHR ''%'' \<Longrightarrow> sprintf (CHR ''%'' # verb # format) (v # vs) = verb_text verb v @ sprintf format vs"
  by simp

lemma sprintf_missing:
  "\<forall>(verb, t) \<in> set pieces. verb \<noteq> CHR ''%'' \<and> plain t \<Longrightarrow>
   sprintf (concat (map (\<lambda>(verb, t). CHR ''%'' # verb # t) pieces)) [] = concat (map (\<lambda>(verb, t). ''%!'' @ [verb] @ ''(MISSING)'' @ t) pieces)"
proof (induction pieces)
  case (Cons p pieces)
  then show ?case
    by (cases p) (simp add: sprintf_plain)
qed (simp add: extra_text_def)

text \<open>
  What \<open>newErrorf\<close> says: all arguments in brackets in the place of the first verb and a
  complaint for every other; with no verb at all a complaint that one argument is too many,
  even when none was given.
\<close>

theorem newErrorf_text:
  assumes "plain start" and "\<forall>(verb, t) \<in> set pieces. verb \<noteq> CHR ''%'' \<and> plain t" and "\<And>s. concat_values [GoText s] = s"
  shows "newErrorf concat_values (format_of start pieces) a =
     (case pieces of
        [] \<Rightarrow> start @ ''%!(EXTRA []interface {}='' @ value_text (GoSlice a) @ '')''
      | (verb, t) # others \<Rightarrow> start @ verb_text verb (GoSlice a) @ t @
          concat (map (\<lambda>(verb, t). ''%!'' @ [verb] @ ''(MISSING)'' @ t) others))"
proof (cases pieces)
  case Nil
  then show ?thesis
    using assms sprintf_plain [OF assms(1), of "[]"] by (simp add: newErrorf_def format_of_def extra_text_def)
next
  case (Cons p others)
  then show ?thesis
    using assms by (cases p) (simp add: newErrorf_def format_of_def sprintf_plain sprintf_missing)
qed

lemma itoa_28: "itoa 28 = ''28''"
  by code_simp

theorem newErrorf_text_witness:
  "newErrorf (\<lambda>vs. concat (map value_text vs)) ''sending to %v: (%v bytes)'' [GoText ''192.0.2.1:3478'', GoInt 28] =
   ''sending to [192.0.2.1:3478 28]: (%!v(MISSING) bytes)''"
  using newErrorf_text [where start = "''sending to ''" and pieces = "[(CHR ''v'', '': (''), (CHR ''v'', '' bytes)'')]"
      and concat_values = "\<lambda>vs. concat (map value_text vs)" and a = "[GoText ''192.0.2.1:3478'', GoInt 28]"]
  by (simp add: format_of_def plain_def itoa_28)

end
