(* ===== verification/Spec2Isabelle.thy ===== *)
theory Spec2Isabelle
  imports Procfs StunNat TunAttr TunProgress TunIsolation AppStatsAcquire DispatcherConn V2Ray Url Protect
    DnsWire UrlTest Api AndroidLog Plugins Observatory TunLife
    AssetsBootSafe TcpPath UdpNat UdpPathGvisor PingPath Helpers
begin

text \<open>
  This development models libcore, the Go library under the Android application SagerNet.  The
  application opens a tun device and hands its descriptor to the library, which takes the
  packets apart, gives connections and datagrams to a v2ray core, and writes the core's
  answers back as packets.

  \<^bold>\<open>How the program works, and where it is modelled.\<close>

  \<^item> \<^emph>\<open>The device, system stack\<close> (\<open>nat/nat.go\<close>).  \<open>NatDevice\<close> has the read loop (\<open>device_loop\<close>,
    \<open>dispatchLoop_device\<close>) with the packet buffers it hands over, and \<open>deliverPacket\<close>, which passes
    a packet to one of three protocols (\<open>NatDeviceSafe\<close>: without a panic).  TCP (\<open>nat/tcp.go\<close>, \<open>nat/peer.go\<close>; \<open>NatTcp\<close>): the packet is
    rewritten towards a listener of the process and back, sessions are kept in an LRU table, and
    accepted connections are handed on with their original end points.  UDP (\<open>nat/udp.go\<close>; \<open>NatUdp\<close>,
    \<open>NatUdp6\<close>, \<open>NatUdp6Flow\<close>) and ICMP (\<open>nat/icmp.go\<close>; \<open>NatIcmp\<close>, \<open>NatIcmp6\<close>): the payload is handed on with a
    function that builds each answer from a copy of the packet's headers.
  \<^item> \<^emph>\<open>The device, gVisor stack\<close> (\<open>gvisor/*.go\<close>).  \<open>GvisorBuffer\<close> and \<open>GvisorLink\<close> model the vector of
    reused buffers (over an arena of byte arrays, since views alias), the dispatcher and the link
    end point; \<open>GvisorIcmp\<close> and \<open>GvisorStack\<close> the handlers of the transports and the construction.
  \<^item> \<^emph>\<open>The tun handler\<close> (\<open>tun.go\<close>, \<open>uid.go\<close>, \<open>procfs.go\<close>).  \<open>TunTable\<close> is a step machine of the threads that
    run \<open>NewPacket\<close> and \<open>NewPingPacket\<close> over \<open>udpTable\<close>, \<open>lockTable\<close> and the condition variables; \<open>TunLock\<close>,
    \<open>TunProgress\<close> and \<open>TunIsolation\<close> show what it guarantees and where it hangs.  \<open>TunAttr\<close> computes whose traffic a flow is
    and how it is tagged, \<open>Procfs\<close> looks the owner up in \<open>/proc/net\<close>, \<open>TunLife\<close> has what opening and
    closing a device changes in the process, \<open>Settings\<close> what the application sets (\<open>route.go\<close>, \<open>bind.go\<close>).
  \<^item> \<^emph>\<open>Counters\<close> (\<open>stats.go\<close>): \<open>AppStats\<close>, and \<open>AppStatsAcquire\<close> for the block that finds or makes them.
  \<^item> \<^emph>\<open>The core\<close> (\<open>v2ray.go\<close>, \<open>io.go\<close>, \<open>observatory.go\<close>): \<open>DispatcherConn\<close> is the packet connection over a link of
    the core, \<open>V2Ray\<close> the instance, \<open>Observatory\<close> its status, \<open>UrlTest\<close> a request through it.
  \<^item> \<^emph>\<open>The parts together\<close>.  \<open>TcpPath\<close> is a TCP connection from its first packet through the listener, the
    owner lookup and the counters to what the application reads from them.  \<open>UdpPath\<close> composes a UDP
    session of device, handler and core: \<open>session_through\<close> is the part all sessions share, over a function
    that writes back, and \<open>UdpPath6\<close>, \<open>UdpPathGvisor\<close> and \<open>PingPath\<close> instantiate it with the writers of
    IPv6, of the gVisor stack and of a ping.  \<open>UdpNat\<close> puts the device loop before it: packets of all
    protocols go in, \<open>NewPacket_in\<close> keeps a session per source, and every client is served.
  \<^item> \<^emph>\<open>Around it\<close>: \<open>Protect\<close> (\<open>protect.go\<close>, dialling outside the VPN), \<open>Assets\<close> (\<open>assets.go\<close>, \<open>certs.go\<close>, \<open>unxz\<close>)
    and \<open>AssetsBoot\<close> (the start-up of \<open>InitializeV2Ray\<close> beside the files that are opened meanwhile, step by step),
    \<open>Dns\<close> and \<open>DnsWire\<close> (\<open>dns.go\<close>), \<open>Stun\<close> and \<open>StunNat\<close> (\<open>stun/*.go\<close>, \<open>StunTest\<close>), \<open>Url\<close> (\<open>url.go\<close>), \<open>Http\<close>
    (\<open>http.go\<close>), \<open>Api\<close> (\<open>api.go\<close>), \<open>AndroidLog\<close> (\<open>log.go\<close>), \<open>Plugins\<close> (\<open>obfs.go\<close>, \<open>ssr.go\<close>),
    \<open>Helpers\<close> (\<open>crypto.go\<close>, \<open>errors.generated.go\<close>).
  \<^item> \<^emph>\<open>Shared\<close>: \<open>Prelude\<close> (words, slices, the failure conventions), \<open>GoStrings\<close> (what is used of
    \<open>strings\<close> and \<open>strconv\<close>), \<open>Net\<close> (addresses, the constants of \<open>comm\<close>), \<open>Checksum\<close> (ones' complement).

  \<^bold>\<open>Conventions.\<close>  A panic is \<open>None\<close> of the type \<open>'a go\<close>, written \<open>panic\<close>; an error is \<open>Inl\<close> of a sum or an
  error value.  Slices check their bounds.  Integers of a width are words where they wrap,
  otherwise \<open>int\<close> with the conversion written out (\<open>int32_of\<close>, \<open>uint16_of\<close>).  Where Go or its runtime
  leaves a choice open (which ready case of a \<open>select\<close> runs, which goroutine moves, whether an
  operand is read before a call) the choice is an argument or a step relation, and the
  properties hold for every choice.

  \<^bold>\<open>Third-party code\<close> is a parameter: a record of functions (the header accessors of gVisor, \<open>Wire\<close>)
  or an argument (the core, the session cache, \<open>dnsmessage\<close>, TLS).  What the code relies on is the
  \<open>assumes\<close> of a locale; every locale is interpreted on a concrete instance: the wire formats of
  RFC 791, 792, 768, 793, 8200 (\<open>WireRfc\<close>, \<open>IcmpRfc\<close>), of RFC 1035 (\<open>DnsWire\<close>), a server of RFC 5780
  (\<open>StunNat\<close>), or the program's own operations (\<open>packet_conn\<close> on \<open>dispatcherConn\<close> and on the counting
  wrapper).  Properties that use a locale take it as a hypothesis, and their witnesses apply
  them to the instance.

  \<^bold>\<open>What is shown.\<close>
  \<^item> Packets: rewriting a TCP flow and its answers are inverse (\<open>NatFlow\<close>); answers of UDP and ICMP go to
    the sender with the right lengths and verifying checksums (\<open>NatUdp\<close>, \<open>NatUdp6\<close>, \<open>IcmpRfc\<close>, \<open>NatIcmp6\<close>,
    \<open>GvisorIcmp\<close>, \<open>GvisorStack\<close>); packets that fit never panic (\<open>NatDeviceSafe\<close>); reading through the
    buffer vector delivers the packets read (\<open>GvisorLink\<close>); sessions work end to end, over UDP and
    ICMP up to the first error of a write (\<open>UdpPath\<close>, \<open>UdpPath6\<close>, \<open>UdpPathGvisor\<close>, \<open>PingPath\<close>), all UDP
    clients of the device apart from each other (\<open>UdpNat\<close>), over TCP up to the
    bytes the application reads as counted (\<open>TcpPath\<close>).
  \<^item> Concurrency: one set-up per key, waiters are delivered when the owner broadcasts, and the
    ways in which they are not (\<open>TunLock\<close>, \<open>TunProgress\<close>); no connection serves two sources (\<open>TunIsolation\<close>); counters lose no byte (\<open>AppStats\<close>); relays
    and service loops end after \<open>Close\<close> (\<open>DispatcherConn\<close>, \<open>Api\<close>); one read loop per end point (\<open>GvisorLink\<close>);
    a data file is seen finished or not at all while the start-up extracts (\<open>AssetsBootSafe\<close>).
  \<^item> Functions: the owner found in a socket table is the kernel's (\<open>Procfs\<close>), the STUN tests name the
    class of the NAT (\<open>StunNat\<close>), sockets are protected before use (\<open>Protect\<close>), URLs, flags and DNS queries
    are read back (\<open>Url\<close>, \<open>Plugins\<close>, \<open>DnsWire\<close>), extraction is idempotent (\<open>Assets\<close>).
  \<^item> Faults of the code that modelling showed are theorems too, with the exact condition where
    there is one: a failed dial blocks its source for good (\<open>TunLock\<close>), a packet larger than the
    default buffer crashes the device loop after the first hand-over (\<open>NatDeviceSafe\<close>), an ICMP
    error quotes a packet the client never sent (\<open>IcmpRfc\<close>), an answer from a domain is garbled over
    IPv6 (\<open>UdpPath6\<close>), extension headers are read as ports (\<open>NatUdp6Flow\<close>), the fallback extraction and
    the map of extracted names race (\<open>AssetsBootSafe\<close>), and others.

  \<^bold>\<open>Bounds and fuel.\<close>  \<open>relay_loop\<close> and \<open>device_relay\<close> take fuel; a closed connection needs more than
  its queued packets, an open one one more than its queue, and the properties say so.  The queue
  holds 16 packets (\<open>cache_cap\<close>), the buffer vector 65664 bytes (the sum of \<open>bufConfig\<close>); the default
  buffer size of the core is a parameter of the device loop.  \<open>decode_loop\<close> of \<open>Dns\<close> is a partial
  function that is shown to return on every content.  An extraction
  has at most six steps (\<open>extraction_rank\<close>).  Step counts (two moves of a loop after
  \<open>Close\<close>, five of a waiter) are part of the statements.

  \<^bold>\<open>Not modelled.\<close>  Calls that only forward: the profiling server (\<open>debug.go\<close>), ping, environment variables
  and the connection pool (\<open>core.go\<close>), a library's log channel (\<open>clash_log.go\<close>); interfaces
  (\<open>tun/tun.go\<close>); the hash functions themselves; the build tool that prints the error helpers.  Of modelled
  files: log output, names of pcap files, the options that configure gVisor's buffers, timers
  of the core, and memory reclaimed by \<open>Release\<close> except where its reuse is visible (the device
  buffers, the ICMPv6 answer, the arena).  The Go memory model is taken as sequentially
  consistent at the steps the machines name.
\<close>

end
